(* ===== verification/Prisma_Prelude.thy ===== *)
theory Prisma_Prelude
  imports Main
begin

section \<open>Shared vocabulary of the development\<close>

text \<open>
  What every component theory uses: Rust's \<open>Result\<close> as a sum type (\<open>Inl\<close> the error) with
  its \<open>and_then\<close>, option-valued list combinators for code that may panic inside an iterator
  closure, and the in-place update of the first element an \<open>iter_mut().find(..)\<close> returns.

  Strings are Rust's UTF-8 strings as lists of bytes (\<open>string\<close>), \<open>usize\<close> counters and
  byte offsets are \<open>nat\<close>.
\<close>

named_theorems run_simps \<open>equations for running sequences of steps\<close>
named_theorems codec_simps \<open>equations of the expression printer and parser\<close>

subsection \<open>Result\<close>

definition and_then :: "'e + 'a \<Rightarrow> ('a \<Rightarrow> 'e + 'b) \<Rightarrow> 'e + 'b" where
  "and_then r f = (case r of Inl e \<Rightarrow> Inl e | Inr x \<Rightarrow> f x)"

lemma and_then_simps [simp]:
  "and_then (Inl e) f = Inl e"
  "and_then (Inr x) f = f x"
  by (simp_all add: and_then_def)

lemma and_then_Inr_iff: "and_then r f = Inr y \<longleftrightarrow> (\<exists>x. r = Inr x \<and> f x = Inr y)"
  by (cases r) auto

lemma and_then_assoc: "and_then (and_then r f) g = and_then r (\<lambda>x. and_then (f x) g)"
  by (cases r) auto

definition ok_or :: "'a option \<Rightarrow> 'e \<Rightarrow> 'e + 'a" where
  "ok_or m e = (case m of None \<Rightarrow> Inl e | Some x \<Rightarrow> Inr x)"

lemma ok_or_simps [simp]:
  "ok_or None e = Inl e"
  "ok_or (Some x) e = Inr x"
  by (simp_all add: ok_or_def)

lemma ok_or_Inr_iff [simp]: "ok_or m e = Inr x \<longleftrightarrow> m = Some x"
  by (cases m) auto

definition result_ok :: "'e + 'a \<Rightarrow> 'a option" where
  "result_ok r = (case r of Inl _ \<Rightarrow> None | Inr x \<Rightarrow> Some x)"

lemma result_ok_simps [simp]: "result_ok (Inl e) = None" "result_ok (Inr x) = Some x"
  by (simp_all add: result_ok_def)

lemma result_ok_Some [simp]: "result_ok r = Some x \<longleftrightarrow> r = Inr x"
  by (cases r) simp_all

text \<open>A call that can fail in two ways returns an error or a panic on the left.\<close>

datatype 'e abort = Err 'e | Panics

fun map_abort :: "('e \<Rightarrow> 'f) \<Rightarrow> 'e abort \<Rightarrow> 'f abort" where
  "map_abort f (Err e) = Err (f e)"
| "map_abort f Panics = Panics"

text \<open>The error conversion of \<open>?\<close>, and \<open>unwrap\<close> or \<open>expect\<close> as a panic.\<close>

definition map_err :: "('e \<Rightarrow> 'f) \<Rightarrow> 'e + 'a \<Rightarrow> 'f + 'a" where
  "map_err f r = (case r of Inl e \<Rightarrow> Inl (f e) | Inr x \<Rightarrow> Inr x)"

definition unwrap :: "'a option \<Rightarrow> 'e abort + 'a" where
  "unwrap m = ok_or m Panics"

lemma map_err_simps [simp]: "map_err f (Inl e) = Inl (f e)" "map_err f (Inr x) = Inr x"
  by (simp_all add: map_err_def)

lemma map_err_Inr_iff [simp]: "map_err f r = Inr x \<longleftrightarrow> r = Inr x"
  by (cases r) simp_all

lemma unwrap_simps [simp]: "unwrap (Some x) = Inr x" "unwrap None = Inl Panics"
  by (simp_all add: unwrap_def)

text \<open>A Rust \<open>for\<close> loop over fallible calls that stops at the first error (\<open>?\<close>).\<close>

fun fold_result :: "('a \<Rightarrow> 's \<Rightarrow> 'e + 's) \<Rightarrow> 'a list \<Rightarrow> 's \<Rightarrow> 'e + 's" where
  "fold_result f [] s = Inr s"
| "fold_result f (x # xs) s = and_then (f x s) (fold_result f xs)"

lemma fold_result_append:
  "fold_result f (xs @ ys) s = and_then (fold_result f xs s) (fold_result f ys)"
proof (induction xs arbitrary: s)
  case (Cons x xs)
  then show ?case by (cases "f x s") auto
qed simp

lemma fold_result_invariant:
  assumes "fold_result f xs s = Inr t" and "P s"
    and "\<And>x s s'. x \<in> set xs \<Longrightarrow> P s \<Longrightarrow> f x s = Inr s' \<Longrightarrow> P s'"
  shows "P t"
  using assms
proof (induction xs arbitrary: s)
  case Nil
  then show ?case by simp
next
  case (Cons x xs)
  then obtain s' where "f x s = Inr s'" and "fold_result f xs s' = Inr t"
    by (auto simp: and_then_Inr_iff)
  with Cons show ?case by (metis list.set_intros)
qed

subsection \<open>Iterator closures that may panic\<close>

text \<open>\<open>None\<close> stands for a panic raised by the closure; the combinators keep Rust's order.\<close>

fun map_opt :: "('a \<Rightarrow> 'b option) \<Rightarrow> 'a list \<Rightarrow> 'b list option" where
  "map_opt f [] = Some []"
| "map_opt f (x # xs) =
     Option.bind (f x) (\<lambda>y. map_option (\<lambda>ys. y # ys) (map_opt f xs))"

definition concat_map_opt :: "('a \<Rightarrow> 'b list option) \<Rightarrow> 'a list \<Rightarrow> 'b list option" where
  "concat_map_opt f xs = map_option concat (map_opt f xs)"

definition append_opt :: "'a list option \<Rightarrow> 'a list option \<Rightarrow> 'a list option" where
  "append_opt a b = Option.bind a (\<lambda>xs. map_option (\<lambda>ys. xs @ ys) b)"

lemma append_opt_Some_iff:
  "append_opt a b = Some zs \<longleftrightarrow> (\<exists>xs ys. a = Some xs \<and> b = Some ys \<and> zs = xs @ ys)"
  by (auto simp: append_opt_def bind_eq_Some_conv)

lemma append_opt_assoc: "append_opt (append_opt a b) c = append_opt a (append_opt b c)"
  by (cases a; cases b; cases c) (simp_all add: append_opt_def)

lemma append_opt_simps [simp]: "append_opt (Some xs) (Some ys) = Some (xs @ ys)"
  by (simp add: append_opt_def)

fun filter_opt :: "('a \<Rightarrow> bool option) \<Rightarrow> 'a list \<Rightarrow> 'a list option" where
  "filter_opt f [] = Some []"
| "filter_opt f (x # xs) =
     Option.bind (f x) (\<lambda>b. map_option (\<lambda>ys. if b then x # ys else ys) (filter_opt f xs))"

fun all_opt :: "('a \<Rightarrow> bool option) \<Rightarrow> 'a list \<Rightarrow> bool option" where
  "all_opt f [] = Some True"
| "all_opt f (x # xs) = Option.bind (f x) (\<lambda>b. if b then all_opt f xs else Some False)"

fun any_opt :: "('a \<Rightarrow> bool option) \<Rightarrow> 'a list \<Rightarrow> bool option" where
  "any_opt f [] = Some False"
| "any_opt f (x # xs) = Option.bind (f x) (\<lambda>b. if b then Some True else any_opt f xs)"

lemma map_opt_cong [fundef_cong]:
  "xs = ys \<Longrightarrow> (\<And>x. x \<in> set ys \<Longrightarrow> f x = g x) \<Longrightarrow> map_opt f xs = map_opt g ys"
  by (induction ys arbitrary: xs) auto

lemma map_opt_Some:
  "(\<And>x. x \<in> set xs \<Longrightarrow> f x = Some (g x)) \<Longrightarrow> map_opt f xs = Some (map g xs)"
  by (induction xs) auto

lemma concat_map_opt_Some:
  "(\<And>x. x \<in> set xs \<Longrightarrow> f x = Some (g x)) \<Longrightarrow> concat_map_opt f xs = Some (concat (map g xs))"
  by (simp add: concat_map_opt_def map_opt_Some)

lemma filter_opt_Some:
  "(\<And>x. x \<in> set xs \<Longrightarrow> f x = Some (g x)) \<Longrightarrow> filter_opt f xs = Some (filter g xs)"
  by (induction xs) auto

lemma all_opt_Some:
  "(\<And>x. x \<in> set xs \<Longrightarrow> f x = Some (g x)) \<Longrightarrow> all_opt f xs = Some (\<forall>x\<in>set xs. g x)"
  by (induction xs) auto

lemma any_opt_Some:
  "(\<And>x. x \<in> set xs \<Longrightarrow> f x = Some (g x)) \<Longrightarrow> any_opt f xs = Some (\<exists>x\<in>set xs. g x)"
  by (induction xs) auto

text \<open>\<open>[String]::join\<close>.\<close>

fun join :: "string \<Rightarrow> string list \<Rightarrow> string" where
  "join sep [] = []"
| "join sep [x] = x"
| "join sep (x # y # xs) = x @ sep @ join sep (y # xs)"

text \<open>Decimal digits of a number.\<close>

fun show_nat :: "nat \<Rightarrow> string" where
  "show_nat n = (if n < 10 then [char_of (48 + n)] else show_nat (n div 10) @ [char_of (48 + n mod 10)])"

declare show_nat.simps [simp del]

subsection \<open>Updating the first match in place\<close>

fun update_first :: "('a \<Rightarrow> bool) \<Rightarrow> ('a \<Rightarrow> 'a) \<Rightarrow> 'a list \<Rightarrow> 'a list" where
  "update_first p f [] = []"
| "update_first p f (x # xs) = (if p x then f x # xs else x # update_first p f xs)"

lemma find_update_first:
  assumes "find p xs = Some x" and "\<And>x. p x \<Longrightarrow> p (f x)"
  shows "find p (update_first p f xs) = Some (f x)"
  using assms(1) by (induction xs) (auto simp: assms(2) split: if_splits)

lemma find_update_first_None: "find p xs = None \<Longrightarrow> update_first p f xs = xs"
  by (induction xs) (auto split: if_splits)

lemma update_first_update_first:
  assumes "\<And>x. p x \<Longrightarrow> p (f x)"
  shows "update_first p g (update_first p f xs) = update_first p (g \<circ> f) xs"
  by (induction xs) (auto simp: assms)

lemma update_first_id: "(\<And>x. p x \<Longrightarrow> f x = x) \<Longrightarrow> update_first p f xs = xs"
  by (induction xs) auto

lemma update_first_cong:
  "(\<And>x. p x \<Longrightarrow> f x = g x) \<Longrightarrow> update_first p f xs = update_first p g xs"
  by (induction xs) auto

lemma map_update_first: "(\<And>x. p x \<Longrightarrow> h (f x) = h x) \<Longrightarrow> map h (update_first p f xs) = map h xs"
  by (induction xs) auto

lemma update_first_append:
  "update_first p f (xs @ ys) =
     (if find p xs = None then xs @ update_first p f ys else update_first p f xs @ ys)"
  by (induction xs) auto

lemma find_append: "find p (xs @ ys) = (case find p xs of None \<Rightarrow> find p ys | Some x \<Rightarrow> Some x)"
  by (induction xs) auto

lemma find_map: "find p (map f xs) = map_option f (find (\<lambda>x. p (f x)) xs)"
  by (induction xs) auto

lemma find_filter_other_key: "find (\<lambda>x. k x = a) (filter (\<lambda>x. q (k x)) xs) = (if q a then find (\<lambda>x. k x = a) xs else None)"
  by (induction xs) auto

lemma find_update_first_other:
  "(\<And>x. p x \<Longrightarrow> \<not> q x \<and> \<not> q (f x)) \<Longrightarrow> find q (update_first p f xs) = find q xs"
  by (induction xs) auto

lemma filter_update_first:
  assumes "\<And>x. p x \<Longrightarrow> q x" and "\<And>x. p x \<Longrightarrow> q (f x)"
  shows "filter q (update_first p f xs) = update_first p f (filter q xs)"
  by (induction xs) (auto simp: assms)

lemma filter_update_first_other:
  assumes "\<And>x. p x \<Longrightarrow> \<not> q x \<and> \<not> q (f x)"
  shows "filter q (update_first p f xs) = filter q xs"
  by (induction xs) (auto simp: assms)

lemma filter_filter_implies:
  "(\<And>x. p x \<Longrightarrow> q x) \<Longrightarrow> filter p (filter q xs) = filter p xs"
  by (induction xs) auto

lemma find_key_None_iff: "find (\<lambda>x. k x = a) xs = None \<longleftrightarrow> a \<notin> k ` set xs"
  by (auto simp: find_None_iff)

lemma find_distinct_key:
  "distinct (map k xs) \<Longrightarrow> x \<in> set xs \<Longrightarrow> find (\<lambda>y. k y = k x) xs = Some x"
  by (induction xs) (auto simp: rev_image_eqI)

lemma find_fresh:
  "a \<notin> k ` set xs \<Longrightarrow> find (\<lambda>x. k x = a) (xs @ [y]) = (if k y = a then Some y else None)"
  by (induction xs) auto

lemma update_first_fresh:
  "a \<notin> k ` set xs \<Longrightarrow> k y = a \<Longrightarrow> update_first (\<lambda>x. k x = a) f (xs @ [y]) = xs @ [f y]"
  by (induction xs) auto

lemma update_first_cong_find:
  "find p xs = Some x \<Longrightarrow> f x = g x \<Longrightarrow> update_first p f xs = update_first p g xs"
  by (induction xs) (auto split: if_splits)

lemma find_Some_mem: "find p xs = Some x \<Longrightarrow> x \<in> set xs \<and> p x"
  by (auto simp: find_Some_iff)

lemma find_key_Some: "find (\<lambda>x. k x = a) xs = Some x \<Longrightarrow> k x = a \<and> a \<in> k ` set xs"
  using find_Some_mem [of "\<lambda>x. k x = a" xs x] by auto

lemma set_map_filter: "y \<in> set (List.map_filter f xs) \<longleftrightarrow> (\<exists>x\<in>set xs. f x = Some y)"
  by (induction xs) (auto simp: List.map_filter_simps split: option.splits)

lemma map_filter_append: "List.map_filter f (xs @ ys) = List.map_filter f xs @ List.map_filter f ys"
  by (induction xs) (auto simp: List.map_filter_simps split: option.split)

lemma concat_map_opt_pure: "concat_map_opt (\<lambda>x. Some (f x)) xs = Some (concat (map f xs))"
  by (rule concat_map_opt_Some) simp

lemma concat_map_opt_Cons:
  "concat_map_opt f (x # xs) = append_opt (f x) (concat_map_opt f xs)"
  by (cases "f x"; cases "map_opt f xs") (auto simp: concat_map_opt_def append_opt_def)

lemma concat_map_opt_Nil [simp]: "concat_map_opt f [] = Some []"
  by (simp add: concat_map_opt_def)

lemma length_update_first [simp]: "length (update_first p f xs) = length xs"
  by (induction xs) auto

end
