(* ===== verification/Ast.thy ===== *)
theory Ast
  imports Prisma_Prelude
begin

section \<open>The schema AST\<close>

text \<open>
  The abstract syntax of a Prisma schema (\<open>libs/datamodel/src/ast\<close>): identifiers, spans,
  expressions, arguments, directives, fields, models, enums, source and generator blocks, the
  list of top-level entries, and the lookups and in-place accessors of \<open>SchemaAst\<close>. A Rust
  struct is a record whose fields carry the struct's name as a prefix, since several structs
  share field names (\<open>name\<close>, \<open>directives\<close>, \<open>documentation\<close>, \<open>span\<close>).

  A lookup that returns \<open>&mut\<close> has two halves: the lookup itself and \<open>modify_..\<close>, the
  effect of writing through the reference it returns.
\<close>

subsection \<open>Spans, identifiers, comments\<close>

record span =
  span_start :: nat
  span_end :: nat

definition span_new :: "nat \<Rightarrow> nat \<Rightarrow> span" where
  "span_new s e = \<lparr>span_start = s, span_end = e\<rparr>"

definition span_empty :: span where
  "span_empty = \<lparr>span_start = 0, span_end = 0\<rparr>"

definition lift_span :: "span \<Rightarrow> nat \<Rightarrow> span" where
  "lift_span s offset = \<lparr>span_start = offset + span_start s, span_end = offset + span_end s\<rparr>"

record ident =
  ident_name :: string
  ident_span :: span

definition ident_new :: "string \<Rightarrow> ident" where
  "ident_new n = \<lparr>ident_name = n, ident_span = span_empty\<rparr>"

lemma ident_name_ident_new [simp]: "ident_name (ident_new n) = n"
  by (simp add: ident_new_def)

record comment =
  comment_text :: string

subsection \<open>Expressions\<close>

datatype expression =
    NumericValue string span
  | BooleanValue string span
  | StringValue string span
  | AnyValue string span
  | ConstantValue string span
  | Function string "expression list" span
  | Array "expression list" span

fun with_lifted_span :: "expression \<Rightarrow> nat \<Rightarrow> expression" where
  "with_lifted_span (NumericValue v s) offset = NumericValue v (lift_span s offset)"
| "with_lifted_span (BooleanValue v s) offset = BooleanValue v (lift_span s offset)"
| "with_lifted_span (StringValue v s) offset = StringValue v (lift_span s offset)"
| "with_lifted_span (ConstantValue v s) offset = ConstantValue v (lift_span s offset)"
| "with_lifted_span (Function v a s) offset =
     Function v (map (\<lambda>elem. with_lifted_span elem offset) a) (lift_span s offset)"
| "with_lifted_span (Array v s) offset =
     Array (map (\<lambda>elem. with_lifted_span elem offset) v) (lift_span s offset)"
| "with_lifted_span (AnyValue v s) offset = AnyValue v (lift_span s offset)"

fun expression_to_string :: "expression \<Rightarrow> string" where
  "expression_to_string (StringValue x _) = x"
| "expression_to_string (NumericValue x _) = x"
| "expression_to_string (BooleanValue x _) = x"
| "expression_to_string (ConstantValue x _) = x"
| "expression_to_string (Function x _ _) = x"
| "expression_to_string (Array _ _) = ''(array)''"
| "expression_to_string (AnyValue x _) = x"

fun describe_value_type :: "expression \<Rightarrow> string" where
  "describe_value_type (NumericValue _ _) = ''numeric''"
| "describe_value_type (BooleanValue _ _) = ''boolean''"
| "describe_value_type (StringValue _ _) = ''string''"
| "describe_value_type (ConstantValue _ _) = ''literal''"
| "describe_value_type (Function _ _ _) = ''functional''"
| "describe_value_type (Array _ _) = ''array''"
| "describe_value_type (AnyValue _ _) = ''any''"

text \<open>Lifting spans keeps what an expression says and composes by adding the offsets.\<close>

lemma with_lifted_span_add:
  "with_lifted_span (with_lifted_span e m) n = with_lifted_span e (n + m)"
  by (induction e) (auto simp: lift_span_def)

lemma with_lifted_span_0: "with_lifted_span e 0 = e"
  by (induction e) (auto simp: lift_span_def map_idI)

lemma describe_with_lifted_span [simp]:
  "describe_value_type (with_lifted_span e n) = describe_value_type e"
  by (cases e) auto

subsection \<open>Arguments and directives\<close>

record argument =
  arg_name :: ident
  arg_value :: expression
  arg_span :: span

definition argument_new :: "string \<Rightarrow> expression \<Rightarrow> argument" where
  "argument_new n v = \<lparr>arg_name = ident_new n, arg_value = v, arg_span = span_empty\<rparr>"

definition argument_new_string :: "string \<Rightarrow> string \<Rightarrow> argument" where
  "argument_new_string n v =
     \<lparr>arg_name = ident_new n, arg_value = StringValue v span_empty, arg_span = span_empty\<rparr>"

definition argument_new_constant :: "string \<Rightarrow> string \<Rightarrow> argument" where
  "argument_new_constant n v =
     \<lparr>arg_name = ident_new n, arg_value = ConstantValue v span_empty, arg_span = span_empty\<rparr>"

definition argument_new_array :: "string \<Rightarrow> expression list \<Rightarrow> argument" where
  "argument_new_array n v =
     \<lparr>arg_name = ident_new n, arg_value = Array v span_empty, arg_span = span_empty\<rparr>"

definition argument_new_function :: "string \<Rightarrow> string \<Rightarrow> expression list \<Rightarrow> argument" where
  "argument_new_function n fn_name v =
     \<lparr>arg_name = ident_new n, arg_value = Function fn_name v span_empty, arg_span = span_empty\<rparr>"

record directive =
  dir_name :: ident
  dir_arguments :: "argument list"
  dir_span :: span

definition directive_new :: "string \<Rightarrow> argument list \<Rightarrow> directive" where
  "directive_new n args =
     \<lparr>dir_name = ident_new n, dir_arguments = args, dir_span = span_empty\<rparr>"

subsection \<open>Fields, models, enums, configuration blocks\<close>

datatype field_arity = Required | Optional | ListArity

record ast_field =
  field_type :: ident
  field_name :: ident
  field_arity :: field_arity
  field_default_value :: "expression option"
  field_directives :: "directive list"
  field_documentation :: "comment option"
  field_span :: span

record ast_model =
  model_name :: ident
  model_fields :: "ast_field list"
  model_directives :: "directive list"
  model_documentation :: "comment option"
  model_span :: span

record enum_value =
  value_name :: string
  value_span :: span

record ast_enum =
  enum_name :: ident
  enum_values :: "enum_value list"
  enum_directives :: "directive list"
  enum_documentation :: "comment option"
  enum_span :: span

record source_config =
  source_name :: ident
  source_properties :: "argument list"
  source_documentation :: "comment option"
  source_span :: span

record generator_config =
  generator_name :: ident
  generator_properties :: "argument list"
  generator_documentation :: "comment option"
  generator_span :: span

subsection \<open>Top-level entries\<close>

datatype top =
    TopEnum ast_enum
  | TopModel ast_model
  | TopSource source_config
  | TopGenerator generator_config
  | TopType ast_field

fun top_ident :: "top \<Rightarrow> ident" where
  "top_ident (TopEnum x) = enum_name x"
| "top_ident (TopModel x) = model_name x"
| "top_ident (TopSource x) = source_name x"
| "top_ident (TopGenerator x) = generator_name x"
| "top_ident (TopType x) = field_name x"

fun top_span :: "top \<Rightarrow> span" where
  "top_span (TopEnum x) = enum_span x"
| "top_span (TopModel x) = model_span x"
| "top_span (TopSource x) = source_span x"
| "top_span (TopGenerator x) = generator_span x"
| "top_span (TopType x) = field_span x"

fun top_get_type :: "top \<Rightarrow> string" where
  "top_get_type (TopEnum _) = ''enum''"
| "top_get_type (TopModel _) = ''model''"
| "top_get_type (TopSource _) = ''source''"
| "top_get_type (TopGenerator _) = ''generator''"
| "top_get_type (TopType _) = ''type''"

fun top_name :: "top \<Rightarrow> string" where
  "top_name (TopEnum x) = ident_name (enum_name x)"
| "top_name (TopModel x) = ident_name (model_name x)"
| "top_name (TopSource x) = ident_name (source_name x)"
| "top_name (TopGenerator x) = ident_name (generator_name x)"
| "top_name (TopType x) = ident_name (field_name x)"

fun as_model :: "top \<Rightarrow> ast_model option" where
  "as_model (TopModel m) = Some m"
| "as_model _ = None"

fun as_enum :: "top \<Rightarrow> ast_enum option" where
  "as_enum (TopEnum e) = Some e"
| "as_enum _ = None"

fun as_type :: "top \<Rightarrow> ast_field option" where
  "as_type (TopType x) = Some x"
| "as_type _ = None"

fun as_source :: "top \<Rightarrow> source_config option" where
  "as_source (TopSource x) = Some x"
| "as_source _ = None"

fun as_generator :: "top \<Rightarrow> generator_config option" where
  "as_generator (TopGenerator x) = Some x"
| "as_generator _ = None"

text \<open>Names of the nodes the migration engine looks up.\<close>

abbreviation mname :: "ast_model \<Rightarrow> string" where
  "mname m \<equiv> ident_name (model_name m)"

abbreviation ename :: "ast_enum \<Rightarrow> string" where
  "ename e \<equiv> ident_name (enum_name e)"

abbreviation fname :: "ast_field \<Rightarrow> string" where
  "fname f \<equiv> ident_name (field_name f)"

abbreviation dname :: "directive \<Rightarrow> string" where
  "dname d \<equiv> ident_name (dir_name d)"

abbreviation aname :: "argument \<Rightarrow> string" where
  "aname a \<equiv> ident_name (arg_name a)"

subsection \<open>The schema and its lookups\<close>

record schema_ast =
  tops :: "top list"

definition schema_empty :: schema_ast where
  "schema_empty = \<lparr>tops = []\<rparr>"

definition models :: "schema_ast \<Rightarrow> ast_model list" where
  "models s = List.map_filter as_model (tops s)"

definition enums :: "schema_ast \<Rightarrow> ast_enum list" where
  "enums s = List.map_filter as_enum (tops s)"

definition types :: "schema_ast \<Rightarrow> ast_field list" where
  "types s = List.map_filter as_type (tops s)"

definition sources :: "schema_ast \<Rightarrow> source_config list" where
  "sources s = List.map_filter as_source (tops s)"

definition generators :: "schema_ast \<Rightarrow> generator_config list" where
  "generators s = List.map_filter as_generator (tops s)"

definition find_model :: "schema_ast \<Rightarrow> string \<Rightarrow> ast_model option" where
  "find_model s n = find (\<lambda>m. mname m = n) (models s)"

definition find_custom_type :: "schema_ast \<Rightarrow> string \<Rightarrow> ast_field option" where
  "find_custom_type s n = find (\<lambda>t. fname t = n) (types s)"

definition find_enum :: "schema_ast \<Rightarrow> string \<Rightarrow> ast_enum option" where
  "find_enum s n = find (\<lambda>e. ename e = n) (enums s)"

definition find_field :: "schema_ast \<Rightarrow> string \<Rightarrow> string \<Rightarrow> ast_field option" where
  "find_field s m f =
     (case find_model s m of
        None \<Rightarrow> None
      | Some md \<Rightarrow> find (\<lambda>x. fname x = f) (model_fields md))"

text \<open>
  \<open>find_model_mut\<close> and \<open>find_enum_mut\<close> search the list of top-level entries for the first
  model (enum) of that name; writing through the reference changes that entry in place.
\<close>

definition is_model_named :: "string \<Rightarrow> top \<Rightarrow> bool" where
  "is_model_named n t = (case t of TopModel m \<Rightarrow> mname m = n | _ \<Rightarrow> False)"

definition is_enum_named :: "string \<Rightarrow> top \<Rightarrow> bool" where
  "is_enum_named n t = (case t of TopEnum e \<Rightarrow> ename e = n | _ \<Rightarrow> False)"

definition find_model_mut :: "schema_ast \<Rightarrow> string \<Rightarrow> ast_model option" where
  "find_model_mut s n = Option.bind (find (is_model_named n) (tops s)) as_model"

definition find_enum_mut :: "schema_ast \<Rightarrow> string \<Rightarrow> ast_enum option" where
  "find_enum_mut s n = Option.bind (find (is_enum_named n) (tops s)) as_enum"

fun map_model :: "(ast_model \<Rightarrow> ast_model) \<Rightarrow> top \<Rightarrow> top" where
  "map_model f (TopModel m) = TopModel (f m)"
| "map_model f t = t"

fun map_enum :: "(ast_enum \<Rightarrow> ast_enum) \<Rightarrow> top \<Rightarrow> top" where
  "map_enum f (TopEnum e) = TopEnum (f e)"
| "map_enum f t = t"

definition modify_model :: "string \<Rightarrow> (ast_model \<Rightarrow> ast_model) \<Rightarrow> schema_ast \<Rightarrow> schema_ast" where
  "modify_model n f s = s\<lparr>tops := update_first (is_model_named n) (map_model f) (tops s)\<rparr>"

definition modify_enum :: "string \<Rightarrow> (ast_enum \<Rightarrow> ast_enum) \<Rightarrow> schema_ast \<Rightarrow> schema_ast" where
  "modify_enum n f s = s\<lparr>tops := update_first (is_enum_named n) (map_enum f) (tops s)\<rparr>"

definition find_field_mut :: "schema_ast \<Rightarrow> string \<Rightarrow> string \<Rightarrow> ast_field option" where
  "find_field_mut s m f =
     Option.bind (find_model_mut s m) (\<lambda>md. find (\<lambda>x. fname x = f) (model_fields md))"

definition modify_field ::
    "string \<Rightarrow> string \<Rightarrow> (ast_field \<Rightarrow> ast_field) \<Rightarrow> schema_ast \<Rightarrow> schema_ast" where
  "modify_field m f g s =
     modify_model m (\<lambda>md. md\<lparr>model_fields := update_first (\<lambda>x. fname x = f) g (model_fields md)\<rparr>) s"

subsection \<open>Lookups and in-place changes agree\<close>

lemma map_filter_find_model:
  "find (\<lambda>m. mname m = n) (List.map_filter as_model ts) =
     Option.bind (find (is_model_named n) ts) as_model"
proof (induction ts)
  case (Cons t ts)
  then show ?case by (cases t) (simp_all add: is_model_named_def List.map_filter_simps)
qed (simp add: List.map_filter_simps)

lemma map_filter_find_enum:
  "find (\<lambda>e. ename e = n) (List.map_filter as_enum ts) =
     Option.bind (find (is_enum_named n) ts) as_enum"
proof (induction ts)
  case (Cons t ts)
  then show ?case by (cases t) (simp_all add: is_enum_named_def List.map_filter_simps)
qed (simp add: List.map_filter_simps)

lemma find_model_mut_eq: "find_model_mut s n = find_model s n"
  by (simp add: find_model_mut_def find_model_def models_def map_filter_find_model)

lemma find_enum_mut_eq: "find_enum_mut s n = find_enum s n"
  by (simp add: find_enum_mut_def find_enum_def enums_def map_filter_find_enum)

lemma find_field_mut_eq: "find_field_mut s m f = find_field s m f"
  by (simp add: find_field_mut_def find_field_def find_model_mut_eq split: option.splits)

lemmas find_mut_eq = find_model_mut_eq find_enum_mut_eq find_field_mut_eq

end
