(* ===== verification/Expression_Codec.thy ===== *)
theory Expression_Codec
  imports Ast
begin

section \<open>Printing and parsing expressions\<close>

text \<open>
  Migration steps carry directive arguments as text: \<open>MigrationExpression\<close> prints an AST
  expression with the renderer (\<open>ast/renderer/mod.rs\<close>) and reads it back with the pest grammar
  (\<open>ast/parser/datamodel.pest\<close>, rule \<open>expression\<close>) and \<open>parse_expression\<close>
  (\<open>ast/parser/mod.rs\<close>). The renderer is modelled with \<open>None\<close> for the panic on
  \<open>Expression::Any\<close>. The parser follows the grammar rule by rule, with the ordered choice of a
  PEG and pest's implicit whitespace and comments between the elements of a non-atomic rule; an
  input is the byte offset and the text that is left.
\<close>

subsection \<open>The renderer\<close>

definition render_str :: "string \<Rightarrow> string" where
  "render_str s = [CHR 0x22] @ s @ [CHR 0x22]"

fun render_value :: "expression \<Rightarrow> string option" where
  "render_value (Array vals _) =
     map_option (\<lambda>vs. ''['' @ join '', '' vs @ '']'') (map_opt render_value vals)"
| "render_value (BooleanValue v _) = Some v"
| "render_value (ConstantValue v _) = Some v"
| "render_value (NumericValue v _) = Some v"
| "render_value (StringValue v _) = Some (render_str v)"
| "render_value (Function name args _) =
     map_option (\<lambda>vs. name @ ''('' @ join '', '' vs @ '')'') (map_opt render_value args)"
| "render_value (AnyValue _ _) = None"

subsection \<open>Characters and atomic rules of the grammar\<close>

definition code :: "char \<Rightarrow> nat" where
  "code c = of_char c"

definition ascii_digit :: "char \<Rightarrow> bool" where
  "ascii_digit c = (48 \<le> code c \<and> code c \<le> 57)"

definition ascii_alpha :: "char \<Rightarrow> bool" where
  "ascii_alpha c = (65 \<le> code c \<and> code c \<le> 90 \<or> 97 \<le> code c \<and> code c \<le> 122)"

definition ident_char :: "char \<Rightarrow> bool" where
  "ident_char c = (c = CHR ''_'' \<or> ascii_alpha c \<or> ascii_digit c)"

fun starts_with :: "string \<Rightarrow> string \<Rightarrow> bool" where
  "starts_with [] s = True"
| "starts_with (p # ps) [] = False"
| "starts_with (p # ps) (c # cs) = (p = c \<and> starts_with ps cs)"

text \<open>The number of bytes a rule consumes at the head of the text, 0 when it does not match.\<close>

definition newline_len :: "string \<Rightarrow> nat" where
  "newline_len s =
     (if starts_with [CHR 0x0A] s then 1
      else if starts_with [CHR 0x0D, CHR 0x0A] s then 2
      else if starts_with [CHR 0x0D] s then 1 else 0)"

definition space_separators :: "string list" where
  "space_separators =
     [[CHR 0x20], [CHR 0xC2, CHR 0xA0], [CHR 0xE1, CHR 0x9A, CHR 0x80],
      [CHR 0xE2, CHR 0x80, CHR 0x80], [CHR 0xE2, CHR 0x80, CHR 0x81],
      [CHR 0xE2, CHR 0x80, CHR 0x82], [CHR 0xE2, CHR 0x80, CHR 0x83],
      [CHR 0xE2, CHR 0x80, CHR 0x84], [CHR 0xE2, CHR 0x80, CHR 0x85],
      [CHR 0xE2, CHR 0x80, CHR 0x86], [CHR 0xE2, CHR 0x80, CHR 0x87],
      [CHR 0xE2, CHR 0x80, CHR 0x88], [CHR 0xE2, CHR 0x80, CHR 0x89],
      [CHR 0xE2, CHR 0x80, CHR 0x8A], [CHR 0xE2, CHR 0x80, CHR 0xAF],
      [CHR 0xE2, CHR 0x81, CHR 0x9F], [CHR 0xE3, CHR 0x80, CHR 0x80]]"

definition whitespace_len :: "string \<Rightarrow> nat" where
  "whitespace_len s =
     (case find (\<lambda>w. starts_with w s) space_separators of
        Some w \<Rightarrow> length w
      | None \<Rightarrow> if starts_with [CHR 0x09] s then 1 else newline_len s)"

fun to_line_end :: "string \<Rightarrow> nat" where
  "to_line_end [] = 0"
| "to_line_end (c # cs) =
     (if newline_len (c # cs) > 0 then newline_len (c # cs) else Suc (to_line_end cs))"

definition comment_len :: "string \<Rightarrow> nat" where
  "comment_len s =
     (if starts_with ''///'' s then 0
      else if starts_with ''//'' s then 2 + to_line_end (drop 2 s) else 0)"

type_synonym pinput = "nat \<times> string"

definition advance :: "nat \<Rightarrow> pinput \<Rightarrow> pinput" where
  "advance n i = (fst i + n, drop n (snd i))"

definition gap_len :: "string \<Rightarrow> nat" where
  "gap_len s = (if whitespace_len s > 0 then whitespace_len s else comment_len s)"

text \<open>The implicit \<open>(WHITESPACE | COMMENT)*\<close> between the elements of a non-atomic rule.\<close>

function skip :: "pinput \<Rightarrow> pinput" where
  "skip i = (if snd i = [] \<or> gap_len (snd i) = 0 then i else skip (advance (gap_len (snd i)) i))"
  by pat_completeness auto
termination
  by (relation "measure (\<lambda>i. length (snd i))") (auto simp: advance_def)

declare skip.simps [simp del]

definition token :: "string \<Rightarrow> pinput \<Rightarrow> pinput option" where
  "token t i = (if starts_with t (snd i) then Some (advance (length t) i) else None)"

definition p_identifier :: "pinput \<Rightarrow> (string \<times> pinput) option" where
  "p_identifier i =
     (case snd i of
        c # cs \<Rightarrow>
          if ascii_alpha c then
            (let n = Suc (length (takeWhile ident_char cs))
             in Some (take n (snd i), advance n i))
          else None
      | [] \<Rightarrow> None)"

definition digits_len :: "string \<Rightarrow> nat" where
  "digits_len s = length (takeWhile ascii_digit s)"

definition numeric_len :: "string \<Rightarrow> nat" where
  "numeric_len s =
     (let sgn = (if starts_with ''-'' s then 1 else 0);
          whole = digits_len (drop sgn s);
          frac = drop (sgn + whole) s
      in if whole = 0 then 0
         else if starts_with ''.'' frac \<and> digits_len (drop 1 frac) > 0
              then sgn + whole + 1 + digits_len (drop 1 frac)
              else sgn + whole)"

definition boolean_len :: "string \<Rightarrow> nat" where
  "boolean_len s =
     (if starts_with ''true'' s then 4 else if starts_with ''false'' s then 5 else 0)"

definition string_escapes :: "string list" where
  "string_escapes =
     [''n'', ''r'', ''t'', [CHR 0x5C], ''0'', [CHR 0x22], [CHR 0x27], [CHR ''$'', CHR 0x7B]]"

definition escape_len :: "string \<Rightarrow> nat" where
  "escape_len s =
     (if starts_with [CHR 0x5C] s then
        (case find (\<lambda>e. starts_with e (drop 1 s)) string_escapes of
           None \<Rightarrow> 0
         | Some e \<Rightarrow> Suc (length e))
      else 0)"

definition interpolation_start :: string where
  "interpolation_start = [CHR ''$'', CHR 0x7B]"

text \<open>One byte of \<open>string_raw\<close>.\<close>

definition raw_char :: "string \<Rightarrow> bool" where
  "raw_char s =
     (s \<noteq> [] \<and> hd s \<noteq> CHR 0x5C \<and> hd s \<noteq> CHR 0x22 \<and> newline_len s = 0
      \<and> \<not> starts_with interpolation_start s)"


subsection \<open>The recursive rules\<close>

definition shrinks :: "pinput \<Rightarrow> pinput \<Rightarrow> bool" where
  "shrinks j i = (length (snd j) < length (snd i))"

lemma length_advance: "length (snd (advance n i)) = length (snd i) - n"
  by (simp add: advance_def)

lemma length_skip: "length (snd (skip i)) \<le> length (snd i)"
proof (induction i rule: skip.induct)
  case (1 i)
  then show ?case by (subst skip.simps) (auto simp: advance_def)
qed

lemma starts_with_length: "starts_with t s \<Longrightarrow> length t \<le> length s"
  by (induction t s rule: starts_with.induct) auto

lemma token_shrinks:
  assumes "token t i = Some j" and "t \<noteq> []"
  shows "length (snd j) < length (snd i)"
  using assms starts_with_length [of t "snd i"]
  by (cases t) (auto simp: token_def length_advance split: if_splits)

lemma identifier_shrinks:
  assumes "p_identifier i = Some (n, j)"
  shows "length (snd j) < length (snd i)"
  using assms by (auto simp: p_identifier_def length_advance Let_def split: list.splits if_splits)

lemma skip_token_shrinks:
  "token t i = Some j \<Longrightarrow> t \<noteq> [] \<Longrightarrow> length (snd (skip j)) < length (snd i)"
  using token_shrinks length_skip order_le_less_trans by blast

lemma skip_token_skip_shrinks:
  "token t (skip i) = Some j \<Longrightarrow> t \<noteq> [] \<Longrightarrow> length (snd (skip j)) < length (snd i)"
  using skip_token_shrinks length_skip order_less_le_trans by blast

definition p_numeric :: "pinput \<Rightarrow> (expression \<times> pinput) option" where
  "p_numeric i =
     (let n = numeric_len (snd i); j = advance n i
      in if n = 0 then None else Some (NumericValue (take n (snd i)) (span_new (fst i) (fst j)), j))"

definition p_boolean :: "pinput \<Rightarrow> (expression \<times> pinput) option" where
  "p_boolean i =
     (let n = boolean_len (snd i); j = advance n i
      in if n = 0 then None else Some (BooleanValue (take n (snd i)) (span_new (fst i) (fst j)), j))"

definition p_constant :: "pinput \<Rightarrow> (expression \<times> pinput) option" where
  "p_constant i =
     (case p_identifier i of
        None \<Rightarrow> None
      | Some (n, j) \<Rightarrow> Some (ConstantValue n (span_new (fst i) (fst j)), j))"

lemma skip_token_less:
  "token t i = Some j \<Longrightarrow> t \<noteq> [] \<Longrightarrow> 2 * length (snd (skip j)) + 2 \<le> 2 * length (snd i)"
  using skip_token_shrinks by fastforce

lemma skip_token_skip_less:
  "token t (skip i) = Some j \<Longrightarrow> t \<noteq> [] \<Longrightarrow> 2 * length (snd (skip j)) + 2 \<le> 2 * length (snd i)"
  using skip_token_skip_shrinks by fastforce

lemma skip_less:
  "length (snd i) < n \<Longrightarrow> 2 * length (snd (skip i)) + 2 \<le> 2 * n"
  using length_skip [of i] by simp

lemma escape_len_pos: "0 < escape_len s \<Longrightarrow> s \<noteq> []"
  by (auto simp: escape_len_def)

text \<open>
  \<open>p_expression\<close> is the ordered choice of the rule \<open>expression\<close> together with the AST node
  \<open>parse_expression\<close> builds; \<open>p_tail\<close> is the repetition \<open>("," ~ expression)*\<close> of arrays and
  function arguments; \<open>p_content\<close> is \<open>string_content\<close>, whose interpolations contain expressions
  again. A call after a successful sub-parse is guarded by \<open>shrinks\<close>, which holds for every
  successful parse (\<open>parser_shrinks\<close> below); the guards make the recursion well-founded.
\<close>

function (sequential)
  p_expression :: "pinput \<Rightarrow> (expression \<times> pinput) option" and
  p_array :: "pinput \<Rightarrow> (expression \<times> pinput) option" and
  p_function :: "pinput \<Rightarrow> (expression \<times> pinput) option" and
  p_string :: "pinput \<Rightarrow> (expression \<times> pinput) option" and
  p_tail :: "pinput \<Rightarrow> expression list \<times> pinput" and
  p_content :: "pinput \<Rightarrow> pinput"
where
  "p_expression i =
     (case p_array i of
        Some r \<Rightarrow> Some r
      | None \<Rightarrow>
     (case p_function i of
        Some r \<Rightarrow> Some r
      | None \<Rightarrow>
     (case p_numeric i of
        Some r \<Rightarrow> Some r
      | None \<Rightarrow>
     (case p_string i of
        Some r \<Rightarrow> Some r
      | None \<Rightarrow>
     (case p_boolean i of
        Some r \<Rightarrow> Some r
      | None \<Rightarrow> p_constant i)))))"
| "p_array i =
     (case token ''['' i of
        None \<Rightarrow> None
      | Some i1 \<Rightarrow>
          (case p_expression (skip i1) of
             None \<Rightarrow> None
           | Some (e, i2) \<Rightarrow>
               if shrinks i2 i then
                 (case p_tail i2 of (es, i3) \<Rightarrow>
                    (case token '']'' (skip i3) of
                       None \<Rightarrow> None
                     | Some i4 \<Rightarrow> Some (Array (e # es) (span_new (fst i) (fst i4)), i4)))
               else None))"
| "p_function i =
     (case p_identifier i of
        None \<Rightarrow> None
      | Some (n, i1) \<Rightarrow>
          (case token ''('' (skip i1) of
             None \<Rightarrow> None
           | Some i2 \<Rightarrow>
               if shrinks i2 i then
                 (case p_expression (skip i2) of
                    None \<Rightarrow>
                      (case token '')'' (skip i2) of
                         None \<Rightarrow> None
                       | Some i3 \<Rightarrow> Some (Function n [] (span_new (fst i) (fst i3)), i3))
                  | Some (e, i3) \<Rightarrow>
                      if shrinks i3 i then
                        (case p_tail i3 of (es, i4) \<Rightarrow>
                           (case token '')'' (skip i4) of
                              None \<Rightarrow> None
                            | Some i5 \<Rightarrow> Some (Function n (e # es) (span_new (fst i) (fst i5)), i5)))
                      else None)
               else None))"
| "p_string i =
     (case token [CHR 0x22] i of
        None \<Rightarrow> None
      | Some i1 \<Rightarrow>
          (let i3 = p_content (skip i1)
           in (case token [CHR 0x22] (skip i3) of
                None \<Rightarrow> None
              | Some i4 \<Rightarrow>
                  Some (StringValue (take (fst i3 - fst (skip i1)) (snd (skip i1)))
                          (span_new (fst i) (fst i4)), i4))))"
| "p_tail i =
     (case token '','' (skip i) of
        None \<Rightarrow> ([], i)
      | Some i1 \<Rightarrow>
          (case p_expression (skip i1) of
             None \<Rightarrow> ([], i)
           | Some (e, i2) \<Rightarrow>
               if shrinks i2 i then (case p_tail i2 of (es, i3) \<Rightarrow> (e # es, i3)) else ([], i)))"
| "p_content i =
     (if raw_char (snd i) then p_content (advance 1 i)
      else if escape_len (snd i) > 0 then p_content (advance (escape_len (snd i)) i)
      else
        (case token interpolation_start i of
           None \<Rightarrow> i
         | Some i1 \<Rightarrow>
             (case p_expression (skip i1) of
                None \<Rightarrow> i
              | Some (e, i2) \<Rightarrow>
                  (case token [CHR 0x7D] (skip i2) of
                     None \<Rightarrow> i
                   | Some i3 \<Rightarrow> if shrinks i3 i then p_content i3 else i))))"
  by pat_completeness auto

termination
proof (relation "measure (\<lambda>x. case x of
      Inl (Inl i) \<Rightarrow> 2 * length (snd i) + 1
    | Inl (Inr (Inl i)) \<Rightarrow> 2 * length (snd i)
    | Inl (Inr (Inr i)) \<Rightarrow> 2 * length (snd i)
    | Inr (Inl i) \<Rightarrow> 2 * length (snd i)
    | Inr (Inr (Inl i)) \<Rightarrow> 2 * length (snd i)
    | Inr (Inr (Inr i)) \<Rightarrow> 2 * length (snd i))", goal_cases)
qed (auto simp: shrinks_def length_advance raw_char_def interpolation_start_def escape_len_pos
       dest: skip_token_less skip_token_skip_less skip_less)


declare p_expression.simps [simp del] p_array.simps [simp del] p_function.simps [simp del]
  p_string.simps [simp del] p_tail.simps [simp del] p_content.simps [simp del]

lemmas p_simps = p_expression.simps p_array.simps p_function.simps p_string.simps

text \<open>\<open>Expression::from_str\<close>: the first expression at the start of the text.\<close>

definition expression_from_str :: "string \<Rightarrow> expression option" where
  "expression_from_str s = map_option fst (p_expression (0, s))"

subsection \<open>What survives printing and parsing\<close>

text \<open>\<open>erase\<close> forgets the source locations.\<close>

fun erase :: "expression \<Rightarrow> expression" where
  "erase (NumericValue v _) = NumericValue v span_empty"
| "erase (BooleanValue v _) = BooleanValue v span_empty"
| "erase (StringValue v _) = StringValue v span_empty"
| "erase (AnyValue v _) = AnyValue v span_empty"
| "erase (ConstantValue v _) = ConstantValue v span_empty"
| "erase (Function n es _) = Function n (map erase es) span_empty"
| "erase (Array es _) = Array (map erase es) span_empty"

text \<open>
  The texts a string literal can hold without change: they do not begin with what the grammar
  skips after the opening quote, and contain only raw bytes and escape sequences.
\<close>

fun content_ok :: "string \<Rightarrow> bool" where
  "content_ok [] = True"
| "content_ok (c # cs) =
     (if c = CHR 0x5C then
        (case cs of
           [] \<Rightarrow> False
         | d # ds \<Rightarrow> d \<in> set (''nrt0'' @ [CHR 0x5C, CHR 0x22, CHR 0x27]) \<and> content_ok ds)
      else raw_char (c # cs) \<and> content_ok cs)"

definition string_ok :: "string \<Rightarrow> bool" where
  "string_ok s = (gap_len s = 0 \<and> content_ok s)"

definition ident_ok :: "string \<Rightarrow> bool" where
  "ident_ok s = (case s of c # cs \<Rightarrow> ascii_alpha c \<and> list_all ident_char cs | [] \<Rightarrow> False)"

fun wf_expression :: "expression \<Rightarrow> bool" where
  "wf_expression (NumericValue v _) = (v \<noteq> [] \<and> numeric_len v = length v)"
| "wf_expression (BooleanValue v _) = (v = ''true'' \<or> v = ''false'')"
| "wf_expression (StringValue v _) = string_ok v"
| "wf_expression (AnyValue v _) = False"
| "wf_expression (ConstantValue v _) =
     (ident_ok v \<and> \<not> starts_with ''true'' v \<and> \<not> starts_with ''false'' v)"
| "wf_expression (Function n es _) = (ident_ok n \<and> list_all wf_expression es)"
| "wf_expression (Array es _) = (es \<noteq> [] \<and> list_all wf_expression es)"

subsection \<open>Scanning lemmas\<close>

lemma starts_with_append: "starts_with w s \<Longrightarrow> starts_with w (s @ r)"
  by (induction w s rule: starts_with.induct) auto

lemma starts_with_append_other:
  "starts_with w (s @ q # r) \<Longrightarrow> q \<notin> set w \<Longrightarrow> starts_with w s"
  by (induction w s rule: starts_with.induct) auto

lemma starts_with_Cons: "starts_with (p # ps) s \<longleftrightarrow> (\<exists>cs. s = p # cs \<and> starts_with ps cs)"
  by (cases s) auto

definition gap_free :: "char \<Rightarrow> bool" where
  "gap_free c =
     (c \<notin> set [CHR 0x20, CHR 0xC2, CHR 0xE1, CHR 0xE2, CHR 0xE3, CHR 0x09, CHR 0x0A, CHR 0x0D, CHR ''/''])"

lemma space_separators_hd:
  "\<forall>w\<in>set space_separators. w \<noteq> [] \<and> \<not> gap_free (hd w)"
  by (simp add: space_separators_def gap_free_def)

lemma gap_len_free:
  assumes "gap_free c"
  shows "gap_len (c # s) = 0"
proof -
  have "\<not> starts_with w (c # s)" if "w \<in> set space_separators" for w
    using space_separators_hd that assms by (cases w) auto
  then have "find (\<lambda>w. starts_with w (c # s)) space_separators = None"
    by (auto simp: find_None_iff)
  moreover have "c \<noteq> CHR 0x09" "c \<noteq> CHR 0x0A" "c \<noteq> CHR 0x0D" "c \<noteq> CHR ''/''"
    using assms by (auto simp: gap_free_def)
  ultimately show ?thesis
    by (simp add: gap_len_def whitespace_len_def comment_len_def newline_len_def)
qed

lemma skip_free: "gap_free c \<Longrightarrow> skip (pos, c # s) = (pos, c # s)"
  by (subst skip.simps) (simp add: gap_len_free)

lemma skip_Nil: "skip (pos, []) = (pos, [])"
  by (subst skip.simps) simp

lemma skip_gap0: "gap_len (snd i) = 0 \<Longrightarrow> skip i = i"
  by (subst skip.simps) simp

lemma skip_space: "skip (pos, CHR 0x20 # s) = skip (Suc pos, s)"
proof -
  have "gap_len (CHR 0x20 # s) = 1"
    by (simp add: gap_len_def whitespace_len_def space_separators_def)
  then show ?thesis
    by (subst skip.simps) (simp add: advance_def)
qed

definition stop :: "string \<Rightarrow> bool" where
  "stop rest = (rest = [] \<or> hd rest \<in> set '',)]'')"

lemma code_simps [simp]: "code c = of_char c"
  by (simp add: code_def)

lemma stop_cases:
  assumes "stop rest"
  obtains "rest = []" | r where "rest = CHR '','' # r" | r where "rest = CHR '')'' # r"
    | r where "rest = CHR '']'' # r"
  using assms by (cases rest) (auto simp: stop_def)

lemma skip_stop [simp]: "stop rest \<Longrightarrow> skip (pos, rest) = (pos, rest)"
  by (erule stop_cases) (auto simp: skip_Nil skip_free gap_free_def)

lemma token_hit: "token [c] (pos, c # s) = Some (Suc pos, s)"
  by (simp add: token_def advance_def)

lemma token_miss: "c \<noteq> d \<Longrightarrow> token [c] (pos, d # s) = None"
  by (simp add: token_def)

lemma token_Nil: "token (c # cs) (pos, []) = None"
  by (simp add: token_def)

lemma token_paren_stop [simp]: "stop rest \<Longrightarrow> token ''('' (pos, rest) = None"
  by (erule stop_cases) (auto simp: token_def)

lemma alpha_gap_free: "ascii_alpha c \<Longrightarrow> gap_free c"
  by (auto simp: ascii_alpha_def gap_free_def)

lemma digit_gap_free: "ascii_digit c \<Longrightarrow> gap_free c"
  by (auto simp: ascii_digit_def gap_free_def)

lemma takeWhile_stop:
  "list_all P xs \<Longrightarrow> rest = [] \<or> \<not> P (hd rest) \<Longrightarrow> takeWhile P (xs @ rest) = xs"
  by (induction xs) (auto simp: takeWhile_eq_Nil_iff)

lemma stop_not_ident: "stop rest \<Longrightarrow> rest = [] \<or> \<not> ident_char (hd rest)"
  by (erule stop_cases) (auto simp: ident_char_def ascii_alpha_def ascii_digit_def)

lemma paren_not_ident: "\<not> ident_char (CHR ''('')"
  by (auto simp: ident_char_def ascii_alpha_def ascii_digit_def)

lemma p_identifier_ok:
  assumes "ident_ok v" and "rest = [] \<or> \<not> ident_char (hd rest)"
  shows "p_identifier (pos, v @ rest) = Some (v, (pos + length v, rest))"
proof -
  obtain c cs where v: "v = c # cs" and c: "ascii_alpha c" and cs: "list_all ident_char cs"
    using assms(1) by (auto simp: ident_ok_def split: list.splits)
  have "takeWhile ident_char (cs @ rest) = cs"
    using cs assms(2) by (rule takeWhile_stop)
  with v c show ?thesis
    by (simp add: p_identifier_def advance_def)
qed


lemma stop_not_digit: "stop rest \<Longrightarrow> rest = [] \<or> \<not> ascii_digit (hd rest)"
  by (erule stop_cases) (auto simp: ascii_digit_def)

lemma digits_len_append:
  assumes "stop rest"
  shows "digits_len (t @ rest) = digits_len t"
proof (cases "list_all ascii_digit t")
  case True
  have "takeWhile ascii_digit (t @ rest) = t"
    using takeWhile_stop [OF True stop_not_digit [OF assms]] .
  moreover have "takeWhile ascii_digit t = t"
    using takeWhile_stop [OF True, of "[]"] by simp
  ultimately show ?thesis by (simp only: digits_len_def)
next
  case False
  then obtain x where "x \<in> set t" and "\<not> ascii_digit x" by (auto simp: list_all_iff)
  then show ?thesis by (simp add: digits_len_def takeWhile_append1)
qed

lemma starts_with_dot_stop [simp]: "stop rest \<Longrightarrow> \<not> starts_with ''.'' rest"
  by (erule stop_cases) auto

lemma numeric_len_append:
  assumes "v \<noteq> []" and "numeric_len v = length v" and "stop rest"
  shows "numeric_len (v @ rest) = length v"
proof -
  define sg :: nat where "sg = (if starts_with ''-'' v then 1 else 0)"
  define t where "t = drop sg v"
  define w where "w = digits_len t"
  define f where "f = drop w t"
  have sg': "(if starts_with ''-'' (v @ rest) then 1 else 0) = sg"
    using assms(1) by (cases v) (auto simp: sg_def)
  have sg_le: "sg \<le> length v"
    using assms(1) by (cases v) (auto simp: sg_def)
  have w_le: "w \<le> length t"
    by (simp add: w_def digits_len_def length_takeWhile_le)
  have t': "drop sg (v @ rest) = t @ rest" and f': "drop (sg + w) (v @ rest) = f @ rest"
    and fv: "drop (sg + w) v = f"
    using sg_le w_le by (simp_all add: t_def f_def add.commute)
  have num: "numeric_len v = (if w = 0 then 0 else if starts_with ''.'' f \<and> digits_len (drop 1 f) > 0
       then sg + w + 1 + digits_len (drop 1 f) else sg + w)"
    by (simp add: numeric_len_def Let_def flip: sg_def t_def w_def fv)
  have num': "numeric_len (v @ rest) = (if w = 0 then 0
       else if starts_with ''.'' (f @ rest) \<and> digits_len (drop 1 (f @ rest)) > 0
       then sg + w + 1 + digits_len (drop 1 (f @ rest)) else sg + w)"
    unfolding numeric_len_def Let_def sg' t' digits_len_append [OF assms(3)] w_def [symmetric] f' ..
  show ?thesis
  proof (cases "f = []")
    case True
    with num num' assms show ?thesis by (auto split: if_splits)
  next
    case False
    then have "starts_with ''.'' (f @ rest) = starts_with ''.'' f" and "drop 1 (f @ rest) = drop 1 f @ rest"
      by (cases f; simp)+
    with num num' assms(2) digits_len_append [OF assms(3), of "drop 1 f"] show ?thesis by simp
  qed
qed

lemma numeric_head:
  assumes "v \<noteq> []" and "numeric_len v = length v"
  shows "hd v = CHR ''-'' \<or> ascii_digit (hd v)"
  using assms by (cases v) (auto simp: numeric_len_def digits_len_def Let_def split: if_splits)

lemma boolean_len_append:
  assumes "\<not> starts_with ''true'' v" and "\<not> starts_with ''false'' v" and "stop rest"
  shows "boolean_len (v @ rest) = 0"
proof -
  have *: "\<not> starts_with w (v @ rest)" if "\<not> starts_with w v" "set w \<inter> set '',)]'' = {}" "w \<noteq> []" for w
    using assms(3) that
    by (cases rule: stop_cases) (auto dest: starts_with_append_other)
  show ?thesis
    using *[OF assms(1)] *[OF assms(2)] by (simp add: boolean_len_def)
qed

lemma boolean_len_bool [simp]:
  "boolean_len (''true'' @ rest) = 4" "boolean_len (''false'' @ rest) = 5"
  by (simp_all add: boolean_len_def)

lemma gap_len_quote:
  assumes "gap_len v = 0"
  shows "gap_len (v @ CHR 0x22 # r) = 0"
proof -
  have q: "starts_with w (v @ CHR 0x22 # r) = starts_with w v" if "CHR 0x22 \<notin> set w" for w
    using that starts_with_append_other starts_with_append by blast
  have "find (\<lambda>w. starts_with w (v @ CHR 0x22 # r)) space_separators
      = find (\<lambda>w. starts_with w v) space_separators"
    by (rule find_cong) (auto simp: q space_separators_def)
  moreover have "newline_len (v @ CHR 0x22 # r) = newline_len v"
    by (simp add: newline_len_def q)
  ultimately have "whitespace_len (v @ CHR 0x22 # r) = whitespace_len v"
    by (simp add: whitespace_len_def q split: option.split)
  with assms show ?thesis
    by (simp add: gap_len_def comment_len_def q split: if_splits)
qed

lemma raw_char_quote: "raw_char (c # cs) \<Longrightarrow> raw_char (c # cs @ CHR 0x22 # r)"
  using starts_with_append_other [of interpolation_start "c # cs" "CHR 0x22" r]
  by (auto simp: raw_char_def newline_len_def interpolation_start_def split: if_splits)

lemma p_content_stop: "p_content (pos, CHR 0x22 # r) = (pos, CHR 0x22 # r)"
  by (subst p_content.simps)
     (simp add: raw_char_def escape_len_def token_def interpolation_start_def)

lemma p_content_ok:
  "content_ok v \<Longrightarrow> p_content (pos, v @ CHR 0x22 # r) = (pos + length v, CHR 0x22 # r)"
proof (induction v arbitrary: pos rule: content_ok.induct)
  case 1
  then show ?case by (simp add: p_content_stop)
next
  case (2 c cs)
  show ?case
  proof (cases "c = CHR 0x5C")
    case True
    with "2.prems" obtain d ds where cs: "cs = d # ds"
      and d: "d \<in> set (''nrt0'' @ [CHR 0x5C, CHR 0x22, CHR 0x27])" and ds: "content_ok ds"
      by (auto split: list.splits)
    have len: "escape_len (c # cs @ CHR 0x22 # r) = 2"
      using True cs d by (auto simp: escape_len_def string_escapes_def)
    have "p_content (pos, (c # cs) @ CHR 0x22 # r) = p_content (pos + 2, ds @ CHR 0x22 # r)"
      using len True cs by (subst p_content.simps) (simp add: raw_char_def advance_def)
    with "2.IH"(1) [OF True cs ds, of "pos + 2"] cs show ?thesis by simp
  next
    case False
    with "2.prems" have raw: "raw_char (c # cs)" and cs: "content_ok cs" by auto
    have "p_content (pos, (c # cs) @ CHR 0x22 # r) = p_content (pos + 1, cs @ CHR 0x22 # r)"
      using raw_char_quote [OF raw, of r] by (subst p_content.simps) (simp add: advance_def)
    with "2.IH"(2) [OF False cs, of "pos + 1"] show ?thesis by simp
  qed
qed


subsection \<open>Printing and parsing round trip\<close>

definition parses_back :: "expression \<Rightarrow> bool" where
  "parses_back e \<longleftrightarrow>
     (\<exists>s. render_value e = Some s \<and> s \<noteq> [] \<and> gap_free (hd s) \<and>
        (\<forall>pos rest. stop rest \<longrightarrow>
           (\<exists>e'. p_expression (pos, s @ rest) = Some (e', (pos + length s, rest)) \<and> erase e' = erase e)))"

lemma p_identifier_other: "\<not> ascii_alpha c \<Longrightarrow> p_identifier (pos, c # s) = None"
  by (simp add: p_identifier_def)

lemma p_function_other: "\<not> ascii_alpha c \<Longrightarrow> p_function (pos, c # s) = None"
  by (simp add: p_function.simps p_identifier_other)

lemma p_array_other: "c \<noteq> CHR ''['' \<Longrightarrow> p_array (pos, c # s) = None"
  by (simp add: p_array.simps token_miss)

lemma p_string_other: "c \<noteq> CHR 0x22 \<Longrightarrow> p_string (pos, c # s) = None"
  by (simp add: p_string.simps token_miss)

lemma p_numeric_other: "c \<noteq> CHR ''-'' \<Longrightarrow> \<not> ascii_digit c \<Longrightarrow> p_numeric (pos, c # s) = None"
  by (simp add: p_numeric_def numeric_len_def digits_len_def)

lemma p_function_ident_stop:
  assumes "ident_ok v" and "stop rest"
  shows "p_function (pos, v @ rest) = None"
  by (simp add: p_function.simps p_identifier_ok [OF assms(1) stop_not_ident [OF assms(2)]] assms(2))

lemma alpha_facts:
  assumes "ascii_alpha c"
  shows "c \<noteq> CHR ''[''" "c \<noteq> CHR 0x22" "c \<noteq> CHR ''-''" "\<not> ascii_digit c"
  using assms by (auto simp: ascii_alpha_def ascii_digit_def)

lemma digit_facts:
  assumes "c = CHR ''-'' \<or> ascii_digit c"
  shows "c \<noteq> CHR ''[''" "c \<noteq> CHR 0x22" "\<not> ascii_alpha c" "gap_free c"
  using assms by (auto simp: ascii_alpha_def ascii_digit_def gap_free_def)

lemma ident_ok_Cons: "ident_ok v \<Longrightarrow> \<exists>c cs. v = c # cs \<and> ascii_alpha c"
  by (auto simp: ident_ok_def split: list.splits)

lemma parses_back_numeric:
  assumes "v \<noteq> []" "numeric_len v = length v"
  shows "parses_back (NumericValue v sp)"
proof -
  obtain c cs where v: "v = c # cs" using assms(1) by (cases v) auto
  have c: "c = CHR ''-'' \<or> ascii_digit c" using numeric_head [OF assms] v by simp
  have "p_expression (pos, v @ rest) =
      Some (NumericValue v (span_new pos (pos + length v)), (pos + length v, rest))"
    if "stop rest" for pos rest
  proof -
    have "p_numeric (pos, v @ rest) =
        Some (NumericValue v (span_new pos (pos + length v)), (pos + length v, rest))"
      using numeric_len_append [OF assms that] assms(1) by (simp add: p_numeric_def advance_def Let_def)
    then show ?thesis
      using digit_facts [OF c] by (simp add: p_expression.simps p_array_other p_function_other v)
  qed
  then show ?thesis
    using digit_facts [OF c] v by (auto simp: parses_back_def)
qed

lemma parses_back_string:
  assumes "string_ok v"
  shows "parses_back (StringValue v sp)"
proof -
  have "\<exists>e'. p_expression (pos, render_str v @ rest) =
      Some (e', (pos + length (render_str v), rest)) \<and> erase e' = StringValue v span_empty" for pos rest
  proof -
    have sk: "skip (Suc pos, v @ CHR 0x22 # rest) = (Suc pos, v @ CHR 0x22 # rest)"
      using assms gap_len_quote [of v rest] by (auto simp: string_ok_def intro: skip_gap0)
    have q: "gap_free (CHR 0x22)" by (simp add: gap_free_def)
    have "p_string (pos, render_str v @ rest) =
        Some (StringValue v (span_new pos (pos + length v + 2)), (pos + length v + 2, rest))"
      using assms p_content_ok [of v "Suc pos" rest]
      by (simp add: p_string.simps render_str_def token_hit sk skip_free q string_ok_def)
    moreover have "\<not> ascii_alpha (CHR 0x22)" "\<not> ascii_digit (CHR 0x22)"
      by (simp_all add: ascii_alpha_def ascii_digit_def)
    ultimately show ?thesis
      by (simp add: p_expression.simps p_array_other p_function_other p_numeric_other render_str_def)
  qed
  then show ?thesis by (auto simp: parses_back_def render_str_def gap_free_def)
qed

lemma parses_back_boolean:
  assumes "v = ''true'' \<or> v = ''false''"
  shows "parses_back (BooleanValue v sp)"
proof -
  have v: "ident_ok v" "ascii_alpha (hd v)"
    using assms by (auto simp: ident_ok_def ascii_alpha_def ident_char_def)
  obtain c cs where vc: "v = c # cs" using assms by auto
  have "p_expression (pos, v @ rest) =
      Some (BooleanValue v (span_new pos (pos + length v)), (pos + length v, rest))"
    if "stop rest" for pos rest
  proof -
    have fn: "p_function (pos, v @ rest) = None"
      by (rule p_function_ident_stop [OF v(1) that])
    have "p_boolean (pos, v @ rest) =
        Some (BooleanValue v (span_new pos (pos + length v)), (pos + length v, rest))"
      using assms by (auto simp: p_boolean_def advance_def boolean_len_def eval_nat_numeral)
    with fn show ?thesis
      using alpha_facts v(2) by (simp add: p_expression.simps p_array_other p_numeric_other p_string_other vc)
  qed
  then show ?thesis
    using alpha_gap_free v(2) vc by (auto simp: parses_back_def)
qed

lemma parses_back_constant:
  assumes "ident_ok v" "\<not> starts_with ''true'' v" "\<not> starts_with ''false'' v"
  shows "parses_back (ConstantValue v sp)"
proof -
  obtain c cs where vc: "v = c # cs" and c: "ascii_alpha c" using ident_ok_Cons [OF assms(1)] by auto
  have "p_expression (pos, v @ rest) =
      Some (ConstantValue v (span_new pos (pos + length v)), (pos + length v, rest))"
    if "stop rest" for pos rest
  proof -
    have fn: "p_function (pos, v @ rest) = None"
      by (rule p_function_ident_stop [OF assms(1) that])
    have bl: "p_boolean (pos, v @ rest) = None"
      using boolean_len_append [OF assms(2,3) that] by (simp add: p_boolean_def)
    have "p_constant (pos, v @ rest) =
        Some (ConstantValue v (span_new pos (pos + length v)), (pos + length v, rest))"
      by (simp add: p_constant_def p_identifier_ok [OF assms(1) stop_not_ident [OF that]])
    with fn bl show ?thesis
      using alpha_facts [OF c] by (simp add: p_expression.simps p_array_other p_numeric_other p_string_other vc)
  qed
  then show ?thesis
    using alpha_gap_free c vc by (auto simp: parses_back_def)
qed


text \<open>The items after the first one, as \<open>join\<close> prints them.\<close>

definition more_items :: "string list \<Rightarrow> string" where
  "more_items ss = concat (map (\<lambda>s. '', '' @ s) ss)"

lemma more_items_simps [simp]:
  "more_items [] = []"
  "more_items (s # ss) = CHR '','' # CHR 0x20 # s @ more_items ss"
  by (simp_all add: more_items_def)

lemma join_Cons: "join '', '' (s # ss) = s @ more_items ss"
  by (induction ss arbitrary: s) auto

definition closer :: "string \<Rightarrow> bool" where
  "closer rest = (rest \<noteq> [] \<and> hd rest \<in> set '')]'')"

lemma closer_stop: "closer rest \<Longrightarrow> stop rest"
  by (auto simp: closer_def stop_def)

lemma stop_more_items: "closer rest \<Longrightarrow> stop (more_items ss @ rest)"
  by (cases ss) (auto simp: closer_def stop_def)

lemma p_tail_closer: "closer rest \<Longrightarrow> p_tail (pos, rest) = ([], (pos, rest))"
  by (subst p_tail.simps) (auto simp: closer_stop closer_def neq_Nil_conv token_miss)

lemma skip_head: "s \<noteq> [] \<Longrightarrow> gap_free (hd s) \<Longrightarrow> skip (pos, s @ r) = (pos, s @ r)"
  by (cases s) (simp_all add: skip_free)

lemma p_tail_ok:
  assumes "\<forall>e\<in>set es. parses_back e"
  shows "\<exists>ss. map_opt render_value es = Some ss \<and>
    (\<forall>pos rest. closer rest \<longrightarrow>
       (\<exists>es'. p_tail (pos, more_items ss @ rest) = (es', (pos + length (more_items ss), rest))
          \<and> map erase es' = map erase es))"
  using assms
proof (induction es)
  case Nil
  then show ?case by (simp add: p_tail_closer)
next
  case (Cons e es)
  then obtain ss where ss: "map_opt render_value es = Some ss"
    and tail: "\<And>pos rest. closer rest \<Longrightarrow>
       \<exists>es'. p_tail (pos, more_items ss @ rest) = (es', (pos + length (more_items ss), rest))
          \<and> map erase es' = map erase es"
    by auto
  from Cons.prems have "parses_back e" by simp
  then obtain s where s: "render_value e = Some s" "s \<noteq> []" "gap_free (hd s)"
    and one: "\<And>pos rest. stop rest \<Longrightarrow>
       \<exists>e'. p_expression (pos, s @ rest) = Some (e', (pos + length s, rest)) \<and> erase e' = erase e"
    by (auto simp: parses_back_def)
  have "\<exists>es'. p_tail (pos, more_items (s # ss) @ rest)
      = (es', (pos + length (more_items (s # ss)), rest)) \<and> map erase es' = map erase (e # es)"
    if rest: "closer rest" for pos rest
  proof -
    obtain e' where e': "p_expression (pos + 2, s @ more_items ss @ rest) =
        Some (e', (pos + 2 + length s, more_items ss @ rest))" "erase e' = erase e"
      using one [OF stop_more_items [OF rest]] by blast
    obtain es' where es': "p_tail (pos + 2 + length s, more_items ss @ rest)
        = (es', (pos + 2 + length s + length (more_items ss), rest))" "map erase es' = map erase es"
      using tail [OF rest] by blast
    have "skip (pos, CHR '','' # CHR 0x20 # s @ more_items ss @ rest) =
        (pos, CHR '','' # CHR 0x20 # s @ more_items ss @ rest)"
      by (simp add: skip_free gap_free_def)
    moreover have "skip (Suc pos, CHR 0x20 # s @ more_items ss @ rest) = (pos + 2, s @ more_items ss @ rest)"
      using s by (simp add: skip_space skip_head)
    ultimately show ?thesis
      using e' es' by (subst p_tail.simps) (simp add: token_hit shrinks_def)
  qed
  then show ?case using ss s by auto
qed

lemma parses_back_array:
  assumes "es \<noteq> []" and "\<forall>e\<in>set es. parses_back e"
  shows "parses_back (Array es sp)"
proof -
  obtain e fs where es: "es = e # fs" using assms(1) by (cases es) auto
  obtain ss where ss: "map_opt render_value fs = Some ss"
    and tail: "\<And>pos rest. closer rest \<Longrightarrow>
       \<exists>es'. p_tail (pos, more_items ss @ rest) = (es', (pos + length (more_items ss), rest))
          \<and> map erase es' = map erase fs"
    using p_tail_ok [of fs] assms(2) es by auto
  from assms(2) es have "parses_back e" by simp
  then obtain s where s: "render_value e = Some s" "s \<noteq> []" "gap_free (hd s)"
    and one: "\<And>pos rest. stop rest \<Longrightarrow>
       \<exists>e'. p_expression (pos, s @ rest) = Some (e', (pos + length s, rest)) \<and> erase e' = erase e"
    by (auto simp: parses_back_def)
  have "\<exists>e'. p_expression (pos, (''['' @ s @ more_items ss @ '']'') @ rest) =
      Some (e', (pos + length (''['' @ s @ more_items ss @ '']''), rest)) \<and> erase e' = erase (Array es sp)"
    for pos rest
  proof -
    have cl: "closer (CHR '']'' # rest)" by (simp add: closer_def)
    obtain e' where e': "p_expression (Suc pos, s @ more_items ss @ CHR '']'' # rest) =
        Some (e', (Suc pos + length s, more_items ss @ CHR '']'' # rest))" "erase e' = erase e"
      using one [OF stop_more_items [OF cl]] by blast
    obtain es' where es': "p_tail (Suc pos + length s, more_items ss @ CHR '']'' # rest)
        = (es', (Suc pos + length s + length (more_items ss), CHR '']'' # rest))"
        "map erase es' = map erase fs"
      using tail [OF cl] by blast
    show ?thesis
      using e' es' s closer_stop [OF cl]
      by (simp add: p_expression.simps p_array.simps token_hit skip_head shrinks_def es)
  qed
  then show ?thesis
    using ss s by (simp add: parses_back_def es join_Cons gap_free_def)
qed

lemma parses_back_function:
  assumes "ident_ok n" and "\<forall>e\<in>set es. parses_back e"
  shows "parses_back (Function n es sp)"
proof -
  obtain c cs where nc: "n = c # cs" and c: "ascii_alpha c" using ident_ok_Cons [OF assms(1)] by auto
  have id: "p_identifier (pos, n @ CHR ''('' # r) = Some (n, (pos + length n, CHR ''('' # r))" for pos r
    using p_identifier_ok [OF assms(1)] paren_not_ident by simp
  have sk: "skip (pos, CHR ''('' # r) = (pos, CHR ''('' # r)" for pos r
    by (simp add: skip_free gap_free_def)
  have arr: "p_array (pos, n @ r) = None" for pos r
    using alpha_facts [OF c] by (simp add: nc p_array_other)
  have cl: "closer (CHR '')'' # rest)" for rest by (simp add: closer_def)
  show ?thesis
  proof (cases es)
    case Nil
    have none: "p_expression (pos, CHR '')'' # rest) = None" for pos rest
      by (simp add: p_expression.simps p_array_other p_function_other p_string_other p_numeric_other
          p_boolean_def boolean_len_def p_constant_def p_identifier_other ascii_alpha_def ascii_digit_def)
    have "\<exists>e'. p_expression (pos, (n @ ''()'') @ rest) =
        Some (e', (pos + length (n @ ''()''), rest)) \<and> erase e' = erase (Function n es sp)" for pos rest
      using none closer_stop [OF cl]
      by (simp add: p_expression.simps arr p_function.simps id sk token_hit Nil shrinks_def)
    then show ?thesis
      using Nil nc c by (simp add: parses_back_def alpha_gap_free)
  next
    case (Cons e fs)
    obtain ss where ss: "map_opt render_value fs = Some ss"
      and tail: "\<And>pos rest. closer rest \<Longrightarrow>
         \<exists>es'. p_tail (pos, more_items ss @ rest) = (es', (pos + length (more_items ss), rest))
            \<and> map erase es' = map erase fs"
      using p_tail_ok [of fs] assms(2) Cons by auto
    from assms(2) Cons have "parses_back e" by simp
    then obtain s where s: "render_value e = Some s" "s \<noteq> []" "gap_free (hd s)"
      and one: "\<And>pos rest. stop rest \<Longrightarrow>
         \<exists>e'. p_expression (pos, s @ rest) = Some (e', (pos + length s, rest)) \<and> erase e' = erase e"
      by (auto simp: parses_back_def)
    have "\<exists>e'. p_expression (pos, (n @ ''('' @ s @ more_items ss @ '')'') @ rest) =
        Some (e', (pos + length (n @ ''('' @ s @ more_items ss @ '')''), rest))
          \<and> erase e' = erase (Function n es sp)"
      for pos rest
    proof -
      obtain e' where e': "p_expression (Suc (pos + length n), s @ more_items ss @ CHR '')'' # rest) =
          Some (e', (Suc (pos + length n) + length s, more_items ss @ CHR '')'' # rest))" "erase e' = erase e"
        using one [OF stop_more_items [OF cl]] by blast
      obtain es' where es': "p_tail (Suc (pos + length n) + length s, more_items ss @ CHR '')'' # rest)
          = (es', (Suc (pos + length n) + length s + length (more_items ss), CHR '')'' # rest))"
          "map erase es' = map erase fs"
        using tail [OF cl] by blast
      show ?thesis
        using e' es' s closer_stop [OF cl]
        by (simp add: p_expression.simps arr p_function.simps id sk token_hit skip_head shrinks_def Cons)
    qed
    then show ?thesis
      using ss s nc c Cons by (simp add: parses_back_def join_Cons alpha_gap_free)
  qed
qed

lemma wf_parses_back: "wf_expression e \<Longrightarrow> parses_back e"
proof (induction e)
  case (Function n es sp)
  then show ?case by (intro parses_back_function) (auto simp: list_all_iff)
next
  case (Array es sp)
  then show ?case by (intro parses_back_array) (auto simp: list_all_iff)
qed (auto intro: parses_back_numeric parses_back_string parses_back_boolean parses_back_constant)


lemma from_str_render:
  assumes "wf_expression e"
  obtains s e' where "render_value e = Some s" "expression_from_str s = Some e'" "erase e' = erase e"
proof -
  obtain s where s: "render_value e = Some s"
    and one: "\<And>pos rest. stop rest \<Longrightarrow>
       \<exists>e'. p_expression (pos, s @ rest) = Some (e', (pos + length s, rest)) \<and> erase e' = erase e"
    using wf_parses_back [OF assms] by (auto simp: parses_back_def)
  have "stop []" by (simp add: stop_def)
  with one [of "[]" 0] obtain e' where
    "p_expression (0, s) = Some (e', (length s, []))" "erase e' = erase e" by auto
  then show thesis using that [OF s, of e'] by (simp add: expression_from_str_def)
qed

lemma map_opt_map: "map_opt f (map g xs) = map_opt (\<lambda>x. f (g x)) xs"
  by (induction xs) auto

lemma render_value_erase [simp]: "render_value (erase e) = render_value e"
  by (induction e) (auto simp: map_opt_map cong: map_opt_cong)

lemma render_value_erase_eq: "erase e' = erase e \<Longrightarrow> render_value e' = render_value e"
  by (metis render_value_erase)

text \<open>Every successful parse consumes something, so the guards of the parser always hold.\<close>

lemma p_numeric_shrinks: "p_numeric i = Some (e, j) \<Longrightarrow> length (snd j) < length (snd i)"
  by (cases "snd i") (auto simp: p_numeric_def Let_def length_advance numeric_len_def digits_len_def
      split: if_splits)

lemma p_boolean_shrinks: "p_boolean i = Some (e, j) \<Longrightarrow> length (snd j) < length (snd i)"
  by (cases "snd i") (auto simp: p_boolean_def Let_def length_advance boolean_len_def split: if_splits)

lemma p_constant_shrinks: "p_constant i = Some (e, j) \<Longrightarrow> length (snd j) < length (snd i)"
  by (auto simp: p_constant_def dest: identifier_shrinks split: option.splits)

lemma token_skip_shrinks:
  "token t (skip i) = Some j \<Longrightarrow> t \<noteq> [] \<Longrightarrow> length (snd j) < length (snd i)"
  using token_shrinks length_skip order_less_le_trans by blast

lemma parser_shrinks:
  "p_expression i = Some (e, j) \<Longrightarrow> length (snd j) < length (snd i)"
  "p_array i = Some (e, j) \<Longrightarrow> length (snd j) < length (snd i)"
  "p_function i = Some (e, j) \<Longrightarrow> length (snd j) < length (snd i)"
  "p_string i = Some (e, j) \<Longrightarrow> length (snd j) < length (snd i)"
  "length (snd (snd (p_tail i))) \<le> length (snd i)"
  "length (snd (p_content i)) \<le> length (snd i)"
proof (induction i and i and i and i and i and i arbitrary: e j and e j and e j and e j
    rule: p_expression_p_array_p_function_p_string_p_tail_p_content.induct)
  case (1 i)
  then show ?case
    by (simp add: p_expression.simps split: option.splits)
       (auto dest: p_numeric_shrinks p_boolean_shrinks p_constant_shrinks)
next
  case (2 i)
  from "2.prems" obtain i1 e0 i2 es i3 where r: "token ''['' i = Some i1"
      "p_expression (skip i1) = Some (e0, i2)" "shrinks i2 i" "p_tail i2 = (es, i3)"
      "token '']'' (skip i3) = Some j"
    by (auto simp: p_array.simps split: option.splits if_splits prod.splits)
  from "2.IH"(2) [OF r(1,2) _ r(3)] r(4) have "length (snd i3) \<le> length (snd i2)" by simp
  with token_skip_shrinks [OF r(5)] r(3) show ?case by (simp add: shrinks_def)
next
  case (3 i)
  from "3.prems" obtain n i1 i2 where r: "p_identifier i = Some (n, i1)"
      "token ''('' (skip i1) = Some i2" "shrinks i2 i"
    by (auto simp: p_function.simps split: option.splits if_splits prod.splits)
  show ?case
  proof (cases "p_expression (skip i2)")
    case None
    with "3.prems" r have "token '')'' (skip i2) = Some j"
      by (auto simp: p_function.simps split: option.splits if_splits)
    with token_skip_shrinks r(3) show ?thesis by (fastforce simp: shrinks_def)
  next
    case (Some x)
    obtain e0 i3 where x: "x = (e0, i3)" by (cases x)
    obtain es i4 where t: "p_tail i3 = (es, i4)" by (cases "p_tail i3")
    from "3.prems" r Some x t have s: "shrinks i3 i" "token '')'' (skip i4) = Some j"
      by (auto simp: p_function.simps split: option.splits if_splits)
    from "3.IH"(2) [OF r(1) _ r(2,3) Some x [symmetric] s(1)] t have "length (snd i4) \<le> length (snd i3)" by simp
    with token_skip_shrinks [OF s(2)] s(1) show ?thesis by (simp add: shrinks_def)
  qed
next
  case (4 i)
  from "4.prems" obtain i1 where r: "token [CHR 0x22] i = Some i1"
      "token [CHR 0x22] (skip (p_content (skip i1))) = Some j"
    by (auto simp: p_string.simps Let_def split: option.splits)
  from "4.IH" [OF r(1)] have "length (snd (p_content (skip i1))) \<le> length (snd (skip i1))" by simp
  with token_skip_shrinks [OF r(2)] skip_token_shrinks [OF r(1)] show ?case by simp
next
  case (5 i)
  show ?case
  proof (cases "\<exists>i1 e0 i2. token '','' (skip i) = Some i1 \<and> p_expression (skip i1) = Some (e0, i2) \<and> shrinks i2 i")
    case True
    then obtain i1 e0 i2 where r: "token '','' (skip i) = Some i1"
      "p_expression (skip i1) = Some (e0, i2)" "shrinks i2 i" by auto
    from "5.IH"(2) [OF r(1,2) _ r(3)] r show ?thesis
      by (auto simp: p_tail.simps [of i] shrinks_def split: prod.splits)
  next
    case False
    then show ?thesis
      by (subst p_tail.simps) (auto split: option.splits)
  qed
next
  case (6 i)
  show ?case
  proof (cases "raw_char (snd i) \<or> escape_len (snd i) > 0")
    case True
    then show ?thesis
      using "6.IH"(1,2) by (subst p_content.simps) (auto simp: length_advance intro: order_trans)
  next
    case False
    show ?thesis
    proof (cases "\<exists>i1 e0 i2 i3. token interpolation_start i = Some i1 \<and> p_expression (skip i1) = Some (e0, i2)
        \<and> token [CHR 0x7D] (skip i2) = Some i3 \<and> shrinks i3 i")
      case True
      then obtain i1 e0 i2 i3 where r: "token interpolation_start i = Some i1"
        "p_expression (skip i1) = Some (e0, i2)" "token [CHR 0x7D] (skip i2) = Some i3" "shrinks i3 i"
        by auto
      from "6.IH"(4) [OF _ _ r(1,2) _ r(3,4)] False r show ?thesis
        by (simp add: p_content.simps [of i] shrinks_def)
    next
      case no: False
      with False show ?thesis
        by (subst p_content.simps) (auto split: option.splits)
    qed
  qed
qed


subsection \<open>Properties\<close>



text \<open>C12: A constant whose name begins with \<open>true\<close> is read back as the boolean \<open>true\<close>: the
  grammar tries \<open>boolean_literal\<close>, which has no word boundary, before \<open>constant_literal\<close>, and
  \<open>from_str\<close> ignores what follows the first expression. The printed constant is lost.\<close>

theorem constant_with_boolean_prefix:
  assumes "list_all ident_char cs"
  shows "render_value (ConstantValue (''true'' @ cs) span_empty) = Some (''true'' @ cs)
    \<and> expression_from_str (''true'' @ cs) = Some (BooleanValue ''true'' (span_new 0 4))"
proof -
  have id: "ident_ok (''true'' @ cs)"
    using assms by (simp add: ident_ok_def ascii_alpha_def ident_char_def)
  have "stop []" by (simp add: stop_def)
  then have fn: "p_function (0, ''true'' @ cs) = None"
    using p_function_ident_stop [OF id, of "[]" 0] by simp
  have t: "ascii_alpha (CHR ''t'')" by (simp add: ascii_alpha_def)
  have "p_boolean (0, ''true'' @ cs) = Some (BooleanValue ''true'' (span_new 0 4), advance 4 (0, ''true'' @ cs))"
    by (simp add: p_boolean_def boolean_len_def eval_nat_numeral advance_def)
  then show ?thesis
    using fn alpha_facts [OF t]
    by (simp add: expression_from_str_def p_expression.simps p_array_other p_numeric_other p_string_other)
qed

theorem constant_with_boolean_prefix_witness:
  "expression_from_str ''trueColor'' = Some (BooleanValue ''true'' (span_new 0 4))"
proof -
  have "list_all ident_char ''Color''" by code_simp
  from constant_with_boolean_prefix [OF this] show ?thesis by simp
qed

text \<open>C13: A space at the start of a string literal is lost when a printed string is read back: the
  rule \<open>string_literal\<close> is not atomic, so pest skips whitespace (and comments) between the opening
  quote and the content.\<close>

theorem string_leading_space_lost:
  assumes "string_ok v"
  shows "\<exists>e'. render_value (StringValue (CHR 0x20 # v) span_empty) = Some (render_str (CHR 0x20 # v))
    \<and> expression_from_str (render_str (CHR 0x20 # v)) = Some e' \<and> erase e' = StringValue v span_empty"
proof -
  have sk: "skip (Suc 0, CHR 0x20 # v @ [CHR 0x22]) = (2, v @ [CHR 0x22])"
    using assms gap_len_quote [of v "[]"] by (simp add: skip_space string_ok_def skip_gap0)
  have q: "gap_free (CHR 0x22)" by (simp add: gap_free_def)
  have "\<exists>sp i. p_string (0, render_str (CHR 0x20 # v)) = Some (StringValue v sp, i)"
    using assms p_content_ok [of v 2 "[]"]
    by (simp add: p_string.simps render_str_def token_hit sk skip_free q string_ok_def)
  moreover have "\<not> ascii_alpha (CHR 0x22)" "\<not> ascii_digit (CHR 0x22)"
    by (simp_all add: ascii_alpha_def ascii_digit_def)
  ultimately show ?thesis
    by (auto simp: expression_from_str_def p_expression.simps p_array_other p_function_other
        p_numeric_other render_str_def)
qed

theorem string_leading_space_lost_witness:
  "\<exists>e'. expression_from_str (render_str '' x'') = Some e' \<and> erase e' = StringValue ''x'' span_empty"
proof -
  have "string_ok ''x''" by code_simp
  from string_leading_space_lost [OF this] show ?thesis by simp
qed

end
