(* ===== verification/Steps.thy ===== *)
theory Steps
  imports Expression_Codec
begin

section \<open>Datamodel migration steps\<close>

text \<open>
  The atomic changes to a schema (\<open>migration-connector/src/steps.rs\<close>). Each struct a step wraps
  is the argument list of its constructor, in the order of the struct's fields. Argument values
  travel as text (\<open>MigrationExpression\<close>): they are printed when a step is made and parsed when it
  is applied. Both directions may panic, which is \<open>None\<close> here: printing a value of type \<open>Any\<close> is
  \<open>unimplemented!\<close>, and the parse result is unwrapped.
\<close>

type_synonym migration_expression = string

definition from_ast_expression :: "expression \<Rightarrow> migration_expression option" where
  "from_ast_expression e = render_value e"

definition to_ast_expression :: "migration_expression \<Rightarrow> expression option" where
  "to_ast_expression v = expression_from_str v"

record step_argument =
  sarg_name :: string
  sarg_value :: migration_expression

datatype directive_type =
    FieldLoc string string
  | ModelLoc string
  | EnumLoc string

record directive_location =
  loc_location :: directive_type
  loc_directive :: string
  loc_arguments :: "step_argument list option"

datatype migration_step =
    CreateModel string
  | UpdateModel string "string option"
  | DeleteModel string
  | CreateDirective directive_location
  | DeleteDirective directive_location
  | CreateDirectiveArgument directive_location string migration_expression
  | UpdateDirectiveArgument directive_location string migration_expression
  | DeleteDirectiveArgument directive_location string
  | CreateField string string string field_arity
  | DeleteField string string
  | UpdateField string string "string option" "string option" "field_arity option"
  | CreateEnum string "string list"
  | UpdateEnum string "string option" "string list" "string list"
  | DeleteEnum string

text \<open>The three \<open>is_any_option_set\<close> methods, on the fields of the struct they belong to.\<close>

definition update_model_is_any_option_set :: "string option \<Rightarrow> bool" where
  "update_model_is_any_option_set new_name = (new_name \<noteq> None)"

definition update_field_is_any_option_set ::
    "string option \<Rightarrow> string option \<Rightarrow> field_arity option \<Rightarrow> bool" where
  "update_field_is_any_option_set new_name tpe arity =
     (new_name \<noteq> None \<or> tpe \<noteq> None \<or> arity \<noteq> None)"

definition update_enum_is_any_option_set ::
    "string option \<Rightarrow> string list \<Rightarrow> string list \<Rightarrow> bool" where
  "update_enum_is_any_option_set new_name created_values deleted_values =
     (new_name \<noteq> None \<or> length created_values > 0 \<or> length deleted_values > 0)"

subsection \<open>Arguments of a step\<close>

text \<open>\<open>matches_ast_argument\<close> prints the argument only when the names agree (\<open>&&\<close>).\<close>

definition matches_ast_argument :: "step_argument \<Rightarrow> argument \<Rightarrow> bool option" where
  "matches_ast_argument sa a =
     (if sarg_name sa = aname a
      then map_option (\<lambda>v. sarg_value sa = v) (from_ast_expression (arg_value a))
      else Some False)"

definition step_argument_from :: "argument \<Rightarrow> step_argument option" where
  "step_argument_from a =
     map_option (\<lambda>v. \<lparr>sarg_name = aname a, sarg_value = v\<rparr>) (from_ast_expression (arg_value a))"

definition step_argument_into :: "step_argument \<Rightarrow> argument option" where
  "step_argument_into sa =
     map_option (\<lambda>e. \<lparr>arg_name = ident_new (sarg_name sa), arg_value = e, arg_span = span_empty\<rparr>)
       (to_ast_expression (sarg_value sa))"

definition matches_ast_directive :: "directive_location \<Rightarrow> directive \<Rightarrow> bool option" where
  "matches_ast_directive l d =
     (if loc_directive l \<noteq> dname d then Some False
      else case loc_arguments l of
        Some arguments \<Rightarrow>
          if length (dir_arguments d) \<noteq> length arguments then Some False
          else all_opt (\<lambda>a. any_opt (\<lambda>sa. matches_ast_argument sa a) arguments) (dir_arguments d)
      | None \<Rightarrow> Some True)"

subsection \<open>Values survive the trip through a step\<close>

text \<open>
  \<open>reparse\<close> is what an argument value becomes when a step carries it: printed, then parsed. On the
  expressions of the schema language it is total and changes source locations only.
\<close>

definition reparse :: "expression \<Rightarrow> expression" where
  "reparse e = the (Option.bind (from_ast_expression e) to_ast_expression)"

lemma reparse_wf:
  assumes "wf_expression e"
  obtains v where "from_ast_expression e = Some v" and "to_ast_expression v = Some (reparse e)"
    and "erase (reparse e) = erase e"
proof -
  obtain s e' where "render_value e = Some s" "expression_from_str s = Some e'" "erase e' = erase e"
    by (rule from_str_render [OF assms])
  then show thesis
    using that by (simp add: reparse_def from_ast_expression_def to_ast_expression_def)
qed

lemma from_ast_expression_erase_eq:
  "erase e = erase e' \<Longrightarrow> from_ast_expression e = from_ast_expression e'"
  unfolding from_ast_expression_def by (rule render_value_erase_eq)

lemma from_ast_expression_wf: "wf_expression e \<Longrightarrow> \<exists>v. from_ast_expression e = Some v"
  by (erule reparse_wf) blast

lemma from_ast_expression_reparse:
  "wf_expression e \<Longrightarrow> from_ast_expression (reparse e) = from_ast_expression e"
  by (erule reparse_wf) (rule from_ast_expression_erase_eq)


lemma wf_expression_erase: "wf_expression (erase e) = wf_expression e"
  by (induction e) (auto simp: list_all_iff)

lemma wf_reparse: "wf_expression e \<Longrightarrow> wf_expression (reparse e)"
  by (rule reparse_wf, assumption) (metis wf_expression_erase)

end
