(* ===== verification/Calculator.thy ===== *)
theory Calculator
  imports Steps
begin

section \<open>The datamodel calculator\<close>

text \<open>
  \<open>core/src/migration/datamodel_calculator.rs\<close>: applying migration steps to a schema. A call
  returns the changed schema or a failure: the error the code reports, one constructor per
  message, or \<open>Panic\<close> where it unwraps an absent directive or an argument value that does not
  parse. The state is passed explicitly; writing through a \<open>&mut\<close> is a \<open>modify\<close> of \<open>Ast\<close>.
\<close>

datatype calculator_error =
    EnumAlreadyExists string
  | FieldAlreadyExists string string
  | CreateFieldOnUnknownModel string
  | ModelAlreadyExists string
  | UpdateOfUnknownModel string
  | DeleteOfUnknownModel string
  | UpdateFieldOnUnknownModel string
  | UpdateOfUnknownField string string
  | DeleteFieldOnUnknownModel string
  | DeleteOfUnknownField string string
  | UpdateOfUnknownEnum string
  | DeleteOfUnknownEnum string
  | CreateDirectiveOnAbsentTarget directive_location
  | DeleteDirectiveOnAbsentTarget directive_location

datatype failure = CalculatorError calculator_error | Panic

type_synonym 'a calc = "failure + 'a"

definition new_span :: span where
  "new_span = span_empty"

definition new_ident :: "string \<Rightarrow> ident" where
  "new_ident n = \<lparr>ident_name = n, ident_span = new_span\<rparr>"

lemma ident_name_new_ident [simp]: "ident_name (new_ident n) = n"
  by (simp add: new_ident_def)

subsection \<open>Enums\<close>

definition apply_create_enum :: "string \<Rightarrow> string list \<Rightarrow> schema_ast \<Rightarrow> schema_ast calc" where
  "apply_create_enum name values dm =
     (case find_enum dm name of
        Some _ \<Rightarrow> Inl (CalculatorError (EnumAlreadyExists name))
      | None \<Rightarrow>
          Inr (dm\<lparr>tops := tops dm @ [TopEnum
            \<lparr>enum_name = new_ident name,
             enum_values = map (\<lambda>v. \<lparr>value_name = v, value_span = new_span\<rparr>) values,
             enum_directives = [], enum_documentation = None, enum_span = new_span\<rparr>]\<rparr>))"

fun apply_enum_update ::
    "'t option \<Rightarrow> (ast_enum \<Rightarrow> 't \<Rightarrow> ast_enum) \<Rightarrow> ast_enum \<Rightarrow> ast_enum" where
  "apply_enum_update (Some update) apply_fn e = apply_fn e update"
| "apply_enum_update None apply_fn e = e"

definition update_enum_name :: "ast_enum \<Rightarrow> string \<Rightarrow> ast_enum" where
  "update_enum_name e new_name = e\<lparr>enum_name := new_ident new_name\<rparr>"

definition add_enum_values :: "string list \<Rightarrow> ast_enum \<Rightarrow> ast_enum" where
  "add_enum_values added e =
     e\<lparr>enum_values := enum_values e @ map (\<lambda>v. \<lparr>value_name = v, value_span = new_span\<rparr>) added\<rparr>"

definition remove_enum_values :: "string list \<Rightarrow> ast_enum \<Rightarrow> ast_enum" where
  "remove_enum_values removed e =
     e\<lparr>enum_values := filter (\<lambda>v. find (\<lambda>r. r = value_name v) removed = None) (enum_values e)\<rparr>"

definition apply_update_enum ::
    "string \<Rightarrow> string option \<Rightarrow> string list \<Rightarrow> string list \<Rightarrow> schema_ast \<Rightarrow> schema_ast calc" where
  "apply_update_enum name new_name created deleted dm =
     and_then (ok_or (find_enum_mut dm name) (CalculatorError (UpdateOfUnknownEnum name)))
       (\<lambda>_. Inr (modify_enum name
          (\<lambda>e. remove_enum_values deleted
                 (add_enum_values created (apply_enum_update new_name update_enum_name e))) dm))"

definition apply_delete_enum :: "string \<Rightarrow> schema_ast \<Rightarrow> schema_ast calc" where
  "apply_delete_enum name dm =
     and_then (ok_or (find_enum dm name) (CalculatorError (DeleteOfUnknownEnum name)))
       (\<lambda>_. Inr (dm\<lparr>tops := filter (\<lambda>t. case t of TopEnum e \<Rightarrow> ename e \<noteq> name | _ \<Rightarrow> True) (tops dm)\<rparr>))"

subsection \<open>Models\<close>

definition apply_create_model :: "string \<Rightarrow> schema_ast \<Rightarrow> schema_ast calc" where
  "apply_create_model name dm =
     (case find_model dm name of
        Some _ \<Rightarrow> Inl (CalculatorError (ModelAlreadyExists name))
      | None \<Rightarrow>
          Inr (dm\<lparr>tops := tops dm @ [TopModel
            \<lparr>model_name = new_ident name, model_fields = [], model_directives = [],
             model_documentation = None, model_span = new_span\<rparr>]\<rparr>))"

fun apply_model_update ::
    "'t option \<Rightarrow> (ast_model \<Rightarrow> 't \<Rightarrow> ast_model) \<Rightarrow> ast_model \<Rightarrow> ast_model" where
  "apply_model_update (Some update) apply_fn m = apply_fn m update"
| "apply_model_update None apply_fn m = m"

definition update_model_name :: "ast_model \<Rightarrow> string \<Rightarrow> ast_model" where
  "update_model_name m new_name = m\<lparr>model_name := new_ident new_name\<rparr>"

definition apply_update_model :: "string \<Rightarrow> string option \<Rightarrow> schema_ast \<Rightarrow> schema_ast calc" where
  "apply_update_model name new_name dm =
     and_then (ok_or (find_model_mut dm name) (CalculatorError (UpdateOfUnknownModel name)))
       (\<lambda>_. Inr (modify_model name (apply_model_update new_name update_model_name) dm))"

definition apply_delete_model :: "string \<Rightarrow> schema_ast \<Rightarrow> schema_ast calc" where
  "apply_delete_model name dm =
     and_then (ok_or (find_model dm name) (CalculatorError (DeleteOfUnknownModel name)))
       (\<lambda>_. Inr (dm\<lparr>tops := filter (\<lambda>t. case t of TopModel m \<Rightarrow> mname m \<noteq> name | _ \<Rightarrow> True) (tops dm)\<rparr>))"

subsection \<open>Fields\<close>

definition apply_create_field ::
    "string \<Rightarrow> string \<Rightarrow> string \<Rightarrow> field_arity \<Rightarrow> schema_ast \<Rightarrow> schema_ast calc" where
  "apply_create_field model field tpe arity dm =
     (case find_field dm model field of
        Some _ \<Rightarrow> Inl (CalculatorError (FieldAlreadyExists field model))
      | None \<Rightarrow>
          and_then (ok_or (find_model_mut dm model) (CalculatorError (CreateFieldOnUnknownModel model)))
            (\<lambda>_. Inr (modify_model model (\<lambda>m. m\<lparr>model_fields := model_fields m @
               [\<lparr>field_type = new_ident tpe, field_name = new_ident field, field_arity = arity,
                 field_default_value = None, field_directives = [], field_documentation = None,
                 field_span = new_span\<rparr>]\<rparr>) dm)))"

fun apply_field_update ::
    "'t option \<Rightarrow> (ast_field \<Rightarrow> 't \<Rightarrow> ast_field) \<Rightarrow> ast_field \<Rightarrow> ast_field" where
  "apply_field_update (Some update) apply_fn f = apply_fn f update"
| "apply_field_update None apply_fn f = f"

definition update_field_arity :: "ast_field \<Rightarrow> field_arity \<Rightarrow> ast_field" where
  "update_field_arity f new_arity = f\<lparr>field_arity := new_arity\<rparr>"

definition update_field_type :: "ast_field \<Rightarrow> string \<Rightarrow> ast_field" where
  "update_field_type f new_type = f\<lparr>field_type := new_ident new_type\<rparr>"

definition update_field_name :: "ast_field \<Rightarrow> string \<Rightarrow> ast_field" where
  "update_field_name f new_name = f\<lparr>field_name := new_ident new_name\<rparr>"


definition apply_update_field ::
    "string \<Rightarrow> string \<Rightarrow> string option \<Rightarrow> string option \<Rightarrow> field_arity option
       \<Rightarrow> schema_ast \<Rightarrow> schema_ast calc" where
  "apply_update_field model field new_name tpe arity dm =
     (case find_model dm model of
        None \<Rightarrow> Inl (CalculatorError (UpdateFieldOnUnknownModel model))
      | Some _ \<Rightarrow>
          and_then (ok_or (find_field_mut dm model field) (CalculatorError (UpdateOfUnknownField field model)))
            (\<lambda>_. Inr (modify_field model field
               (\<lambda>f. apply_field_update new_name update_field_name
                      (apply_field_update tpe update_field_type
                         (apply_field_update arity update_field_arity f))) dm)))"

definition apply_delete_field :: "string \<Rightarrow> string \<Rightarrow> schema_ast \<Rightarrow> schema_ast calc" where
  "apply_delete_field model field dm =
     and_then (ok_or (find_model dm model) (CalculatorError (DeleteFieldOnUnknownModel model)))
       (\<lambda>_. and_then (ok_or (find_field dm model field) (CalculatorError (DeleteOfUnknownField field model)))
         (\<lambda>_. and_then (ok_or (find_model_mut dm model) Panic)
           (\<lambda>_. Inr (modify_model model
              (\<lambda>m. m\<lparr>model_fields := filter (\<lambda>f. fname f \<noteq> field) (model_fields m)\<rparr>) dm))))"

subsection \<open>Directives\<close>

text \<open>The list of directives a location names, and the change behind the reference to it.\<close>

fun find_directives_mut :: "directive_type \<Rightarrow> schema_ast \<Rightarrow> directive list option" where
  "find_directives_mut (FieldLoc model field) dm =
     map_option field_directives (find_field_mut dm model field)"
| "find_directives_mut (ModelLoc model) dm = map_option model_directives (find_model_mut dm model)"
| "find_directives_mut (EnumLoc enm) dm = map_option enum_directives (find_enum_mut dm enm)"

fun modify_directives ::
    "directive_type \<Rightarrow> (directive list \<Rightarrow> directive list) \<Rightarrow> schema_ast \<Rightarrow> schema_ast" where
  "modify_directives (FieldLoc model field) g dm =
     modify_field model field (\<lambda>f. f\<lparr>field_directives := g (field_directives f)\<rparr>) dm"
| "modify_directives (ModelLoc model) g dm =
     modify_model model (\<lambda>m. m\<lparr>model_directives := g (model_directives m)\<rparr>) dm"
| "modify_directives (EnumLoc enm) g dm =
     modify_enum enm (\<lambda>e. e\<lparr>enum_directives := g (enum_directives e)\<rparr>) dm"

definition find_directive_mut :: "directive_location \<Rightarrow> schema_ast \<Rightarrow> directive option" where
  "find_directive_mut l dm =
     Option.bind (find_directives_mut (loc_location l) dm) (find (\<lambda>d. dname d = loc_directive l))"

definition modify_directive ::
    "directive_location \<Rightarrow> (directive \<Rightarrow> directive) \<Rightarrow> schema_ast \<Rightarrow> schema_ast" where
  "modify_directive l g dm =
     modify_directives (loc_location l) (update_first (\<lambda>d. dname d = loc_directive l) g) dm"

definition apply_create_directive :: "directive_location \<Rightarrow> schema_ast \<Rightarrow> schema_ast calc" where
  "apply_create_directive l dm =
     and_then (ok_or (find_directives_mut (loc_location l) dm)
                (CalculatorError (CreateDirectiveOnAbsentTarget l)))
       (\<lambda>_. and_then
          (ok_or (case loc_arguments l of None \<Rightarrow> Some [] | Some args \<Rightarrow> map_opt step_argument_into args) Panic)
          (\<lambda>args. Inr (modify_directives (loc_location l) (\<lambda>ds. ds @
             [\<lparr>dir_name = new_ident (loc_directive l), dir_arguments = args, dir_span = new_span\<rparr>]) dm)))"

definition apply_delete_directive :: "directive_location \<Rightarrow> schema_ast \<Rightarrow> schema_ast calc" where
  "apply_delete_directive l dm =
     and_then (ok_or (find_directives_mut (loc_location l) dm)
                (CalculatorError (DeleteDirectiveOnAbsentTarget l)))
       (\<lambda>ds. and_then (ok_or (filter_opt (\<lambda>d. map_option Not (matches_ast_directive l d)) ds) Panic)
         (\<lambda>ds'. Inr (modify_directives (loc_location l) (\<lambda>_. ds') dm)))"

definition apply_create_directive_argument ::
    "directive_location \<Rightarrow> string \<Rightarrow> migration_expression \<Rightarrow> schema_ast \<Rightarrow> schema_ast calc" where
  "apply_create_directive_argument l name v dm =
     and_then (ok_or (find_directive_mut l dm) Panic)
       (\<lambda>_. and_then (ok_or (to_ast_expression v) Panic)
         (\<lambda>e. Inr (modify_directive l (\<lambda>d. d\<lparr>dir_arguments := dir_arguments d @
            [\<lparr>arg_name = new_ident name, arg_value = e, arg_span = new_span\<rparr>]\<rparr>) dm)))"

definition apply_update_directive_argument ::
    "directive_location \<Rightarrow> string \<Rightarrow> migration_expression \<Rightarrow> schema_ast \<Rightarrow> schema_ast calc" where
  "apply_update_directive_argument l name v dm =
     and_then (ok_or (find_directive_mut l dm) Panic)
       (\<lambda>d. and_then
          (ok_or (map_opt (\<lambda>a. if aname a = name
                               then map_option (\<lambda>e. a\<lparr>arg_value := e\<rparr>) (to_ast_expression v)
                               else Some a) (dir_arguments d)) Panic)
          (\<lambda>args. Inr (modify_directive l (\<lambda>d. d\<lparr>dir_arguments := args\<rparr>) dm)))"

definition apply_delete_directive_argument ::
    "directive_location \<Rightarrow> string \<Rightarrow> schema_ast \<Rightarrow> schema_ast calc" where
  "apply_delete_directive_argument l name dm =
     and_then (ok_or (find_directive_mut l dm) Panic)
       (\<lambda>_. Inr (modify_directive l
          (\<lambda>d. d\<lparr>dir_arguments := filter (\<lambda>a. aname a \<noteq> name) (dir_arguments d)\<rparr>) dm))"

subsection \<open>Steps and sequences of steps\<close>

fun apply_step :: "migration_step \<Rightarrow> schema_ast \<Rightarrow> schema_ast calc" where
  "apply_step (CreateEnum name values) dm = apply_create_enum name values dm"
| "apply_step (UpdateEnum name new_name created deleted) dm =
     apply_update_enum name new_name created deleted dm"
| "apply_step (DeleteEnum name) dm = apply_delete_enum name dm"
| "apply_step (CreateModel name) dm = apply_create_model name dm"
| "apply_step (UpdateModel name new_name) dm = apply_update_model name new_name dm"
| "apply_step (DeleteModel name) dm = apply_delete_model name dm"
| "apply_step (CreateField model field tpe arity) dm = apply_create_field model field tpe arity dm"
| "apply_step (UpdateField model field new_name tpe arity) dm =
     apply_update_field model field new_name tpe arity dm"
| "apply_step (DeleteField model field) dm = apply_delete_field model field dm"
| "apply_step (CreateDirective l) dm = apply_create_directive l dm"
| "apply_step (DeleteDirective l) dm = apply_delete_directive l dm"
| "apply_step (CreateDirectiveArgument l name v) dm = apply_create_directive_argument l name v dm"
| "apply_step (DeleteDirectiveArgument l name) dm = apply_delete_directive_argument l name dm"
| "apply_step (UpdateDirectiveArgument l name v) dm = apply_update_directive_argument l name v dm"

definition apply_steps :: "schema_ast \<Rightarrow> migration_step list \<Rightarrow> schema_ast calc" where
  "apply_steps dm steps = fold_result apply_step steps dm"

definition calculator_infer :: "schema_ast \<Rightarrow> migration_step list \<Rightarrow> schema_ast calc" where
  "calculator_infer current steps = apply_steps current steps"

end
