(* ===== verification/Lenses.thy ===== *)
theory Lenses
  imports Prisma_Prelude
begin

section \<open>Parts of a state and programs that change them\<close>

text \<open>
  The calculator looks a part of the schema up by name and changes it through a mutable
  reference; the differ emits sequences of steps each of which concerns one such part. The
  interface \<open>part\<close> says what it means that a run changed one part of the state and nothing else;
  \<open>lens\<close> is the stronger interface of a part with a lookup \<open>get\<close> and a functional update
  \<open>modify\<close>. \<open>emits\<close> is the contract of an emitter: it does not panic, and the emitted sequence
  runs without failure and changes the part by a given function. Its rules for sequences are
  proved once, in \<open>part\<close>.
\<close>

definition emits ::
    "('x \<Rightarrow> 's \<Rightarrow> 'e + 's) \<Rightarrow> ('s \<Rightarrow> 'a option) \<Rightarrow> (('a \<Rightarrow> 'a) \<Rightarrow> 's \<Rightarrow> 's \<Rightarrow> bool)
       \<Rightarrow> 'x list option \<Rightarrow> ('a \<Rightarrow> bool) \<Rightarrow> ('a \<Rightarrow> 'a) \<Rightarrow> bool" where
  "emits run get chg r P f \<longleftrightarrow>
     (\<exists>xs. r = Some xs \<and>
        (\<forall>s a. get s = Some a \<longrightarrow> P a \<longrightarrow> (\<exists>s'. fold_result run xs s = Inr s' \<and> chg f s s')))"

locale part =
  fixes get :: "'s \<Rightarrow> 'a option"
    and chg :: "('a \<Rightarrow> 'a) \<Rightarrow> 's \<Rightarrow> 's \<Rightarrow> bool"
  assumes chg_get: "get s = Some a \<Longrightarrow> chg f s s' \<Longrightarrow> get s' = Some (f a)"
    and chg_trans: "chg f s s' \<Longrightarrow> chg g s' s'' \<Longrightarrow> chg (\<lambda>a. g (f a)) s s''"
    and chg_refl: "chg (\<lambda>a. a) s s"
    and chg_cong: "get s = Some a \<Longrightarrow> f a = g a \<Longrightarrow> chg f s s' \<Longrightarrow> chg g s s'"
begin

lemma emits_Nil: "emits run get chg (Some []) P (\<lambda>a. a)"
  by (auto simp: emits_def chg_refl)

lemma emits_append:
  assumes r: "emits run get chg r P f" and q: "emits run get chg r' Q g"
    and PQ: "\<And>a. P a \<Longrightarrow> Q (f a)"
  shows "emits run get chg (append_opt r r') P (\<lambda>a. g (f a))"
proof -
  obtain xs ys where xs: "r = Some xs" and ys: "r' = Some ys"
    and runx: "\<And>s a. get s = Some a \<Longrightarrow> P a \<Longrightarrow> \<exists>s'. fold_result run xs s = Inr s' \<and> chg f s s'"
    and runy: "\<And>s a. get s = Some a \<Longrightarrow> Q a \<Longrightarrow> \<exists>s'. fold_result run ys s = Inr s' \<and> chg g s s'"
    using r q by (auto simp: emits_def)
  have "\<exists>s'. fold_result run (xs @ ys) s = Inr s' \<and> chg (\<lambda>a. g (f a)) s s'"
    if "get s = Some a" "P a" for s a
  proof -
    from runx [OF that] obtain s1 where s1: "fold_result run xs s = Inr s1" "chg f s s1" by blast
    from runy [OF chg_get [OF that(1) s1(2)] PQ [OF that(2)]]
    obtain s2 where "fold_result run ys s1 = Inr s2" "chg g s1 s2" by blast
    with s1 show ?thesis by (auto simp: fold_result_append intro: chg_trans)
  qed
  with xs ys show ?thesis by (auto simp: emits_def)
qed

lemma emits_weaken:
  assumes "emits run get chg r P f" and "\<And>a. Q a \<Longrightarrow> P a" and "\<And>a. Q a \<Longrightarrow> f a = g a"
  shows "emits run get chg r Q g"
proof -
  obtain xs where xs: "r = Some xs"
    and run: "\<And>s a. get s = Some a \<Longrightarrow> P a \<Longrightarrow> \<exists>s'. fold_result run xs s = Inr s' \<and> chg f s s'"
    using assms(1) by (auto simp: emits_def)
  have "\<exists>s'. fold_result run xs s = Inr s' \<and> chg g s s'" if "get s = Some a" "Q a" for s a
    using run [OF that(1) assms(2) [OF that(2)]] chg_cong [of s a f g] that assms(3) by blast
  with xs show ?thesis by (auto simp: emits_def)
qed

text \<open>
  Emitters for the elements of a list, one after the other: \<open>I xs a\<close> is what holds of the part
  when the elements \<open>xs\<close> are still to come.
\<close>

lemma emits_concat_map:
  assumes "\<And>x ys. x \<in> set xs \<Longrightarrow> emits run get chg (r x) (I (x # ys)) (act x)"
    and "\<And>x ys a. x \<in> set xs \<Longrightarrow> I (x # ys) a \<Longrightarrow> I ys (act x a)"
  shows "emits run get chg (concat_map_opt r xs) (I xs) (fold act xs)"
  using assms
proof (induction xs)
  case Nil
  then show ?case by (simp add: emits_Nil id_def)
next
  case (Cons x xs)
  have "emits run get chg (concat_map_opt r xs) (I xs) (fold act xs)"
    using Cons.prems by (intro Cons.IH) simp_all
  from emits_append [OF Cons.prems(1) this Cons.prems(2), of x xs]
  show ?case by (simp add: concat_map_opt_Cons o_def)
qed

end

locale lens =
  fixes get :: "'s \<Rightarrow> 'a option"
    and modify :: "('a \<Rightarrow> 'a) \<Rightarrow> 's \<Rightarrow> 's"
  assumes get_modify: "get s = Some a \<Longrightarrow> get (modify f s) = Some (f a)"
    and modify_modify: "modify g (modify f s) = modify (\<lambda>a. g (f a)) s"
    and modify_id: "modify (\<lambda>a. a) s = s"
    and modify_cong: "get s = Some a \<Longrightarrow> f a = g a \<Longrightarrow> modify f s = modify g s"

sublocale lens \<subseteq> part get "\<lambda>f s s'. s' = modify f s"
proof (unfold_locales, goal_cases)
  case (4 s a f g s')
  then show ?case using modify_cong [of s a f g] by simp
qed (simp_all add: get_modify modify_modify modify_id)

abbreviation emits_lens where
  "emits_lens run get modify \<equiv> emits run get (\<lambda>f s s'. s' = modify f s)"

subsection \<open>Building lenses\<close>

text \<open>The whole state; the second component of a part; the element of a list a predicate selects.\<close>

lemma lens_total:
  assumes "\<And>s b. pr (put s b) = b" and "\<And>s b c. put (put s b) c = put s c" and "\<And>s. put s (pr s) = s"
  shows "lens (\<lambda>s. Some (pr s)) (\<lambda>f s. put s (f (pr s)))"
  by unfold_locales (simp_all add: assms)

lemma lens_component:
  assumes "lens get modify"
    and "\<And>s b. pr (put s b) = b" and "\<And>s b c. put (put s b) c = put s c" and "\<And>s. put s (pr s) = s"
  shows "lens (\<lambda>s. map_option pr (get s)) (\<lambda>f. modify (\<lambda>a. put a (f (pr a))))"
proof -
  from assms(1) have l: "lens get modify" .
  show ?thesis
  proof (unfold_locales, goal_cases)
    case (1 s a f)
    then obtain b where "get s = Some b" "a = pr b" by auto
    then show ?case by (simp add: lens.get_modify [OF l] assms)
  next
    case (4 s a f g)
    then obtain b where "get s = Some b" "a = pr b" by auto
    with 4 show ?case by (intro lens.modify_cong [OF l, of s b]) simp_all
  qed (simp_all add: lens.modify_modify [OF l] lens.modify_id [OF l] assms)
qed

lemma lens_element:
  assumes l: "lens get modify"
    and p: "\<And>x b. p x \<Longrightarrow> p (put x b)"
    and pr: "\<And>x b. p x \<Longrightarrow> pr (put x b) = b" "\<And>x b c. p x \<Longrightarrow> put (put x b) c = put x c"
      "\<And>x. p x \<Longrightarrow> put x (pr x) = x"
  shows "lens (\<lambda>s. Option.bind (get s) (\<lambda>xs. map_option pr (find p xs)))
           (\<lambda>f. modify (update_first p (\<lambda>x. put x (f (pr x)))))"
proof (unfold_locales, goal_cases)
  case (1 s a f)
  then obtain xs x where "get s = Some xs" "find p xs = Some x" "a = pr x"
    by (auto simp: bind_eq_Some_conv)
  moreover from this have "p x" by (blast dest: find_Some_mem)
  ultimately show ?case
    by (simp add: lens.get_modify [OF l] find_update_first p pr)
next
  case (2 g f s)
  have "update_first p (\<lambda>x. put x (g (pr x))) (update_first p (\<lambda>x. put x (f (pr x))) xs) =
      update_first p (\<lambda>x. put x (g (f (pr x)))) xs" for xs
    by (induction xs) (simp_all add: p pr)
  then show ?case by (simp add: lens.modify_modify [OF l])
next
  case (3 s)
  have "update_first p (\<lambda>x. put x (pr x)) = (\<lambda>xs. xs)"
    by (rule ext, rule update_first_id) (rule pr)
  then show ?case by (simp add: lens.modify_id [OF l])
next
  case (4 s a f g)
  then obtain xs x where s: "get s = Some xs" and x: "find p xs = Some x" "f (pr x) = g (pr x)"
    by (auto simp: bind_eq_Some_conv)
  from x have "update_first p (\<lambda>x. put x (f (pr x))) xs = update_first p (\<lambda>x. put x (g (pr x))) xs"
    by (induction xs) (auto split: if_splits)
  with s show ?case by (rule lens.modify_cong [OF l])
qed


text \<open>An emitter for a component or an element is an emitter for the whole.\<close>

lemma emits_component:
  assumes "emits_lens run (\<lambda>s. map_option pr (get s)) (\<lambda>f. modify (\<lambda>a. put a (f (pr a)))) r P f"
  shows "emits_lens run get modify r (\<lambda>a. P (pr a)) (\<lambda>a. put a (f (pr a)))"
  using assms by (auto simp: emits_def)

lemma emits_element:
  assumes "emits_lens run (\<lambda>s. Option.bind (get s) (\<lambda>xs. map_option pr (find p xs)))
      (\<lambda>f. modify (update_first p (\<lambda>x. put x (f (pr x))))) r P f"
  shows "emits_lens run get modify r (\<lambda>xs. \<exists>x. find p xs = Some x \<and> P (pr x))
      (update_first p (\<lambda>x. put x (f (pr x))))"
  using assms by (fastforce simp: emits_def)

end
