(* ===== verification/Schema_Parts.thy ===== *)
theory Schema_Parts
  imports Calculator Lenses
begin

section \<open>The parts of a schema that steps change\<close>

text \<open>
  The parts of a schema the calculator reaches through mutable references, each an instance of
  the interface \<open>lens\<close>: the values and directives of an enum, the fields and directives of a
  model, the type, arity and directives of a field, the directives at a location, the arguments
  of a directive; and, as instances of the weaker interface \<open>part\<close>, the lists of all enums and of
  all models.
\<close>

subsection \<open>Enums\<close>

definition enum_part :: "ast_enum \<Rightarrow> enum_value list \<times> directive list" where
  "enum_part e = (enum_values e, enum_directives e)"

definition put_enum_part :: "ast_enum \<Rightarrow> enum_value list \<times> directive list \<Rightarrow> ast_enum" where
  "put_enum_part e b = e\<lparr>enum_values := fst b, enum_directives := snd b\<rparr>"

definition enum_get :: "string \<Rightarrow> schema_ast \<Rightarrow> (enum_value list \<times> directive list) option" where
  "enum_get n s = map_option enum_part (find_enum s n)"

definition enum_modify ::
    "string \<Rightarrow> (enum_value list \<times> directive list \<Rightarrow> enum_value list \<times> directive list)
       \<Rightarrow> schema_ast \<Rightarrow> schema_ast" where
  "enum_modify n f s = modify_enum n (\<lambda>e. put_enum_part e (f (enum_part e))) s"

subsection \<open>Models\<close>

definition model_part :: "ast_model \<Rightarrow> ast_field list \<times> directive list" where
  "model_part m = (model_fields m, model_directives m)"

definition put_model_part :: "ast_model \<Rightarrow> ast_field list \<times> directive list \<Rightarrow> ast_model" where
  "put_model_part m b = m\<lparr>model_fields := fst b, model_directives := snd b\<rparr>"

definition model_get :: "string \<Rightarrow> schema_ast \<Rightarrow> (ast_field list \<times> directive list) option" where
  "model_get n s = map_option model_part (find_model s n)"

definition model_modify ::
    "string \<Rightarrow> (ast_field list \<times> directive list \<Rightarrow> ast_field list \<times> directive list)
       \<Rightarrow> schema_ast \<Rightarrow> schema_ast" where
  "model_modify n f s = modify_model n (\<lambda>m. put_model_part m (f (model_part m))) s"

subsection \<open>Elements of the list of top-level entries\<close>

lemma lens_tops: "lens (\<lambda>s. Some (tops s)) (\<lambda>f s. s\<lparr>tops := f (tops s)\<rparr>)"
  by (rule lens_total) simp_all

lemma find_enum_tops: "find_enum s n = Option.bind (find (is_enum_named n) (tops s)) as_enum"
  by (simp add: find_enum_mut_eq [symmetric] find_enum_mut_def)

lemma find_model_tops: "find_model s n = Option.bind (find (is_model_named n) (tops s)) as_model"
  by (simp add: find_model_mut_eq [symmetric] find_model_mut_def)

lemma is_named_simps [simp]:
  "is_enum_named n (TopEnum e) \<longleftrightarrow> ename e = n"
  "is_model_named n (TopModel m) \<longleftrightarrow> mname m = n"
  by (simp_all add: is_enum_named_def is_model_named_def)

lemma is_enum_namedE:
  assumes "is_enum_named n t" obtains e where "t = TopEnum e" "ename e = n"
  using assms by (cases t) (auto simp: is_enum_named_def)

lemma is_model_namedE:
  assumes "is_model_named n t" obtains m where "t = TopModel m" "mname m = n"
  using assms by (cases t) (auto simp: is_model_named_def)

lemma find_is_enum_named:
  "find (is_enum_named n) ts = Some t \<Longrightarrow> \<exists>e. t = TopEnum e \<and> ename e = n"
  by (blast dest: find_Some_mem elim: is_enum_namedE)

lemma find_is_model_named:
  "find (is_model_named n) ts = Some t \<Longrightarrow> \<exists>m. t = TopModel m \<and> mname m = n"
  by (blast dest: find_Some_mem elim: is_model_namedE)

interpretation enum_lens: lens "enum_get n" "enum_modify n" for n
proof -
  let ?pr = "\<lambda>t. case t of TopEnum e \<Rightarrow> enum_part e | _ \<Rightarrow> undefined"
  let ?put = "\<lambda>t b. map_enum (\<lambda>e. put_enum_part e b) t"
  have "lens (\<lambda>s. Option.bind (Some (tops s)) (\<lambda>ts. map_option ?pr (find (is_enum_named n) ts)))
      (\<lambda>f s. s\<lparr>tops := update_first (is_enum_named n) (\<lambda>t. ?put t (f (?pr t))) (tops s)\<rparr>)"
    by (rule lens_element [OF lens_tops])
       (auto elim!: is_enum_namedE simp: enum_part_def put_enum_part_def)
  moreover have "enum_get n =
      (\<lambda>s. Option.bind (Some (tops s)) (\<lambda>ts. map_option ?pr (find (is_enum_named n) ts)))"
    by (rule ext, rename_tac s, case_tac "find (is_enum_named n) (tops s)")
       (auto simp: enum_get_def find_enum_tops dest: find_is_enum_named)
  moreover have "enum_modify n =
      (\<lambda>f s. s\<lparr>tops := update_first (is_enum_named n) (\<lambda>t. ?put t (f (?pr t))) (tops s)\<rparr>)"
    unfolding enum_modify_def modify_enum_def
    by (intro ext arg_cong2 [where f = "\<lambda>s ts. s\<lparr>tops := ts\<rparr>"] refl update_first_cong)
       (auto elim!: is_enum_namedE)
  ultimately show "lens (enum_get n) (enum_modify n)" by simp
qed

interpretation model_lens: lens "model_get n" "model_modify n" for n
proof -
  let ?pr = "\<lambda>t. case t of TopModel m \<Rightarrow> model_part m | _ \<Rightarrow> undefined"
  let ?put = "\<lambda>t b. map_model (\<lambda>m. put_model_part m b) t"
  have "lens (\<lambda>s. Option.bind (Some (tops s)) (\<lambda>ts. map_option ?pr (find (is_model_named n) ts)))
      (\<lambda>f s. s\<lparr>tops := update_first (is_model_named n) (\<lambda>t. ?put t (f (?pr t))) (tops s)\<rparr>)"
    by (rule lens_element [OF lens_tops])
       (auto elim!: is_model_namedE simp: model_part_def put_model_part_def)
  moreover have "model_get n =
      (\<lambda>s. Option.bind (Some (tops s)) (\<lambda>ts. map_option ?pr (find (is_model_named n) ts)))"
    by (rule ext, rename_tac s, case_tac "find (is_model_named n) (tops s)")
       (auto simp: model_get_def find_model_tops dest: find_is_model_named)
  moreover have "model_modify n =
      (\<lambda>f s. s\<lparr>tops := update_first (is_model_named n) (\<lambda>t. ?put t (f (?pr t))) (tops s)\<rparr>)"
    unfolding model_modify_def modify_model_def
    by (intro ext arg_cong2 [where f = "\<lambda>s ts. s\<lparr>tops := ts\<rparr>"] refl update_first_cong)
       (auto elim!: is_model_namedE)
  ultimately show "lens (model_get n) (model_modify n)" by simp
qed


subsection \<open>Fields\<close>

definition fields_get :: "string \<Rightarrow> schema_ast \<Rightarrow> ast_field list option" where
  "fields_get m s = map_option fst (model_get m s)"

definition fields_modify ::
    "string \<Rightarrow> (ast_field list \<Rightarrow> ast_field list) \<Rightarrow> schema_ast \<Rightarrow> schema_ast" where
  "fields_modify m f = model_modify m (\<lambda>b. (f (fst b), snd b))"

definition field_part :: "ast_field \<Rightarrow> ident \<times> field_arity \<times> directive list" where
  "field_part f = (field_type f, field_arity f, field_directives f)"

definition put_field_part :: "ast_field \<Rightarrow> ident \<times> field_arity \<times> directive list \<Rightarrow> ast_field" where
  "put_field_part f b =
     f\<lparr>field_type := fst b, field_arity := fst (snd b), field_directives := snd (snd b)\<rparr>"

definition field_get ::
    "string \<Rightarrow> string \<Rightarrow> schema_ast \<Rightarrow> (ident \<times> field_arity \<times> directive list) option" where
  "field_get m f s =
     Option.bind (fields_get m s) (\<lambda>fs. map_option field_part (find (\<lambda>x. fname x = f) fs))"

definition field_modify ::
    "string \<Rightarrow> string
       \<Rightarrow> (ident \<times> field_arity \<times> directive list \<Rightarrow> ident \<times> field_arity \<times> directive list)
       \<Rightarrow> schema_ast \<Rightarrow> schema_ast" where
  "field_modify m f g =
     fields_modify m (update_first (\<lambda>x. fname x = f) (\<lambda>x. put_field_part x (g (field_part x))))"

interpretation fields_lens: lens "fields_get m" "fields_modify m" for m
  unfolding fields_get_def fields_modify_def
  by (rule lens_component [OF model_lens.lens_axioms, where put = "\<lambda>b x. (x, snd b)"]) simp_all

interpretation field_lens: lens "field_get m f" "field_modify m f" for m f
  unfolding field_get_def field_modify_def
  by (rule lens_element [OF fields_lens.lens_axioms]) (simp_all add: field_part_def put_field_part_def)

subsection \<open>Directives and their arguments\<close>

lemma modify_directives_enum:
  "modify_directives (EnumLoc n) = (\<lambda>g. enum_modify n (\<lambda>b. (fst b, g (snd b))))"
  by (intro ext) (simp add: enum_modify_def enum_part_def put_enum_part_def)

lemma modify_directives_model:
  "modify_directives (ModelLoc n) = (\<lambda>g. model_modify n (\<lambda>b. (fst b, g (snd b))))"
  by (intro ext) (simp add: model_modify_def model_part_def put_model_part_def)

lemma modify_directives_field:
  "modify_directives (FieldLoc m f) =
     (\<lambda>g. field_modify m f (\<lambda>b. (fst b, fst (snd b), g (snd (snd b)))))"
  by (intro ext)
     (simp add: modify_field_def field_modify_def fields_modify_def model_modify_def model_part_def
       put_model_part_def field_part_def put_field_part_def)

lemma find_directives_enum: "find_directives_mut (EnumLoc n) = (\<lambda>s. map_option snd (enum_get n s))"
  by (intro ext) (simp add: enum_get_def enum_part_def find_mut_eq option.map_comp o_def)

lemma find_directives_model: "find_directives_mut (ModelLoc n) = (\<lambda>s. map_option snd (model_get n s))"
  by (intro ext) (simp add: model_get_def model_part_def find_mut_eq option.map_comp o_def)

lemma find_directives_field:
  "find_directives_mut (FieldLoc m f) = (\<lambda>s. map_option (\<lambda>b. snd (snd b)) (field_get m f s))"
  by (intro ext, rename_tac s, case_tac "find_model s m")
     (simp_all add: field_get_def fields_get_def model_get_def model_part_def field_part_def
       find_mut_eq find_field_def option.map_comp o_def)

lemmas modify_directives_parts =
  modify_directives_enum modify_directives_model modify_directives_field

lemmas find_directives_parts =
  find_directives_enum find_directives_model find_directives_field

lemma lens_directives: "lens (find_directives_mut loc) (modify_directives loc)"
proof (cases loc)
  case (FieldLoc m f)
  show ?thesis
    unfolding FieldLoc find_directives_parts modify_directives_parts
    by (rule lens_component [OF field_lens.lens_axioms, where put = "\<lambda>b x. (fst b, fst (snd b), x)"])
      simp_all
next
  case (ModelLoc m)
  show ?thesis
    unfolding ModelLoc find_directives_parts modify_directives_parts
    by (rule lens_component [OF model_lens.lens_axioms, where put = "\<lambda>b x. (fst b, x)"]) simp_all
next
  case (EnumLoc n)
  show ?thesis
    unfolding EnumLoc find_directives_parts modify_directives_parts
    by (rule lens_component [OF enum_lens.lens_axioms, where put = "\<lambda>b x. (fst b, x)"]) simp_all
qed

interpretation directives_lens: lens "find_directives_mut loc" "modify_directives loc" for loc
  by (rule lens_directives)

definition args_get :: "directive_location \<Rightarrow> schema_ast \<Rightarrow> argument list option" where
  "args_get l s = map_option dir_arguments (find_directive_mut l s)"

definition args_modify ::
    "directive_location \<Rightarrow> (argument list \<Rightarrow> argument list) \<Rightarrow> schema_ast \<Rightarrow> schema_ast" where
  "args_modify l f = modify_directive l (\<lambda>d. d\<lparr>dir_arguments := f (dir_arguments d)\<rparr>)"

lemma args_get_bind:
  "args_get l = (\<lambda>s. Option.bind (find_directives_mut (loc_location l) s)
     (\<lambda>ds. map_option dir_arguments (find (\<lambda>d. dname d = loc_directive l) ds)))"
  by (intro ext, rename_tac s, case_tac "find_directives_mut (loc_location l) s")
     (simp_all add: args_get_def find_directive_mut_def)

lemma args_modify_first:
  "args_modify l = (\<lambda>f. modify_directives (loc_location l)
     (update_first (\<lambda>d. dname d = loc_directive l) (\<lambda>d. d\<lparr>dir_arguments := f (dir_arguments d)\<rparr>)))"
  by (intro ext) (simp add: args_modify_def modify_directive_def)

interpretation args_lens: lens "args_get l" "args_modify l" for l
  unfolding args_get_bind args_modify_first
  by (rule lens_element [OF directives_lens.lens_axioms,
        where put = "\<lambda>d as. d\<lparr>dir_arguments := as\<rparr>"]) simp_all


subsection \<open>The lists of enums and of models\<close>

definition enums_changed :: "(ast_enum list \<Rightarrow> ast_enum list) \<Rightarrow> schema_ast \<Rightarrow> schema_ast \<Rightarrow> bool" where
  "enums_changed f s s' \<longleftrightarrow> enums s' = f (enums s) \<and>
     filter (\<lambda>t. as_enum t = None) (tops s') = filter (\<lambda>t. as_enum t = None) (tops s)"

definition models_changed :: "(ast_model list \<Rightarrow> ast_model list) \<Rightarrow> schema_ast \<Rightarrow> schema_ast \<Rightarrow> bool" where
  "models_changed f s s' \<longleftrightarrow> models s' = f (models s) \<and>
     filter (\<lambda>t. as_model t = None) (tops s') = filter (\<lambda>t. as_model t = None) (tops s)"

interpretation enums_part: part "\<lambda>s. Some (enums s)" enums_changed
  by unfold_locales (auto simp: enums_changed_def)

interpretation models_part: part "\<lambda>s. Some (models s)" models_changed
  by unfold_locales (auto simp: models_changed_def)

text \<open>A change of one kind of entry keeps the entries of every other kind.\<close>

lemma map_filter_filter:
  "(\<And>x. \<not> q x \<Longrightarrow> g x = None) \<Longrightarrow> List.map_filter g (filter q xs) = List.map_filter g xs"
  by (induction xs) (auto simp: List.map_filter_simps split: option.split)

lemma map_filter_frame:
  assumes "filter q ts' = filter q ts" and "\<And>t. \<not> q t \<Longrightarrow> g t = None"
  shows "List.map_filter g ts' = List.map_filter g ts"
proof -
  have "List.map_filter g (filter q us) = List.map_filter g us" for us
    by (rule map_filter_filter) (rule assms(2))
  from this [of ts'] this [of ts] assms(1) show ?thesis by simp
qed

lemma not_enum_entry:
  "as_enum t \<noteq> None \<Longrightarrow> as_model t = None \<and> as_type t = None \<and> as_source t = None \<and> as_generator t = None"
  by (cases t) auto

lemma not_model_entry:
  "as_model t \<noteq> None \<Longrightarrow> as_enum t = None \<and> as_type t = None \<and> as_source t = None \<and> as_generator t = None"
  by (cases t) auto

lemma enums_changed_frame:
  assumes "enums_changed f s s'"
  shows "models s' = models s" "types s' = types s" "sources s' = sources s" "generators s' = generators s"
proof -
  have f: "filter (\<lambda>t. as_enum t = None) (tops s') = filter (\<lambda>t. as_enum t = None) (tops s)"
    using assms by (simp add: enums_changed_def)
  show "models s' = models s" "types s' = types s" "sources s' = sources s" "generators s' = generators s"
    unfolding models_def types_def sources_def generators_def
    by (rule map_filter_frame [OF f], use not_enum_entry in blast)+
qed

lemma models_changed_frame:
  assumes "models_changed f s s'"
  shows "enums s' = enums s" "types s' = types s" "sources s' = sources s" "generators s' = generators s"
proof -
  have f: "filter (\<lambda>t. as_model t = None) (tops s') = filter (\<lambda>t. as_model t = None) (tops s)"
    using assms by (simp add: models_changed_def)
  show "enums s' = enums s" "types s' = types s" "sources s' = sources s" "generators s' = generators s"
    unfolding enums_def types_def sources_def generators_def
    by (rule map_filter_frame [OF f], use not_model_entry in blast)+
qed

lemma map_filter_update_first_enum:
  "List.map_filter as_enum (update_first (is_enum_named n) (map_enum f) ts) =
     update_first (\<lambda>e. ename e = n) f (List.map_filter as_enum ts)"
proof (induction ts)
  case (Cons t ts)
  then show ?case by (cases t) (auto simp: is_enum_named_def List.map_filter_simps)
qed (simp add: List.map_filter_simps)

lemma map_filter_update_first_model:
  "List.map_filter as_model (update_first (is_model_named n) (map_model f) ts) =
     update_first (\<lambda>m. mname m = n) f (List.map_filter as_model ts)"
proof (induction ts)
  case (Cons t ts)
  then show ?case by (cases t) (auto simp: is_model_named_def List.map_filter_simps)
qed (simp add: List.map_filter_simps)

lemma modify_enum_changed:
  "enums_changed (update_first (\<lambda>e. ename e = n) f) s (modify_enum n f s)"
  by (simp add: enums_changed_def modify_enum_def enums_def map_filter_update_first_enum)
     (rule filter_update_first_other, auto elim!: is_enum_namedE)

lemma modify_model_changed:
  "models_changed (update_first (\<lambda>m. mname m = n) f) s (modify_model n f s)"
  by (simp add: models_changed_def modify_model_def models_def map_filter_update_first_model)
     (rule filter_update_first_other, auto elim!: is_model_namedE)

text \<open>An emitter for one enum or model is an emitter for the list of all of them.\<close>

lemma emits_enums:
  assumes "emits_lens run (enum_get n) (enum_modify n) r P f"
  shows "emits run (\<lambda>s. Some (enums s)) enums_changed r
    (\<lambda>es. \<exists>e. find (\<lambda>e. ename e = n) es = Some e \<and> P (enum_part e))
    (update_first (\<lambda>e. ename e = n) (\<lambda>e. put_enum_part e (f (enum_part e))))"
proof -
  obtain xs where xs: "r = Some xs" and run: "\<And>s b. enum_get n s = Some b \<Longrightarrow> P b \<Longrightarrow>
      fold_result run xs s = Inr (modify_enum n (\<lambda>e. put_enum_part e (f (enum_part e))) s)"
    using assms by (auto simp: emits_def enum_modify_def)
  show ?thesis
    unfolding emits_def
  proof (intro exI [of _ xs] conjI xs allI impI, elim exE conjE)
    fix s es e
    assume "Some (enums s) = Some es" "find (\<lambda>e. ename e = n) es = Some e" "P (enum_part e)"
    then have "fold_result run xs s = Inr (modify_enum n (\<lambda>e. put_enum_part e (f (enum_part e))) s)"
      by (intro run [of s "enum_part e"]) (simp_all add: enum_get_def find_enum_def)
    then show "\<exists>s'. fold_result run xs s = Inr s' \<and>
        enums_changed (update_first (\<lambda>e. ename e = n) (\<lambda>e. put_enum_part e (f (enum_part e)))) s s'"
      using modify_enum_changed by blast
  qed
qed

lemma emits_models:
  assumes "emits_lens run (model_get n) (model_modify n) r P f"
  shows "emits run (\<lambda>s. Some (models s)) models_changed r
    (\<lambda>ms. \<exists>m. find (\<lambda>m. mname m = n) ms = Some m \<and> P (model_part m))
    (update_first (\<lambda>m. mname m = n) (\<lambda>m. put_model_part m (f (model_part m))))"
proof -
  obtain xs where xs: "r = Some xs" and run: "\<And>s b. model_get n s = Some b \<Longrightarrow> P b \<Longrightarrow>
      fold_result run xs s = Inr (modify_model n (\<lambda>m. put_model_part m (f (model_part m))) s)"
    using assms by (auto simp: emits_def model_modify_def)
  show ?thesis
    unfolding emits_def
  proof (intro exI [of _ xs] conjI xs allI impI, elim exE conjE)
    fix s ms m
    assume "Some (models s) = Some ms" "find (\<lambda>m. mname m = n) ms = Some m" "P (model_part m)"
    then have "fold_result run xs s = Inr (modify_model n (\<lambda>m. put_model_part m (f (model_part m))) s)"
      by (intro run [of s "model_part m"]) (simp_all add: model_get_def find_model_def)
    then show "\<exists>s'. fold_result run xs s = Inr s' \<and>
        models_changed (update_first (\<lambda>m. mname m = n) (\<lambda>m. put_model_part m (f (model_part m)))) s s'"
      using modify_model_changed by blast
  qed
qed

end
