(* ===== verification/Differ.thy ===== *)
theory Differ
  imports Steps
begin

section \<open>The datamodel differ\<close>

text \<open>
  \<open>core/src/migration/datamodel_differ.rs\<close> and its submodules: the migration steps that lead from
  one schema to another. The differs (\<open>TopDiffer\<close>, \<open>EnumDiffer\<close>, \<open>ModelDiffer\<close>, \<open>FieldDiffer\<close>,
  \<open>DirectiveDiffer\<close>) hold a previous and a next node; their iterators are functions of the two
  nodes. A \<open>push_..\<close> function that appends to the step list returns the appended steps, and is
  option-valued where it prints an argument, which may panic.
\<close>

subsection \<open>Directives\<close>

definition directives_match :: "directive \<Rightarrow> directive \<Rightarrow> bool" where
  "directives_match previous next = (dname previous = dname next)"

definition arguments_match :: "argument \<Rightarrow> argument \<Rightarrow> bool" where
  "arguments_match previous next = (aname previous = aname next)"

definition deleted_arguments :: "directive \<Rightarrow> directive \<Rightarrow> argument list" where
  "deleted_arguments previous next =
     filter (\<lambda>p. find (\<lambda>n. arguments_match p n) (dir_arguments next) = None) (dir_arguments previous)"

definition created_arguments :: "directive \<Rightarrow> directive \<Rightarrow> argument list" where
  "created_arguments previous next =
     filter (\<lambda>n. find (\<lambda>p. arguments_match p n) (dir_arguments previous) = None) (dir_arguments next)"

definition argument_pairs :: "directive \<Rightarrow> directive \<Rightarrow> (argument \<times> argument) list" where
  "argument_pairs previous next =
     List.map_filter (\<lambda>p. map_option (Pair p) (find (\<lambda>n. arguments_match p n) (dir_arguments next)))
       (dir_arguments previous)"

definition arguments_are_identical :: "argument \<Rightarrow> argument \<Rightarrow> bool option" where
  "arguments_are_identical previous next =
     (if aname previous = aname next
      then Option.bind (from_ast_expression (arg_value previous))
             (\<lambda>p. map_option (\<lambda>n. p = n) (from_ast_expression (arg_value next)))
      else Some False)"

definition directives_are_identical :: "directive \<Rightarrow> directive \<Rightarrow> bool option" where
  "directives_are_identical previous next =
     (if dname previous \<noteq> dname next then Some False
      else if length (dir_arguments previous) \<noteq> length (dir_arguments next) then Some False
      else all_opt (\<lambda>p. any_opt (\<lambda>n. arguments_are_identical p n) (dir_arguments next))
             (dir_arguments previous))"

subsection \<open>Fields\<close>

definition field_created_directives :: "ast_field \<Rightarrow> ast_field \<Rightarrow> directive list" where
  "field_created_directives previous next =
     filter (\<lambda>n. find (\<lambda>p. directives_match p n) (field_directives previous) = None)
       (field_directives next)"

definition field_deleted_directives :: "ast_field \<Rightarrow> ast_field \<Rightarrow> directive list" where
  "field_deleted_directives previous next =
     filter (\<lambda>p. find (\<lambda>n. directives_match p n) (field_directives next) = None)
       (field_directives previous)"

definition field_directive_pairs :: "ast_field \<Rightarrow> ast_field \<Rightarrow> (directive \<times> directive) list" where
  "field_directive_pairs previous next =
     List.map_filter (\<lambda>p. map_option (Pair p) (find (\<lambda>n. directives_match p n) (field_directives next)))
       (field_directives previous)"

subsection \<open>Enums\<close>

definition values_match :: "enum_value \<Rightarrow> enum_value \<Rightarrow> bool" where
  "values_match previous next = (value_name previous = value_name next)"

definition enum_directives_match :: "directive \<Rightarrow> directive \<Rightarrow> bool" where
  "enum_directives_match previous next = (dname previous = dname next)"

definition created_values :: "ast_enum \<Rightarrow> ast_enum \<Rightarrow> enum_value list" where
  "created_values previous next =
     filter (\<lambda>n. find (\<lambda>p. values_match p n) (enum_values previous) = None) (enum_values next)"

definition deleted_values :: "ast_enum \<Rightarrow> ast_enum \<Rightarrow> enum_value list" where
  "deleted_values previous next =
     filter (\<lambda>p. find (\<lambda>n. values_match p n) (enum_values next) = None) (enum_values previous)"

definition enum_created_directives :: "ast_enum \<Rightarrow> ast_enum \<Rightarrow> directive list" where
  "enum_created_directives previous next =
     filter (\<lambda>n. find (\<lambda>p. enum_directives_match p n) (enum_directives previous) = None)
       (enum_directives next)"

definition enum_deleted_directives :: "ast_enum \<Rightarrow> ast_enum \<Rightarrow> directive list" where
  "enum_deleted_directives previous next =
     filter (\<lambda>p. find (\<lambda>n. enum_directives_match p n) (enum_directives next) = None)
       (enum_directives previous)"

definition enum_directive_pairs :: "ast_enum \<Rightarrow> ast_enum \<Rightarrow> (directive \<times> directive) list" where
  "enum_directive_pairs previous next =
     List.map_filter
       (\<lambda>p. map_option (Pair p) (find (\<lambda>n. enum_directives_match p n) (enum_directives next)))
       (enum_directives previous)"

subsection \<open>Models\<close>

definition fields_match :: "ast_field \<Rightarrow> ast_field \<Rightarrow> bool" where
  "fields_match previous next = (fname previous = fname next)"

definition REPEATED_MODEL_DIRECTIVES :: "string list" where
  "REPEATED_MODEL_DIRECTIVES = [''unique'', ''index'']"

definition is_repeated :: "directive \<Rightarrow> bool" where
  "is_repeated d = List.member REPEATED_MODEL_DIRECTIVES (dname d)"

definition is_regular :: "directive \<Rightarrow> bool" where
  "is_regular d = (\<not> is_repeated d)"

definition created_fields :: "ast_model \<Rightarrow> ast_model \<Rightarrow> ast_field list" where
  "created_fields previous next =
     filter (\<lambda>n. find (\<lambda>p. fields_match p n) (model_fields previous) = None) (model_fields next)"

definition deleted_fields :: "ast_model \<Rightarrow> ast_model \<Rightarrow> ast_field list" where
  "deleted_fields previous next =
     filter (\<lambda>p. find (\<lambda>n. fields_match p n) (model_fields next) = None) (model_fields previous)"

definition field_pairs :: "ast_model \<Rightarrow> ast_model \<Rightarrow> (ast_field \<times> ast_field) list" where
  "field_pairs previous next =
     List.map_filter (\<lambda>p. map_option (Pair p) (find (\<lambda>n. fields_match p n) (model_fields next)))
       (model_fields previous)"

definition created_regular_directives :: "ast_model \<Rightarrow> ast_model \<Rightarrow> directive list" where
  "created_regular_directives previous next =
     filter (\<lambda>n. find (\<lambda>p. directives_match p n) (filter is_regular (model_directives previous)) = None)
       (filter is_regular (model_directives next))"

definition deleted_regular_directives :: "ast_model \<Rightarrow> ast_model \<Rightarrow> directive list" where
  "deleted_regular_directives previous next =
     filter (\<lambda>p. find (\<lambda>n. directives_match p n) (filter is_regular (model_directives next)) = None)
       (filter is_regular (model_directives previous))"

definition regular_directive_pairs :: "ast_model \<Rightarrow> ast_model \<Rightarrow> (directive \<times> directive) list" where
  "regular_directive_pairs previous next =
     List.map_filter
       (\<lambda>p. map_option (Pair p)
              (find (\<lambda>n. directives_match p n) (filter is_regular (model_directives next))))
       (filter is_regular (model_directives previous))"

definition created_repeated_directives :: "ast_model \<Rightarrow> ast_model \<Rightarrow> directive list option" where
  "created_repeated_directives previous next =
     filter_opt (\<lambda>n. map_option Not
         (any_opt (\<lambda>p. directives_are_identical p n) (filter is_repeated (model_directives previous))))
       (filter is_repeated (model_directives next))"

definition deleted_repeated_directives :: "ast_model \<Rightarrow> ast_model \<Rightarrow> directive list option" where
  "deleted_repeated_directives previous next =
     filter_opt (\<lambda>p. map_option Not
         (any_opt (\<lambda>n. directives_are_identical p n) (filter is_repeated (model_directives next))))
       (filter is_repeated (model_directives previous))"


subsection \<open>Top-level entries\<close>

definition walk_enums :: "schema_ast \<Rightarrow> ast_enum list" where
  "walk_enums s = List.map_filter as_enum (tops s)"

definition walk_models :: "schema_ast \<Rightarrow> ast_model list" where
  "walk_models s = List.map_filter as_model (tops s)"

definition enums_match :: "ast_enum \<Rightarrow> ast_enum \<Rightarrow> bool" where
  "enums_match previous next = (ename previous = ename next)"

definition models_match :: "ast_model \<Rightarrow> ast_model \<Rightarrow> bool" where
  "models_match previous next = (mname previous = mname next)"

definition model_pairs :: "schema_ast \<Rightarrow> schema_ast \<Rightarrow> (ast_model \<times> ast_model) list" where
  "model_pairs previous next =
     List.map_filter (\<lambda>p. map_option (Pair p) (find (\<lambda>n. models_match p n) (walk_models next)))
       (walk_models previous)"

definition created_models :: "schema_ast \<Rightarrow> schema_ast \<Rightarrow> ast_model list" where
  "created_models previous next =
     filter (\<lambda>n. find (\<lambda>p. models_match p n) (walk_models previous) = None) (walk_models next)"

definition deleted_models :: "schema_ast \<Rightarrow> schema_ast \<Rightarrow> ast_model list" where
  "deleted_models previous next =
     filter (\<lambda>p. find (\<lambda>n. models_match p n) (walk_models next) = None) (walk_models previous)"

definition enum_pairs :: "schema_ast \<Rightarrow> schema_ast \<Rightarrow> (ast_enum \<times> ast_enum) list" where
  "enum_pairs previous next =
     List.map_filter (\<lambda>p. map_option (Pair p) (find (\<lambda>n. enums_match p n) (walk_enums next)))
       (walk_enums previous)"

definition created_enums :: "schema_ast \<Rightarrow> schema_ast \<Rightarrow> ast_enum list" where
  "created_enums previous next =
     filter (\<lambda>n. find (\<lambda>p. enums_match p n) (walk_enums previous) = None) (walk_enums next)"

definition deleted_enums :: "schema_ast \<Rightarrow> schema_ast \<Rightarrow> ast_enum list" where
  "deleted_enums previous next =
     filter (\<lambda>p. find (\<lambda>n. enums_match p n) (walk_enums next) = None) (walk_enums previous)"

subsection \<open>Steps for directives and their arguments\<close>

definition diff_value :: "'a \<Rightarrow> 'a \<Rightarrow> 'a option" where
  "diff_value current updated = (if current = updated then None else Some updated)"

definition push_created_directive_argument ::
    "directive_location \<Rightarrow> argument \<Rightarrow> migration_step list option" where
  "push_created_directive_argument l a =
     map_option (\<lambda>v. [CreateDirectiveArgument l (aname a) v]) (from_ast_expression (arg_value a))"

definition push_updated_directive_argument ::
    "directive_location \<Rightarrow> argument \<Rightarrow> argument \<Rightarrow> migration_step list option" where
  "push_updated_directive_argument l previous next =
     Option.bind (from_ast_expression (arg_value previous)) (\<lambda>previous_value.
       map_option (\<lambda>next_value.
           if previous_value = next_value then []
           else [UpdateDirectiveArgument l (aname next) next_value])
         (from_ast_expression (arg_value next)))"

definition push_deleted_directive_argument ::
    "directive_location \<Rightarrow> string \<Rightarrow> migration_step list" where
  "push_deleted_directive_argument l a = [DeleteDirectiveArgument l a]"

definition push_created_directive :: "directive_type \<Rightarrow> directive \<Rightarrow> migration_step list option" where
  "push_created_directive location d =
     (let locator = \<lparr>loc_location = location, loc_directive = dname d, loc_arguments = None\<rparr>
      in append_opt (Some [CreateDirective locator])
           (concat_map_opt (push_created_directive_argument locator) (dir_arguments d)))"

definition push_created_directives ::
    "directive_type \<Rightarrow> directive list \<Rightarrow> migration_step list option" where
  "push_created_directives location ds = concat_map_opt (push_created_directive location) ds"

definition push_created_directive_with_arguments ::
    "directive_type \<Rightarrow> directive \<Rightarrow> migration_step list option" where
  "push_created_directive_with_arguments location d =
     map_option (\<lambda>args. [CreateDirective
         \<lparr>loc_location = location, loc_directive = dname d, loc_arguments = Some args\<rparr>])
       (map_opt step_argument_from (dir_arguments d))"

definition push_deleted_directive :: "directive_type \<Rightarrow> directive \<Rightarrow> migration_step list" where
  "push_deleted_directive location d =
     [DeleteDirective \<lparr>loc_location = location, loc_directive = dname d, loc_arguments = None\<rparr>]"

definition push_deleted_directives :: "directive_type \<Rightarrow> directive list \<Rightarrow> migration_step list" where
  "push_deleted_directives location ds = concat (map (push_deleted_directive location) ds)"

definition push_deleted_directive_with_arguments ::
    "directive_type \<Rightarrow> directive \<Rightarrow> migration_step list option" where
  "push_deleted_directive_with_arguments location d =
     map_option (\<lambda>args. [DeleteDirective
         \<lparr>loc_location = location, loc_directive = dname d, loc_arguments = Some args\<rparr>])
       (map_opt step_argument_from (dir_arguments d))"

definition push_updated_directive ::
    "directive_type \<Rightarrow> directive \<times> directive \<Rightarrow> migration_step list option" where
  "push_updated_directive location pn =
     (case pn of (previous, next) \<Rightarrow>
        let locator = \<lparr>loc_location = location, loc_directive = dname previous, loc_arguments = None\<rparr>
        in append_opt
             (concat_map_opt (push_created_directive_argument locator) (created_arguments previous next))
             (append_opt
               (concat_map_opt (\<lambda>(p, n). push_updated_directive_argument locator p n)
                  (argument_pairs previous next))
               (Some (concat (map (\<lambda>a. push_deleted_directive_argument locator (aname a))
                  (deleted_arguments previous next))))))"

definition push_updated_directives ::
    "directive_type \<Rightarrow> (directive \<times> directive) list \<Rightarrow> migration_step list option" where
  "push_updated_directives location prs = concat_map_opt (push_updated_directive location) prs"


subsection \<open>Steps for fields\<close>

definition push_created_field :: "string \<Rightarrow> ast_field \<Rightarrow> migration_step list option" where
  "push_created_field model_nm f =
     append_opt (Some [CreateField model_nm (fname f) (ident_name (field_type f)) (field_arity f)])
       (push_created_directives (FieldLoc model_nm (fname f)) (field_directives f))"

definition push_created_fields :: "string \<Rightarrow> ast_field list \<Rightarrow> migration_step list option" where
  "push_created_fields model_nm fs = concat_map_opt (push_created_field model_nm) fs"

definition push_deleted_fields :: "string \<Rightarrow> ast_field list \<Rightarrow> migration_step list" where
  "push_deleted_fields model_nm fs = map (\<lambda>f. DeleteField model_nm (fname f)) fs"

definition push_updated_field ::
    "string \<Rightarrow> ast_field \<times> ast_field \<Rightarrow> migration_step list option" where
  "push_updated_field model_nm pn =
     (case pn of (previous, next) \<Rightarrow>
        let arity = diff_value (field_arity previous) (field_arity next);
            new_name = diff_value (fname previous) (fname next);
            tpe = diff_value (ident_name (field_type previous)) (ident_name (field_type next));
            location = FieldLoc model_nm (fname previous)
        in append_opt
             (Some (if update_field_is_any_option_set new_name tpe arity
                    then [UpdateField model_nm (fname previous) new_name tpe arity] else []))
             (append_opt (push_created_directives location (field_created_directives previous next))
               (append_opt (push_updated_directives location (field_directive_pairs previous next))
                 (Some (push_deleted_directives location (field_deleted_directives previous next))))))"

definition push_updated_fields ::
    "string \<Rightarrow> (ast_field \<times> ast_field) list \<Rightarrow> migration_step list option" where
  "push_updated_fields model_nm prs = concat_map_opt (push_updated_field model_nm) prs"

subsection \<open>Steps for enums\<close>

definition push_created_enum :: "ast_enum \<Rightarrow> migration_step list option" where
  "push_created_enum e =
     append_opt (Some [CreateEnum (ename e) (map value_name (enum_values e))])
       (push_created_directives (EnumLoc (ename e)) (enum_directives e))"

definition push_created_enums :: "ast_enum list \<Rightarrow> migration_step list option" where
  "push_created_enums es = concat_map_opt push_created_enum es"

definition push_deleted_enums :: "ast_enum list \<Rightarrow> migration_step list" where
  "push_deleted_enums es = map (\<lambda>e. DeleteEnum (ename e)) es"

definition push_updated_enum :: "ast_enum \<times> ast_enum \<Rightarrow> migration_step list option" where
  "push_updated_enum pn =
     (case pn of (previous, next) \<Rightarrow>
        let created = map value_name (created_values previous next);
            deleted = map value_name (deleted_values previous next);
            new_name = diff_value (ename previous) (ename next);
            location = EnumLoc (ename previous)
        in append_opt
             (Some (if update_enum_is_any_option_set new_name created deleted
                    then [UpdateEnum (ename previous) new_name created deleted] else []))
             (append_opt (push_created_directives location (enum_created_directives previous next))
               (append_opt (push_updated_directives location (enum_directive_pairs previous next))
                 (Some (push_deleted_directives location (enum_deleted_directives previous next))))))"

definition push_updated_enums :: "(ast_enum \<times> ast_enum) list \<Rightarrow> migration_step list option" where
  "push_updated_enums prs = concat_map_opt push_updated_enum prs"

definition push_enums :: "schema_ast \<Rightarrow> schema_ast \<Rightarrow> migration_step list option" where
  "push_enums previous next =
     append_opt (push_created_enums (created_enums previous next))
       (append_opt (Some (push_deleted_enums (deleted_enums previous next)))
         (push_updated_enums (enum_pairs previous next)))"

subsection \<open>Steps for models\<close>

definition push_created_model :: "ast_model \<Rightarrow> migration_step list option" where
  "push_created_model m =
     append_opt (Some [CreateModel (mname m)])
       (append_opt (push_created_fields (mname m) (model_fields m))
         (push_created_directives (ModelLoc (mname m)) (model_directives m)))"

definition push_created_models :: "ast_model list \<Rightarrow> migration_step list option" where
  "push_created_models ms = concat_map_opt push_created_model ms"

definition push_deleted_models :: "ast_model list \<Rightarrow> migration_step list" where
  "push_deleted_models ms = map (\<lambda>m. DeleteModel (mname m)) ms"

definition push_updated_model :: "ast_model \<times> ast_model \<Rightarrow> migration_step list option" where
  "push_updated_model pn =
     (case pn of (previous, next) \<Rightarrow>
        let model_nm = mname previous; location = ModelLoc model_nm
        in append_opt (push_created_fields model_nm (created_fields previous next))
           (append_opt (Some (push_deleted_fields model_nm (deleted_fields previous next)))
           (append_opt (push_updated_fields model_nm (field_pairs previous next))
           (append_opt (push_created_directives location (created_regular_directives previous next))
           (append_opt (push_updated_directives location (regular_directive_pairs previous next))
           (append_opt (Some (push_deleted_directives location (deleted_regular_directives previous next)))
           (append_opt
             (Option.bind (created_repeated_directives previous next)
                (concat_map_opt (push_created_directive_with_arguments location)))
             (Option.bind (deleted_repeated_directives previous next)
                (concat_map_opt (push_deleted_directive_with_arguments location))))))))))"

definition push_updated_models :: "(ast_model \<times> ast_model) list \<Rightarrow> migration_step list option" where
  "push_updated_models prs = concat_map_opt push_updated_model prs"

definition push_models :: "schema_ast \<Rightarrow> schema_ast \<Rightarrow> migration_step list option" where
  "push_models previous next =
     append_opt (push_created_models (created_models previous next))
       (append_opt (Some (push_deleted_models (deleted_models previous next)))
         (push_updated_models (model_pairs previous next)))"

subsection \<open>The whole diff\<close>

definition diff :: "schema_ast \<Rightarrow> schema_ast \<Rightarrow> migration_step list option" where
  "diff previous next = append_opt (push_enums previous next) (push_models previous next)"

text \<open>\<open>DataModelMigrationStepsInferrerImplWrapper::infer\<close>.\<close>

definition steps_inferrer_infer :: "schema_ast \<Rightarrow> schema_ast \<Rightarrow> migration_step list option" where
  "steps_inferrer_infer previous next = diff previous next"

end
