(* ===== verification/Keyed_Lists.thy ===== *)
theory Keyed_Lists
  imports Prisma_Prelude "HOL-Library.Multiset"
begin

section \<open>Differences of keyed lists\<close>

text \<open>
  Every differ of the migration engine compares two lists of nodes by a key (their name): what
  is created, what is deleted, and the pairs to compare further. Here are these three lists for
  an arbitrary key, the effect on a list of creating, deleting and updating elements one after
  the other, and the interface \<open>keyed_merge\<close>: if creating and updating keep keys and produce the
  content of the next node, then the three phases, in either of the two orders the code uses,
  turn the previous list into one with exactly the content of the next list.
\<close>

definition created_by :: "('a \<Rightarrow> 'k) \<Rightarrow> 'a list \<Rightarrow> 'a list \<Rightarrow> 'a list" where
  "created_by k ps ns = filter (\<lambda>n. k n \<notin> k ` set ps) ns"

definition deleted_by :: "('a \<Rightarrow> 'k) \<Rightarrow> 'a list \<Rightarrow> 'a list \<Rightarrow> 'a list" where
  "deleted_by k ps ns = filter (\<lambda>p. k p \<notin> k ` set ns) ps"

definition pairs_by :: "('a \<Rightarrow> 'k) \<Rightarrow> 'a list \<Rightarrow> 'a list \<Rightarrow> ('a \<times> 'a) list" where
  "pairs_by k ps ns = List.map_filter (\<lambda>p. map_option (Pair p) (find (\<lambda>n. k n = k p) ns)) ps"

lemma created_by_same [simp]: "created_by k xs xs = []"
  by (simp add: created_by_def)

lemma deleted_by_same [simp]: "deleted_by k xs xs = []"
  by (simp add: deleted_by_def)

lemma created_by_Nil [simp]: "created_by k [] ns = ns"
  by (simp add: created_by_def)

lemma set_created_by: "n \<in> set (created_by k ps ns) \<longleftrightarrow> n \<in> set ns \<and> k n \<notin> k ` set ps"
  by (auto simp: created_by_def)

lemma created_disjoint: "k ` set ps \<inter> k ` set (created_by k ps ns) = {}"
  by (auto simp: created_by_def image_iff)

lemma distinct_created_by: "distinct (map k ns) \<Longrightarrow> distinct (map k (created_by k ps ns))"
  by (simp add: created_by_def distinct_map_filter)

lemma set_pairs_by:
  assumes "distinct (map k ns)"
  shows "(p, n) \<in> set (pairs_by k ps ns) \<longleftrightarrow> p \<in> set ps \<and> n \<in> set ns \<and> k n = k p"
proof -
  have "find (\<lambda>n. k n = k p) ns = Some n \<longleftrightarrow> n \<in> set ns \<and> k n = k p"
  proof
    assume "n \<in> set ns \<and> k n = k p"
    then show "find (\<lambda>n. k n = k p) ns = Some n" using find_distinct_key [OF assms, of n] by simp
  qed (auto dest: find_Some_mem)
  then show ?thesis
    by (auto simp: pairs_by_def set_map_filter)
qed

lemma pairs_by_fst:
  "map fst (pairs_by k ps ns) = filter (\<lambda>p. k p \<in> k ` set ns) ps"
proof (induction ps)
  case (Cons p ps)
  show ?case
  proof (cases "find (\<lambda>n. k n = k p) ns")
    case None
    then have "k p \<notin> k ` set ns" by (simp add: find_key_None_iff)
    with Cons None show ?thesis by (simp add: pairs_by_def List.map_filter_simps)
  next
    case (Some n)
    then have "k p \<in> k ` set ns" by (blast dest: find_key_Some)
    with Cons Some show ?thesis by (simp add: pairs_by_def List.map_filter_simps)
  qed
qed (simp add: pairs_by_def List.map_filter_simps)

lemma distinct_pairs_by:
  "distinct (map k ps) \<Longrightarrow> distinct (map (\<lambda>(p, n). k p) (pairs_by k ps ns))"
proof -
  assume "distinct (map k ps)"
  moreover have "map (\<lambda>(p, n). k p) (pairs_by k ps ns) = map k (map fst (pairs_by k ps ns))"
    by (simp add: split_def)
  ultimately show ?thesis by (simp add: pairs_by_fst distinct_map_filter)
qed

subsection \<open>The three phases on a list\<close>

lemma fold_append: "fold (\<lambda>x ys. ys @ [f x]) xs ys = ys @ map f xs"
  by (induction xs arbitrary: ys) auto

lemma fold_filter_key: "fold (\<lambda>d. filter (\<lambda>x. k x \<noteq> k d)) ds xs = filter (\<lambda>x. k x \<notin> k ` set ds) xs"
  by (induction ds arbitrary: xs) (simp_all add: conj_commute)

lemma update_first_distinct:
  assumes "distinct (map k xs)"
  shows "update_first (\<lambda>x. k x = a) f xs = map (\<lambda>x. if k x = a then f x else x) xs"
  using assms
proof (induction xs)
  case (Cons x xs)
  show ?case
  proof (cases "k x = a")
    case True
    with Cons.prems have "\<forall>y\<in>set xs. k y \<noteq> a" by (auto simp: image_iff)
    then have "map (\<lambda>x. if k x = a then f x else x) xs = xs" by (simp add: map_idI)
    with True show ?thesis by simp
  qed (use Cons in simp)
qed simp

lemma fold_update_first:
  assumes "distinct (map k xs)" and "distinct (map (\<lambda>(p, n). k p) prs)"
    and "\<And>p n x. k (u p n x) = k x"
  shows "fold (\<lambda>(p, n). update_first (\<lambda>x. k x = k p) (u p n)) prs xs =
    map (\<lambda>x. case find (\<lambda>(p, n). k p = k x) prs of None \<Rightarrow> x | Some (p, n) \<Rightarrow> u p n x) xs"
  using assms(1,2)
proof (induction prs arbitrary: xs)
  case (Cons pn prs)
  obtain p n where pn: "pn = (p, n)" by (cases pn)
  let ?ys = "update_first (\<lambda>x. k x = k p) (u p n) xs"
  have ys: "?ys = map (\<lambda>x. if k x = k p then u p n x else x) xs"
    using Cons.prems(1) by (rule update_first_distinct)
  have "map k ?ys = map k xs"
    by (rule map_update_first) (simp add: assms(3))
  then have "distinct (map k ?ys)" using Cons.prems(1) by simp
  note IH = Cons.IH [OF this]
  have notin: "find (\<lambda>(q, n). k q = k p) prs = None"
    using Cons.prems(2) by (force simp: pn find_None_iff)
  have "fold (\<lambda>(p, n). update_first (\<lambda>x. k x = k p) (u p n)) prs ?ys =
    map (\<lambda>x. case find (\<lambda>(p, n). k p = k x) prs of None \<Rightarrow> x | Some (p, n) \<Rightarrow> u p n x) ?ys"
    using IH Cons.prems(2) by simp
  also have "\<dots> = map (\<lambda>x. case find (\<lambda>(p, n). k p = k x) (pn # prs) of
      None \<Rightarrow> x | Some (p, n) \<Rightarrow> u p n x) xs"
    unfolding pn ys by (auto simp: notin assms(3))
  finally show ?case by (simp add: pn)
qed simp

lemma mset_map_factor:
  "(\<And>x. x \<in> set xs \<Longrightarrow> c x = g (k x)) \<Longrightarrow> mset (map c xs) = image_mset g (mset (map k xs))"
  by (induction xs) auto

lemma mset_eq_by_key:
  assumes "distinct (map k xs)" "distinct (map k ys)" "k ` set xs = k ` set ys"
    and "\<And>x y. x \<in> set xs \<Longrightarrow> y \<in> set ys \<Longrightarrow> k x = k y \<Longrightarrow> c x = c y"
  shows "mset (map c xs) = mset (map c ys)"
proof -
  define g where "g a = c (the (find (\<lambda>y. k y = a) ys))" for a
  have y: "c y = g (k y)" if "y \<in> set ys" for y
    using find_distinct_key [OF assms(2) that] by (simp add: g_def)
  have x: "c x = g (k x)" if "x \<in> set xs" for x
  proof -
    have "k x \<in> k ` set ys"
      unfolding assms(3) [symmetric] using that by (rule imageI)
    then obtain y where "k x = k y" "y \<in> set ys" by (rule imageE)
    then show ?thesis using assms(4) [OF that \<open>y \<in> set ys\<close>] y [OF \<open>y \<in> set ys\<close>] by simp
  qed
  have "mset (map c xs) = image_mset g (mset (map k xs))"
    using x by (rule mset_map_factor)
  also have "mset (map k xs) = mset (map k ys)"
    using assms(1,2) by (rule set_eq_iff_mset_eq_distinct [THEN iffD1]) (simp add: assms(3))
  also have "image_mset g (mset (map k ys)) = mset (map c ys)"
    using y by (rule mset_map_factor [symmetric])
  finally show ?thesis .
qed

subsection \<open>The merged list\<close>

definition merge_by ::
    "('a \<Rightarrow> 'k) \<Rightarrow> ('a \<Rightarrow> 'a) \<Rightarrow> ('a \<Rightarrow> 'a \<Rightarrow> 'a \<Rightarrow> 'a) \<Rightarrow> 'a list \<Rightarrow> 'a list \<Rightarrow> 'a list" where
  "merge_by k mk upd ps ns =
     map (\<lambda>p. upd p (the (find (\<lambda>n. k n = k p) ns)) p) (filter (\<lambda>p. k p \<in> k ` set ns) ps)
       @ map mk (created_by k ps ns)"

definition update_elem ::
    "('a \<Rightarrow> 'k) \<Rightarrow> ('a \<Rightarrow> 'a \<Rightarrow> 'a \<Rightarrow> 'a) \<Rightarrow> 'a list \<Rightarrow> 'a list \<Rightarrow> 'a \<Rightarrow> 'a" where
  "update_elem k upd ps ns x =
     (case (find (\<lambda>n. k n = k x) ns, find (\<lambda>p. k p = k x) ps) of
        (Some n, Some p) \<Rightarrow> upd p n x
      | _ \<Rightarrow> x)"

locale keyed_merge =
  fixes k :: "'a \<Rightarrow> 'k" and mk :: "'a \<Rightarrow> 'a" and upd :: "'a \<Rightarrow> 'a \<Rightarrow> 'a \<Rightarrow> 'a"
  assumes key_mk: "k (mk n) = k n" and key_upd: "k (upd p n x) = k x"
begin

abbreviation merge where "merge \<equiv> merge_by k mk upd"

abbreviation update_all where
  "update_all prs \<equiv> fold (\<lambda>(p, n). update_first (\<lambda>x. k x = k p) (upd p n)) prs"

lemma find_pairs_by:
  "find (\<lambda>(p, n). k p = a) (pairs_by k ps ns) =
     (case find (\<lambda>n. k n = a) ns of
        None \<Rightarrow> None
      | Some n \<Rightarrow> map_option (\<lambda>p. (p, n)) (find (\<lambda>p. k p = a) ps))"
proof (induction ps)
  case (Cons p ps)
  show ?case
    by (cases "find (\<lambda>n. k n = k p) ns"; cases "k p = a"; cases "find (\<lambda>n. k n = a) ns")
       (use Cons in \<open>simp_all add: pairs_by_def List.map_filter_simps\<close>)
qed (simp add: pairs_by_def List.map_filter_simps split: option.split)

lemma merge_keys:
  "map k (merge ps ns) = filter (\<lambda>a. a \<in> k ` set ns) (map k ps) @ map k (created_by k ps ns)"
  by (simp add: merge_by_def key_mk key_upd filter_map o_def)

lemma merge_distinct:
  assumes "distinct (map k ps)" "distinct (map k ns)"
  shows "distinct (map k (merge ps ns))"
  using assms
  by (auto simp: merge_keys distinct_created_by set_created_by simp del: map_append)

lemma merge_key_set: "k ` set (merge ps ns) = k ` set ns"
proof -
  have "k ` set (merge ps ns) = set (map k (merge ps ns))" by simp
  also have "\<dots> = k ` set ns"
    unfolding merge_keys by (auto simp: set_created_by)
  finally show ?thesis .
qed

lemma merge_elem:
  assumes "distinct (map k ns)" "x \<in> set (merge ps ns)"
  obtains p n where "p \<in> set ps" "n \<in> set ns" "k p = k n" "x = upd p n p"
    | n where "n \<in> set ns" "x = mk n"
proof -
  from assms(2) consider p where "p \<in> set ps" "k p \<in> k ` set ns"
      "x = upd p (the (find (\<lambda>n. k n = k p) ns)) p" | n where "n \<in> set ns" "x = mk n"
    by (auto simp: merge_by_def created_by_def)
  then show thesis
  proof cases
    case (1 p)
    then obtain n where "n \<in> set ns" "k p = k n" by auto
    with 1 find_distinct_key [OF assms(1) \<open>n \<in> set ns\<close>] that show ?thesis by auto
  qed (use that in blast)
qed

text \<open>Creating, updating and deleting, in the two orders the differ emits them.\<close>

abbreviation create_all where "create_all \<equiv> fold (\<lambda>n xs. xs @ [mk n])"

abbreviation delete_all where "delete_all \<equiv> fold (\<lambda>d. filter (\<lambda>x. k x \<noteq> k d))"

lemma created_distinct:
  assumes "distinct (map k ps)" "distinct (map k ns)"
  shows "distinct (map k (ps @ map mk (created_by k ps ns)))"
  using assms by (simp add: key_mk o_def created_disjoint distinct_created_by)

lemma deleted_keys:
  "filter (\<lambda>x. k x \<notin> k ` set (deleted_by k ps ns)) ps = filter (\<lambda>x. k x \<in> k ` set ns) ps"
proof (rule filter_cong [OF refl])
  fix x assume "x \<in> set ps"
  then show "(k x \<notin> k ` set (deleted_by k ps ns)) = (k x \<in> k ` set ns)"
    by (auto simp: deleted_by_def)
qed

lemma deleted_created:
  "filter (\<lambda>x. k x \<notin> k ` set (deleted_by k ps ns)) (map mk (created_by k ps ns)) =
     map mk (created_by k ps ns)"
  by (auto simp: filter_id_conv key_mk set_created_by deleted_by_def)

lemma update_all_eq:
  assumes "distinct (map k ps)" "distinct (map k xs)"
  shows "update_all (pairs_by k ps ns) xs = map (update_elem k upd ps ns) xs"
proof -
  have "update_elem k upd ps ns x = (case find (\<lambda>(p, n). k p = k x) (pairs_by k ps ns) of
      None \<Rightarrow> x | Some (p, n) \<Rightarrow> upd p n x)" for x
    unfolding find_pairs_by update_elem_def
    by (cases "find (\<lambda>n. k n = k x) ns"; cases "find (\<lambda>p. k p = k x) ps") simp_all
  then show ?thesis
    using fold_update_first [OF assms(2) distinct_pairs_by [OF assms(1)], of upd ns] key_upd by simp
qed

lemma key_update_elem: "k (update_elem k upd ps ns x) = k x"
  by (simp add: update_elem_def key_upd split: option.split)

lemma update_previous:
  assumes "distinct (map k ps)" "x \<in> set ps" "k x \<in> k ` set ns"
  shows "update_elem k upd ps ns x = upd x (the (find (\<lambda>n. k n = k x) ns)) x"
proof -
  have "find (\<lambda>n. k n = k x) ns \<noteq> None" unfolding find_key_None_iff using assms(3) by simp
  then show ?thesis by (auto simp: update_elem_def find_distinct_key [OF assms(1,2)])
qed

lemma update_created:
  assumes "n \<in> set (created_by k ps ns)"
  shows "update_elem k upd ps ns (mk n) = mk n"
proof -
  have "find (\<lambda>p. k p = k (mk n)) ps = None"
    unfolding find_key_None_iff using assms by (simp add: key_mk set_created_by)
  then show ?thesis by (simp add: update_elem_def split: option.split)
qed

lemma phases_create_delete_update:
  assumes "distinct (map k ps)" "distinct (map k ns)"
  shows "update_all (pairs_by k ps ns)
      (delete_all (deleted_by k ps ns) (create_all (created_by k ps ns) ps)) = merge ps ns"
proof -
  let ?xs = "filter (\<lambda>x. k x \<in> k ` set ns) ps @ map mk (created_by k ps ns)"
  have xs: "delete_all (deleted_by k ps ns) (create_all (created_by k ps ns) ps) = ?xs"
    unfolding fold_append fold_filter_key filter_append deleted_keys deleted_created ..
  have "distinct (map k ?xs)"
    using assms created_disjoint [of k ps ns]
    by (simp add: key_mk o_def distinct_created_by distinct_map_filter) blast
  from update_all_eq [OF assms(1) this] show ?thesis
    unfolding xs merge_by_def by (simp add: update_previous [OF assms(1)] update_created)
qed

lemma phases_create_update_delete:
  assumes "distinct (map k ps)" "distinct (map k ns)"
  shows "delete_all (deleted_by k ps ns)
      (update_all (pairs_by k ps ns) (create_all (created_by k ps ns) ps)) = merge ps ns"
proof -
  let ?xs = "ps @ map mk (created_by k ps ns)" and ?ds = "deleted_by k ps ns"
  have d: "distinct (map k ?xs)" "distinct (map k (delete_all ?ds ?xs))"
    using created_distinct [OF assms] unfolding fold_filter_key by (blast intro: distinct_map_filter)+
  have "delete_all ?ds (map (update_elem k upd ps ns) ?xs) =
      map (update_elem k upd ps ns) (delete_all ?ds ?xs)"
    unfolding fold_filter_key filter_map by (simp add: o_def key_update_elem)
  then show ?thesis
    using phases_create_delete_update [OF assms]
    unfolding fold_append update_all_eq [OF assms(1) d(1)] update_all_eq [OF assms(1) d(2)]
    by (rule trans)
qed

theorem merge_content:
  assumes "distinct (map k ps)" "distinct (map k ns)"
    and mk: "\<And>n. n \<in> set ns \<Longrightarrow> c (mk n) = c n"
    and upd: "\<And>p n. p \<in> set ps \<Longrightarrow> n \<in> set ns \<Longrightarrow> k p = k n \<Longrightarrow> c (upd p n p) = c n"
  shows "mset (map c (merge ps ns)) = mset (map c ns)"
proof (rule mset_eq_by_key [where k = k])
  fix x y assume x: "x \<in> set (merge ps ns)" and y: "y \<in> set ns" and eq: "k x = k y"
  have same: "n = y" if "n \<in> set ns" "k n = k y" for n
    using assms(2) that y by (metis find_distinct_key option.inject)
  show "c x = c y"
    using assms(2) x
  proof (cases rule: merge_elem)
    case (1 p n)
    then have "n = y" using same eq by (simp add: key_upd)
    with 1 upd show ?thesis by simp
  next
    case (2 n)
    then have "n = y" using same eq by (simp add: key_mk)
    with 2 mk show ?thesis by simp
  qed
qed (use assms(1,2) in \<open>simp_all add: merge_distinct merge_key_set\<close>)

end

end
