(* ===== verification/Schema_Content.thy ===== *)
theory Schema_Content
  imports Differ Keyed_Lists
begin

section \<open>What a schema says\<close>

text \<open>
  The specification the differ and the calculator share: the content of a schema, that is its
  enums and models up to the order of entries, source locations and documentation, and the
  schemas for which names identify entries. Argument values count by their printed form, which is
  how the migration engine compares them.
\<close>

subsection \<open>Content\<close>

type_synonym arg_content = "string \<times> string option"
type_synonym dir_content = "string \<times> arg_content multiset"
type_synonym field_content = "string \<times> string \<times> field_arity \<times> dir_content multiset"
type_synonym model_content = "string \<times> field_content multiset \<times> dir_content multiset"
type_synonym enum_content = "string \<times> string multiset \<times> dir_content multiset"

definition arg_content :: "argument \<Rightarrow> arg_content" where
  "arg_content a = (aname a, from_ast_expression (arg_value a))"

definition dir_content :: "directive \<Rightarrow> dir_content" where
  "dir_content d = (dname d, mset (map arg_content (dir_arguments d)))"

definition field_content :: "ast_field \<Rightarrow> field_content" where
  "field_content f =
     (fname f, ident_name (field_type f), field_arity f, mset (map dir_content (field_directives f)))"

definition model_content :: "ast_model \<Rightarrow> model_content" where
  "model_content m =
     (mname m, mset (map field_content (model_fields m)), mset (map dir_content (model_directives m)))"

definition enum_content :: "ast_enum \<Rightarrow> enum_content" where
  "enum_content e =
     (ename e, mset (map value_name (enum_values e)), mset (map dir_content (enum_directives e)))"

definition schema_content :: "schema_ast \<Rightarrow> enum_content multiset \<times> model_content multiset" where
  "schema_content s = (mset (map enum_content (enums s)), mset (map model_content (models s)))"

subsection \<open>Well-formed schemas\<close>

definition wf_argument :: "argument \<Rightarrow> bool" where
  "wf_argument a = wf_expression (arg_value a)"

definition wf_directive :: "directive \<Rightarrow> bool" where
  "wf_directive d \<longleftrightarrow> distinct (map aname (dir_arguments d)) \<and> list_all wf_argument (dir_arguments d)"

definition wf_directives :: "directive list \<Rightarrow> bool" where
  "wf_directives ds \<longleftrightarrow> distinct (map dname ds) \<and> list_all wf_directive ds"

definition wf_field :: "ast_field \<Rightarrow> bool" where
  "wf_field f \<longleftrightarrow> wf_directives (field_directives f)"

text \<open>
  The directives \<open>@@unique\<close> and \<open>@@index\<close> may be repeated on a model, with different arguments.
\<close>

definition wf_model :: "ast_model \<Rightarrow> bool" where
  "wf_model m \<longleftrightarrow>
     distinct (map fname (model_fields m)) \<and> list_all wf_field (model_fields m) \<and>
     list_all wf_directive (model_directives m) \<and>
     distinct (map dname (filter is_regular (model_directives m))) \<and>
     distinct (map dir_content (filter is_repeated (model_directives m)))"

definition wf_enum :: "ast_enum \<Rightarrow> bool" where
  "wf_enum e \<longleftrightarrow> distinct (map value_name (enum_values e)) \<and> wf_directives (enum_directives e)"

definition wf_schema :: "schema_ast \<Rightarrow> bool" where
  "wf_schema s \<longleftrightarrow>
     distinct (map ename (enums s)) \<and> list_all wf_enum (enums s) \<and>
     distinct (map mname (models s)) \<and> list_all wf_model (models s)"

text \<open>
  Whether every model of \<open>next\<close> that \<open>previous\<close> does not have carries each directive at most once:
  the steps for a new model name directives by their name only.
\<close>

definition new_models_plain :: "schema_ast \<Rightarrow> schema_ast \<Rightarrow> bool" where
  "new_models_plain previous next \<longleftrightarrow>
     list_all (\<lambda>m. distinct (map dname (model_directives m))) (created_models previous next)"

subsection \<open>The differ's lists as differences by name\<close>

lemma find_sym: "find (\<lambda>p. f p = a) xs = find (\<lambda>p. a = f p) xs"
  by (simp add: eq_commute)

lemma differ_created:
  "created_arguments d d' = created_by aname (dir_arguments d) (dir_arguments d')"
  "field_created_directives f f' = created_by dname (field_directives f) (field_directives f')"
  "created_values e e' = created_by value_name (enum_values e) (enum_values e')"
  "enum_created_directives e e' = created_by dname (enum_directives e) (enum_directives e')"
  "created_fields m m' = created_by fname (model_fields m) (model_fields m')"
  "created_regular_directives m m' =
     created_by dname (filter is_regular (model_directives m)) (filter is_regular (model_directives m'))"
  "created_models s s' = created_by mname (models s) (models s')"
  "created_enums s s' = created_by ename (enums s) (enums s')"
  by (simp_all only: created_arguments_def field_created_directives_def created_values_def
      enum_created_directives_def created_fields_def created_regular_directives_def created_models_def
      created_enums_def created_by_def arguments_match_def directives_match_def values_match_def
      enum_directives_match_def fields_match_def models_match_def enums_match_def find_key_None_iff
      walk_models_def walk_enums_def models_def enums_def)

lemma differ_deleted:
  "deleted_arguments d d' = deleted_by aname (dir_arguments d) (dir_arguments d')"
  "field_deleted_directives f f' = deleted_by dname (field_directives f) (field_directives f')"
  "deleted_values e e' = deleted_by value_name (enum_values e) (enum_values e')"
  "enum_deleted_directives e e' = deleted_by dname (enum_directives e) (enum_directives e')"
  "deleted_fields m m' = deleted_by fname (model_fields m) (model_fields m')"
  "deleted_regular_directives m m' =
     deleted_by dname (filter is_regular (model_directives m)) (filter is_regular (model_directives m'))"
  "deleted_models s s' = deleted_by mname (models s) (models s')"
  "deleted_enums s s' = deleted_by ename (enums s) (enums s')"
  by (simp_all only: deleted_arguments_def field_deleted_directives_def deleted_values_def
      enum_deleted_directives_def deleted_fields_def deleted_regular_directives_def deleted_models_def
      deleted_enums_def deleted_by_def arguments_match_def directives_match_def values_match_def
      enum_directives_match_def fields_match_def models_match_def enums_match_def
      find_sym [symmetric] find_key_None_iff walk_models_def walk_enums_def models_def enums_def)

lemma differ_pairs:
  "argument_pairs d d' = pairs_by aname (dir_arguments d) (dir_arguments d')"
  "field_directive_pairs f f' = pairs_by dname (field_directives f) (field_directives f')"
  "enum_directive_pairs e e' = pairs_by dname (enum_directives e) (enum_directives e')"
  "field_pairs m m' = pairs_by fname (model_fields m) (model_fields m')"
  "regular_directive_pairs m m' =
     pairs_by dname (filter is_regular (model_directives m)) (filter is_regular (model_directives m'))"
  "model_pairs s s' = pairs_by mname (models s) (models s')"
  "enum_pairs s s' = pairs_by ename (enums s) (enums s')"
  by (simp_all only: argument_pairs_def field_directive_pairs_def enum_directive_pairs_def
      field_pairs_def regular_directive_pairs_def model_pairs_def enum_pairs_def pairs_by_def
      arguments_match_def directives_match_def enum_directives_match_def fields_match_def
      models_match_def enums_match_def find_sym [symmetric] walk_models_def walk_enums_def
      models_def enums_def)

lemmas differ_lists = differ_created differ_deleted differ_pairs

end
