(* ===== verification/Merge_Runs.thy ===== *)
theory Merge_Runs
  imports Lenses Keyed_Lists
begin

section \<open>Running the differences of a keyed list\<close>

text \<open>
  The interfaces \<open>part\<close> and \<open>keyed_merge\<close> together: a part of the state that is a list of keyed
  nodes, and emitters for creating, updating and deleting one node. The three phases of a diff
  turn the previous list into the merged list. The list may hold further nodes whose keys a
  predicate \<open>R\<close> excludes; the phases leave them alone.
\<close>

locale part_merge = part get chg + keyed_merge k mk upd
  for get :: "'s \<Rightarrow> 'a list option" and chg :: "('a list \<Rightarrow> 'a list) \<Rightarrow> 's \<Rightarrow> 's \<Rightarrow> bool"
    and k :: "'a \<Rightarrow> 'k" and mk :: "'a \<Rightarrow> 'a" and upd :: "'a \<Rightarrow> 'a \<Rightarrow> 'a \<Rightarrow> 'a"
begin

lemma emits_create_all:
  assumes "\<And>n. n \<in> set cs \<Longrightarrow> emits run get chg (rc n) (\<lambda>xs. k n \<notin> k ` set xs) (\<lambda>xs. xs @ [mk n])"
  shows "emits run get chg (concat_map_opt rc cs)
    (\<lambda>xs. distinct (map k cs) \<and> k ` set cs \<inter> k ` set xs = {}) (create_all cs)"
proof (rule emits_concat_map
    [where I = "\<lambda>cs xs. distinct (map k cs) \<and> k ` set cs \<inter> k ` set xs = {}"], goal_cases)
  case (1 n ys)
  from assms [OF this] show ?case by (rule emits_weaken) auto
qed (auto simp: key_mk)

lemma emits_update_all:
  assumes "\<And>p n. (p, n) \<in> set prs \<Longrightarrow> emits run get chg (ru (p, n))
      (\<lambda>xs. distinct (map k (filter (\<lambda>x. R (k x)) xs)) \<and> find (\<lambda>x. k x = k p) xs = Some p)
      (update_first (\<lambda>x. k x = k p) (upd p n))"
  shows "emits run get chg (concat_map_opt ru prs)
    (\<lambda>xs. distinct (map k (filter (\<lambda>x. R (k x)) xs)) \<and> distinct (map (\<lambda>(p, n). k p) prs)
       \<and> (\<forall>(p, n)\<in>set prs. find (\<lambda>x. k x = k p) xs = Some p)) (update_all prs)"
proof (rule emits_concat_map
    [where I = "\<lambda>prs xs. distinct (map k (filter (\<lambda>x. R (k x)) xs)) \<and> distinct (map (\<lambda>(p, n). k p) prs)
       \<and> (\<forall>(p, n)\<in>set prs. find (\<lambda>x. k x = k p) xs = Some p)"], goal_cases)
  case (1 pn ys)
  obtain p n where pn: "pn = (p, n)" by (cases pn)
  from assms [OF 1 [unfolded pn]] have "emits run get chg (ru pn)
      (\<lambda>xs. distinct (map k (filter (\<lambda>x. R (k x)) xs)) \<and> find (\<lambda>x. k x = k p) xs = Some p)
      (update_first (\<lambda>x. k x = k p) (upd p n))"
    unfolding pn .
  then show ?case
    unfolding pn by (rule emits_weaken) simp_all
next
  case (2 pn ys xs)
  obtain p n where pn: "pn = (p, n)" by (cases pn)
  let ?xs' = "update_first (\<lambda>x. k x = k p) (upd p n) xs"
  have "map k (filter (\<lambda>x. R (k x)) ?xs') = filter R (map k ?xs')" by (simp add: filter_map o_def)
  also have "\<dots> = map k (filter (\<lambda>x. R (k x)) xs)"
    by (subst map_update_first) (simp_all add: key_upd filter_map o_def)
  finally have "distinct (map k (filter (\<lambda>x. R (k x)) ?xs'))" using 2 by simp
  moreover have "find (\<lambda>x. k x = k q) ?xs' = find (\<lambda>x. k x = k q) xs" if "(q, m) \<in> set ys" for q m
  proof -
    have "k q \<noteq> k p" using 2(2) that by (force simp: pn)
    then show ?thesis by (intro find_update_first_other) (auto simp: key_upd)
  qed
  ultimately show ?case using 2(2) by (auto simp: pn)
qed

lemma emits_delete_all:
  assumes "\<And>d. d \<in> set ds \<Longrightarrow>
      emits run get chg (rd d) (\<lambda>xs. k d \<in> k ` set xs) (filter (\<lambda>x. k x \<noteq> k d))"
  shows "emits run get chg (concat_map_opt rd ds)
    (\<lambda>xs. distinct (map k ds) \<and> k ` set ds \<subseteq> k ` set xs) (delete_all ds)"
proof (rule emits_concat_map
    [where I = "\<lambda>ds xs. distinct (map k ds) \<and> k ` set ds \<subseteq> k ` set xs"], goal_cases)
  case (1 d ys)
  from assms [OF this] show ?case by (rule emits_weaken) simp_all
next
  case (2 d ys xs)
  have "k e \<in> k ` set (filter (\<lambda>x. k x \<noteq> k d) xs)" if "e \<in> set ys" for e
  proof -
    have "k e \<in> k ` set ys" using that by (rule imageI)
    then have "k e \<in> k ` set xs" "k e \<noteq> k d" using 2(2) by auto
    then show ?thesis by auto
  qed
  with 2 show ?case by auto
qed

text \<open>The state of the list between the phases.\<close>

lemma find_filter_key: "R a \<Longrightarrow> find (\<lambda>x. k x = a) (filter (\<lambda>x. R (k x)) xs) = find (\<lambda>x. k x = a) xs"
  by (induction xs) auto

lemma created_fresh:
  assumes "filter (\<lambda>x. R (k x)) xs = ps" "\<And>n. n \<in> set ns \<Longrightarrow> R (k n)" "n \<in> set (created_by k ps ns)"
  shows "k n \<notin> k ` set xs"
proof
  assume "k n \<in> k ` set xs"
  then obtain x where x: "x \<in> set xs" "k x = k n" by auto
  moreover have "R (k n)" "k n \<notin> k ` set ps" using assms(2,3) by (auto simp: set_created_by)
  ultimately have "x \<in> set ps" using assms(1) by auto
  with x \<open>k n \<notin> k ` set ps\<close> show False by (metis imageI)
qed

lemma created_regular:
  assumes "filter (\<lambda>x. R (k x)) xs = ps" "\<And>n. n \<in> set ns \<Longrightarrow> R (k n)"
  shows "filter (\<lambda>x. R (k x)) (create_all (created_by k ps ns) xs) = create_all (created_by k ps ns) ps"
  using assms unfolding fold_append by (auto simp: filter_id_conv key_mk set_created_by)

lemma created_pairs:
  assumes "filter (\<lambda>x. R (k x)) xs = ps" "distinct (map k ps)" "distinct (map k ns)"
    and "(p, n) \<in> set (pairs_by k ps ns)"
  shows "find (\<lambda>x. k x = k p) (create_all (created_by k ps ns) xs) = Some p"
proof -
  have "p \<in> set ps" using assms(3,4) by (simp add: set_pairs_by)
  moreover from this have "R (k p)" using assms(1) by auto
  ultimately have "find (\<lambda>x. k x = k p) xs = Some p"
    using find_distinct_key [OF assms(2)] find_filter_key [of R "k p" xs] assms(1) by simp
  then show ?thesis unfolding fold_append find_append by simp
qed

lemma distinct_deleted_by: "distinct (map k ps) \<Longrightarrow> distinct (map k (deleted_by k ps ns))"
  by (simp add: deleted_by_def distinct_map_filter)

lemma deleted_subset:
  assumes "filter (\<lambda>x. R (k x)) xs = ps"
  shows "k ` set (deleted_by k ps ns) \<subseteq> k ` set (create_all (created_by k ps ns) xs)"
  using assms unfolding fold_append by (auto simp: deleted_by_def)

lemma update_all_keys: "map k (update_all prs xs) = map k xs"
  by (induction prs arbitrary: xs) (auto simp: map_update_first key_upd)

lemma update_all_key_set: "k ` set (update_all prs xs) = k ` set xs"
  using arg_cong [OF update_all_keys, of set] by simp

theorem emits_create_update_delete:
  assumes ps: "distinct (map k ps)" and ns: "distinct (map k ns)"
    and R: "\<And>n. n \<in> set ns \<Longrightarrow> R (k n)"
    and c: "\<And>n. n \<in> set ns \<Longrightarrow> emits run get chg (rc n) (\<lambda>xs. k n \<notin> k ` set xs) (\<lambda>xs. xs @ [mk n])"
    and u: "\<And>p n. p \<in> set ps \<Longrightarrow> n \<in> set ns \<Longrightarrow> k n = k p \<Longrightarrow> emits run get chg (ru (p, n))
      (\<lambda>xs. distinct (map k (filter (\<lambda>x. R (k x)) xs)) \<and> find (\<lambda>x. k x = k p) xs = Some p)
      (update_first (\<lambda>x. k x = k p) (upd p n))"
    and d: "\<And>d. d \<in> set ps \<Longrightarrow>
      emits run get chg (rd d) (\<lambda>xs. k d \<in> k ` set xs) (filter (\<lambda>x. k x \<noteq> k d))"
  shows "emits run get chg
    (append_opt (concat_map_opt rc (created_by k ps ns))
      (append_opt (concat_map_opt ru (pairs_by k ps ns)) (concat_map_opt rd (deleted_by k ps ns))))
    (\<lambda>xs. filter (\<lambda>x. R (k x)) xs = ps)
    (\<lambda>xs. delete_all (deleted_by k ps ns) (update_all (pairs_by k ps ns)
       (create_all (created_by k ps ns) xs)))"
proof -
  let ?C = "created_by k ps ns" and ?U = "pairs_by k ps ns" and ?D = "deleted_by k ps ns"
  have C: "emits run get chg (concat_map_opt rc ?C) (\<lambda>xs. filter (\<lambda>x. R (k x)) xs = ps) (create_all ?C)"
  proof (rule emits_weaken, rule emits_create_all)
    fix n assume "n \<in> set ?C"
    then show "emits run get chg (rc n) (\<lambda>xs. k n \<notin> k ` set xs) (\<lambda>xs. xs @ [mk n])"
      by (intro c) (simp add: set_created_by)
  next
    fix xs assume "filter (\<lambda>x. R (k x)) xs = ps"
    from created_fresh [OF this R] have "k ` set ?C \<inter> k ` set xs = {}" by blast
    then show "distinct (map k ?C) \<and> k ` set ?C \<inter> k ` set xs = {}"
      using distinct_created_by [OF ns] by simp
  qed simp
  have U: "emits run get chg (concat_map_opt ru ?U)
      (\<lambda>xs. distinct (map k (filter (\<lambda>x. R (k x)) xs)) \<and> distinct (map (\<lambda>(p, n). k p) ?U)
       \<and> (\<forall>(p, n)\<in>set ?U. find (\<lambda>x. k x = k p) xs = Some p)) (update_all ?U)"
    by (rule emits_update_all, rule u) (simp_all add: set_pairs_by [OF ns])
  have D: "emits run get chg (concat_map_opt rd ?D)
      (\<lambda>xs. distinct (map k ?D) \<and> k ` set ?D \<subseteq> k ` set xs) (delete_all ?D)"
    by (rule emits_delete_all, rule d) (simp add: deleted_by_def)
  have U_pre: "distinct (map k (filter (\<lambda>x. R (k x)) (create_all ?C xs))) \<and> distinct (map (\<lambda>(p, n). k p) ?U)
       \<and> (\<forall>(p, n)\<in>set ?U. find (\<lambda>x. k x = k p) (create_all ?C xs) = Some p)"
    if xs: "filter (\<lambda>x. R (k x)) xs = ps" for xs
  proof (intro conjI)
    have "filter (\<lambda>x. R (k x)) (create_all ?C xs) = ps @ map mk ?C"
      using created_regular [where R = R, OF xs R] unfolding fold_append .
    then show "distinct (map k (filter (\<lambda>x. R (k x)) (create_all ?C xs)))"
      using created_distinct [OF ps ns] by simp
  qed (use distinct_pairs_by [OF ps] created_pairs [OF xs ps ns] in auto)
  have D_pre: "distinct (map k ?D) \<and> k ` set ?D \<subseteq> k ` set (update_all ?U (create_all ?C xs))"
    if xs: "filter (\<lambda>x. R (k x)) xs = ps" for xs
    using distinct_deleted_by [OF ps] deleted_subset [OF xs] by (simp add: update_all_key_set)
  have UD: "emits run get chg (append_opt (concat_map_opt ru ?U) (concat_map_opt rd ?D))
      (\<lambda>xs. (distinct (map k (filter (\<lambda>x. R (k x)) xs)) \<and> distinct (map (\<lambda>(p, n). k p) ?U)
         \<and> (\<forall>(p, n)\<in>set ?U. find (\<lambda>x. k x = k p) xs = Some p))
         \<and> distinct (map k ?D) \<and> k ` set ?D \<subseteq> k ` set (update_all ?U xs))
      (\<lambda>xs. delete_all ?D (update_all ?U xs))"
    by (rule emits_append [OF emits_weaken [OF U] D]) simp_all
  show ?thesis
    by (rule emits_append [OF C UD]) (use U_pre D_pre in blast)
qed

text \<open>What the phases do to the nodes \<open>R\<close> includes, and to the others.\<close>

lemma phases_regular:
  assumes "distinct (map k ps)" "distinct (map k ns)"
    and xs: "filter (\<lambda>x. R (k x)) xs = ps" and R: "\<And>n. n \<in> set ns \<Longrightarrow> R (k n)"
  shows "filter (\<lambda>x. R (k x)) (delete_all (deleted_by k ps ns)
      (update_all (pairs_by k ps ns) (create_all (created_by k ps ns) xs))) = merge ps ns"
proof -
  have upd: "filter (\<lambda>x. R (k x)) (update_all prs ys) = update_all prs (filter (\<lambda>x. R (k x)) ys)"
    if "\<forall>(p, n)\<in>set prs. R (k p)" for prs ys
    using that
  proof (induction prs arbitrary: ys)
    case (Cons pn prs)
    obtain p n where pn: "pn = (p, n)" by (cases pn)
    have "filter (\<lambda>x. R (k x)) (update_first (\<lambda>x. k x = k p) (upd p n) ys) =
        update_first (\<lambda>x. k x = k p) (upd p n) (filter (\<lambda>x. R (k x)) ys)"
      using Cons.prems by (intro filter_update_first) (auto simp: pn key_upd)
    with Cons show ?case by (simp add: pn)
  qed simp
  have del: "filter (\<lambda>x. R (k x)) (delete_all ds ys) = delete_all ds (filter (\<lambda>x. R (k x)) ys)" for ds ys
    unfolding fold_filter_key by (simp add: conj_commute)
  have "\<forall>(p, n)\<in>set (pairs_by k ps ns). R (k p)"
    using R by (auto simp: set_pairs_by [OF assms(2)] simp flip: xs)
  then show ?thesis
    using phases_create_update_delete [OF assms(1,2)] created_regular [where R = R, OF xs R]
    by (simp add: del upd)
qed

lemma phases_others:
  assumes "\<And>p. p \<in> set ps \<Longrightarrow> R (k p)" "\<And>n. n \<in> set ns \<Longrightarrow> R (k n)" "distinct (map k ns)"
  shows "filter (\<lambda>x. \<not> R (k x)) (delete_all (deleted_by k ps ns)
      (update_all (pairs_by k ps ns) (create_all (created_by k ps ns) xs))) = filter (\<lambda>x. \<not> R (k x)) xs"
proof -
  have upd: "filter (\<lambda>x. \<not> R (k x)) (update_all prs ys) = filter (\<lambda>x. \<not> R (k x)) ys"
    if "\<forall>(p, n)\<in>set prs. R (k p)" for prs ys
    using that
  proof (induction prs arbitrary: ys)
    case (Cons pn prs)
    obtain p n where pn: "pn = (p, n)" by (cases pn)
    have "filter (\<lambda>x. \<not> R (k x)) (update_first (\<lambda>x. k x = k p) (upd p n) ys) = filter (\<lambda>x. \<not> R (k x)) ys"
      using Cons.prems by (intro filter_update_first_other) (auto simp: pn key_upd)
    with Cons show ?case by (simp add: pn)
  qed simp
  have pr: "\<forall>(p, n)\<in>set (pairs_by k ps ns). R (k p)"
    using assms by (auto simp: set_pairs_by)
  have del: "filter (\<lambda>x. \<not> R (k x)) (delete_all (deleted_by k ps ns) ys) = filter (\<lambda>x. \<not> R (k x)) ys" for ys
    unfolding fold_filter_key filter_filter
    using assms(1) by (intro filter_cong) (auto simp: deleted_by_def)
  have "filter (\<lambda>x. \<not> R (k x)) (create_all (created_by k ps ns) xs) = filter (\<lambda>x. \<not> R (k x)) xs"
    unfolding fold_append using assms(2) by (auto simp: key_mk set_created_by filter_empty_conv)
  then show ?thesis by (simp add: del upd [OF pr])
qed

text \<open>The two orders, on a list that holds just the previous nodes.\<close>

theorem emits_merge_cud:
  assumes ps: "distinct (map k ps)" and ns: "distinct (map k ns)"
    and c: "\<And>n. n \<in> set ns \<Longrightarrow> emits run get chg (rc n) (\<lambda>xs. k n \<notin> k ` set xs) (\<lambda>xs. xs @ [mk n])"
    and u: "\<And>p n. p \<in> set ps \<Longrightarrow> n \<in> set ns \<Longrightarrow> k n = k p \<Longrightarrow> emits run get chg (ru (p, n))
      (\<lambda>xs. distinct (map k xs) \<and> find (\<lambda>x. k x = k p) xs = Some p)
      (update_first (\<lambda>x. k x = k p) (upd p n))"
    and d: "\<And>d. d \<in> set ps \<Longrightarrow>
      emits run get chg (rd d) (\<lambda>xs. k d \<in> k ` set xs) (filter (\<lambda>x. k x \<noteq> k d))"
  shows "emits run get chg
    (append_opt (concat_map_opt rc (created_by k ps ns))
      (append_opt (concat_map_opt ru (pairs_by k ps ns)) (concat_map_opt rd (deleted_by k ps ns))))
    (\<lambda>xs. xs = ps) (\<lambda>_. merge ps ns)"
  by (rule emits_weaken, rule emits_create_update_delete [where R = "\<lambda>_. True", OF ps ns _ c _ d])
     (use u in \<open>simp_all add: phases_create_update_delete [OF ps ns]\<close>)

theorem emits_merge_cdu:
  assumes ps: "distinct (map k ps)" and ns: "distinct (map k ns)"
    and c: "\<And>n. n \<in> set ns \<Longrightarrow> k n \<notin> k ` set ps \<Longrightarrow>
      emits run get chg (rc n) (\<lambda>xs. k n \<notin> k ` set xs) (\<lambda>xs. xs @ [mk n])"
    and u: "\<And>p n. p \<in> set ps \<Longrightarrow> n \<in> set ns \<Longrightarrow> k n = k p \<Longrightarrow> emits run get chg (ru (p, n))
      (\<lambda>xs. distinct (map k xs) \<and> find (\<lambda>x. k x = k p) xs = Some p)
      (update_first (\<lambda>x. k x = k p) (upd p n))"
    and d: "\<And>d. d \<in> set ps \<Longrightarrow>
      emits run get chg (rd d) (\<lambda>xs. k d \<in> k ` set xs) (filter (\<lambda>x. k x \<noteq> k d))"
  shows "emits run get chg
    (append_opt (concat_map_opt rc (created_by k ps ns))
      (append_opt (concat_map_opt rd (deleted_by k ps ns)) (concat_map_opt ru (pairs_by k ps ns))))
    (\<lambda>xs. xs = ps) (\<lambda>_. merge ps ns)"
proof -
  let ?C = "created_by k ps ns" and ?U = "pairs_by k ps ns" and ?D = "deleted_by k ps ns"
  have C: "emits run get chg (concat_map_opt rc ?C)
      (\<lambda>xs. distinct (map k ?C) \<and> k ` set ?C \<inter> k ` set xs = {}) (create_all ?C)"
    by (rule emits_create_all, rule c) (simp_all add: set_created_by)
  have U: "emits run get chg (concat_map_opt ru ?U)
      (\<lambda>xs. distinct (map k (filter (\<lambda>x. True) xs)) \<and> distinct (map (\<lambda>(p, n). k p) ?U)
       \<and> (\<forall>(p, n)\<in>set ?U. find (\<lambda>x. k x = k p) xs = Some p)) (update_all ?U)"
    by (rule emits_update_all [where R = "\<lambda>_. True"]) (use u in \<open>simp add: set_pairs_by [OF ns]\<close>)
  have D: "emits run get chg (concat_map_opt rd ?D)
      (\<lambda>xs. distinct (map k ?D) \<and> k ` set ?D \<subseteq> k ` set xs) (delete_all ?D)"
    by (rule emits_delete_all, rule d) (simp add: deleted_by_def)
  let ?xs = "filter (\<lambda>x. k x \<in> k ` set ns) ps @ map mk ?C"
  have xs: "delete_all ?D (create_all ?C ps) = ?xs"
    unfolding fold_append fold_filter_key filter_append deleted_keys deleted_created ..
  have "distinct (map k ?xs)"
    using ps ns created_disjoint [of k ps ns]
    by (simp add: key_mk o_def distinct_created_by distinct_map_filter) blast
  moreover have "find (\<lambda>x. k x = k p) ?xs = Some p" if "(p, n) \<in> set ?U" for p n
  proof -
    have "p \<in> set ps" "n \<in> set ns" "k p = k n" using that by (simp_all add: set_pairs_by [OF ns])
    then have p: "p \<in> set ?xs" by auto
    show ?thesis by (rule find_distinct_key [OF \<open>distinct (map k ?xs)\<close> p])
  qed
  ultimately have U_pre: "distinct (map k (filter (\<lambda>x. True) ?xs)) \<and> distinct (map (\<lambda>(p, n). k p) ?U)
       \<and> (\<forall>(p, n)\<in>set ?U. find (\<lambda>x. k x = k p) ?xs = Some p)"
    using distinct_pairs_by [OF ps] by auto
  have D_pre: "distinct (map k ?D) \<and> k ` set ?D \<subseteq> k ` set (create_all ?C ps)"
    using distinct_deleted_by [OF ps] deleted_subset [of "\<lambda>_. True" ps ps ns] by simp
  have C_pre: "distinct (map k ?C) \<and> k ` set ?C \<inter> k ` set ps = {}"
    using distinct_created_by [OF ns] created_disjoint [of k ps ns] by blast
  have "emits run get chg (append_opt (concat_map_opt rc ?C)
      (append_opt (concat_map_opt rd ?D) (concat_map_opt ru ?U)))
    (\<lambda>xs. xs = ps) (\<lambda>xs. update_all ?U (delete_all ?D (create_all ?C xs)))"
  proof (rule emits_append [where f = "create_all ?C" and Q = "\<lambda>xs. xs = create_all ?C ps"
        and g = "\<lambda>xs. update_all ?U (delete_all ?D xs)"])
    show "emits run get chg (concat_map_opt rc ?C) (\<lambda>xs. xs = ps) (create_all ?C)"
      using C C_pre by (auto intro: emits_weaken)
    show "emits run get chg (append_opt (concat_map_opt rd ?D) (concat_map_opt ru ?U))
        (\<lambda>xs. xs = create_all ?C ps) (\<lambda>xs. update_all ?U (delete_all ?D xs))"
    proof (rule emits_append [where f = "delete_all ?D", OF _ U])
      show "emits run get chg (concat_map_opt rd ?D) (\<lambda>xs. xs = create_all ?C ps) (delete_all ?D)"
        using D D_pre by (auto intro: emits_weaken)
    qed (use U_pre xs in simp)
  qed simp
  then show ?thesis
    by (rule emits_weaken) (simp_all add: phases_create_delete_update [OF ps ns])
qed

end

end
