(* ===== verification/Directive_Steps.thy ===== *)
theory Directive_Steps
  imports Schema_Parts Schema_Content Merge_Runs
begin

section \<open>Applying the steps for directives\<close>

text \<open>
  The steps the differ emits for the arguments of a directive and for the directives of an enum,
  a model or a field, run by the calculator. \<open>mk_..\<close> is the node a creating step makes, \<open>upd_..\<close>
  the effect of the steps for a pair of nodes; both keep names and produce the content of the next
  node, so \<open>keyed_merge\<close> gives the effect of a whole list of differences.
\<close>

abbreviation "arg_emits l \<equiv> emits_lens apply_step (args_get l) (args_modify l)"
abbreviation "dir_emits loc \<equiv> emits_lens apply_step (find_directives_mut loc) (modify_directives loc)"

abbreviation plain_loc :: "directive_type \<Rightarrow> string \<Rightarrow> directive_location" where
  "plain_loc loc n \<equiv> \<lparr>loc_location = loc, loc_directive = n, loc_arguments = None\<rparr>"

lemma emits_single:
  assumes "\<And>s a. get s = Some a \<Longrightarrow> P a \<Longrightarrow> apply_step x s = Inr (modify f s)"
  shows "emits_lens apply_step get modify (Some [x]) P f"
  using assms by (auto simp: emits_def)

subsection \<open>Arguments\<close>

definition mk_arg :: "argument \<Rightarrow> argument" where
  "mk_arg a = \<lparr>arg_name = new_ident (aname a), arg_value = reparse (arg_value a), arg_span = new_span\<rparr>"

definition upd_arg :: "argument \<Rightarrow> argument \<Rightarrow> argument \<Rightarrow> argument" where
  "upd_arg p n x =
     (if from_ast_expression (arg_value p) = from_ast_expression (arg_value n) then x
      else x\<lparr>arg_value := reparse (arg_value n)\<rparr>)"

interpretation args: keyed_merge aname mk_arg upd_arg
  by unfold_locales (simp_all add: mk_arg_def upd_arg_def)

interpretation args_run:
  part_merge "args_get l" "\<lambda>f s s'. s' = args_modify l f s" aname mk_arg upd_arg for l ..

definition merge_args :: "directive \<Rightarrow> directive \<Rightarrow> argument list" where
  "merge_args p n = merge_by aname mk_arg upd_arg (dir_arguments p) (dir_arguments n)"

lemma args_getE:
  assumes "args_get l s = Some as"
  obtains d where "find_directive_mut l s = Some d" "as = dir_arguments d"
  using assms by (auto simp: args_get_def)

lemma emits_created_argument:
  assumes "wf_argument a"
  shows "arg_emits l (push_created_directive_argument l a) P (\<lambda>as. as @ [mk_arg a])"
proof -
  obtain v where v: "from_ast_expression (arg_value a) = Some v" "to_ast_expression v = Some (reparse (arg_value a))"
    using assms unfolding wf_argument_def by (rule reparse_wf)
  have "arg_emits l (Some [CreateDirectiveArgument l (aname a) v]) P (\<lambda>as. as @ [mk_arg a])"
    by (rule emits_single)
      (auto elim!: args_getE simp: apply_create_directive_argument_def v args_modify_def mk_arg_def)
  then show ?thesis by (simp add: push_created_directive_argument_def v)
qed

lemma emits_deleted_argument:
  "arg_emits l (Some (push_deleted_directive_argument l n)) P (filter (\<lambda>a. aname a \<noteq> n))"
  unfolding push_deleted_directive_argument_def
  by (rule emits_single)
    (auto elim!: args_getE simp: apply_delete_directive_argument_def args_modify_def)

lemma map_opt_if:
  "map_opt (\<lambda>a. if p a then Some (f a) else Some a) xs = Some (map (\<lambda>a. if p a then f a else a) xs)"
  by (induction xs) simp_all

lemma emits_updated_argument:
  assumes "wf_argument p" "wf_argument n" "aname n = aname p"
  shows "arg_emits l (push_updated_directive_argument l p n) (\<lambda>as. distinct (map aname as))
    (update_first (\<lambda>x. aname x = aname p) (upd_arg p n))"
proof -
  obtain u where u: "from_ast_expression (arg_value p) = Some u"
    using assms(1) unfolding wf_argument_def by (rule reparse_wf)
  obtain v where v: "from_ast_expression (arg_value n) = Some v" "to_ast_expression v = Some (reparse (arg_value n))"
    using assms(2) unfolding wf_argument_def by (rule reparse_wf)
  show ?thesis
  proof (cases "u = v")
    case True
    then have "push_updated_directive_argument l p n = Some []"
      by (simp add: push_updated_directive_argument_def u v)
    moreover have "update_first (\<lambda>x. aname x = aname p) (upd_arg p n) = (\<lambda>as. as)"
      by (intro ext update_first_id) (simp add: upd_arg_def u v True)
    ultimately show ?thesis by (simp only: args_lens.emits_Nil)
  next
    case False
    have "apply_step (UpdateDirectiveArgument l (aname n) v) s =
        Inr (args_modify l (update_first (\<lambda>x. aname x = aname p) (upd_arg p n)) s)"
      if g: "args_get l s = Some as" and dist: "distinct (map aname as)" for s as
    proof -
      obtain d where d: "find_directive_mut l s = Some d" "as = dir_arguments d"
        using g by (rule args_getE)
      have eq: "map (\<lambda>a. if aname a = aname p then a\<lparr>arg_value := reparse (arg_value n)\<rparr> else a) as =
          update_first (\<lambda>x. aname x = aname p) (upd_arg p n) as"
        unfolding update_first_distinct [OF dist] using False by (simp add: upd_arg_def u v)
      have "apply_step (UpdateDirectiveArgument l (aname n) v) s =
          Inr (args_modify l (\<lambda>_. update_first (\<lambda>x. aname x = aname p) (upd_arg p n) as) s)"
        by (simp add: apply_update_directive_argument_def d(1) v(2) map_opt_if assms(3)
            d(2) [symmetric] eq args_modify_def cong: if_cong)
      also have "args_modify l (\<lambda>_. update_first (\<lambda>x. aname x = aname p) (upd_arg p n) as) s =
          args_modify l (update_first (\<lambda>x. aname x = aname p) (upd_arg p n)) s"
        by (rule args_lens.modify_cong [OF g]) simp
      finally show ?thesis .
    qed
    then have "arg_emits l (Some [UpdateDirectiveArgument l (aname n) v]) (\<lambda>as. distinct (map aname as))
        (update_first (\<lambda>x. aname x = aname p) (upd_arg p n))"
      by (rule emits_single)
    then show ?thesis by (simp add: push_updated_directive_argument_def u v False)
  qed
qed


text \<open>All steps for a directive present in both schemas.\<close>

lemma merge_args_content:
  assumes "wf_directive p" "wf_directive n"
  shows "mset (map arg_content (merge_args p n)) = mset (map arg_content (dir_arguments n))"
  unfolding merge_args_def
proof (rule args.merge_content)
  fix a assume "a \<in> set (dir_arguments n)"
  then have "wf_expression (arg_value a)"
    using assms(2) by (auto simp: wf_directive_def list_all_iff wf_argument_def)
  then show "arg_content (mk_arg a) = arg_content a"
    by (simp add: arg_content_def mk_arg_def from_ast_expression_reparse)
  fix b assume "b \<in> set (dir_arguments p)" "aname b = aname a"
  with \<open>wf_expression (arg_value a)\<close> show "arg_content (upd_arg b a b) = arg_content a"
    by (simp add: arg_content_def upd_arg_def from_ast_expression_reparse)
qed (use assms in \<open>simp_all add: wf_directive_def\<close>)

lemma emits_merge_args:
  assumes "wf_directive p" "wf_directive n"
  shows "arg_emits l
    (append_opt (concat_map_opt (push_created_directive_argument l) (created_arguments p n))
      (append_opt (concat_map_opt (\<lambda>(p, n). push_updated_directive_argument l p n) (argument_pairs p n))
        (Some (concat (map (\<lambda>a. push_deleted_directive_argument l (aname a)) (deleted_arguments p n))))))
    (\<lambda>as. as = dir_arguments p) (\<lambda>_. merge_args p n)"
proof -
  have "arg_emits l
    (append_opt (concat_map_opt (push_created_directive_argument l) (created_arguments p n))
      (append_opt (concat_map_opt (\<lambda>(p, n). push_updated_directive_argument l p n) (argument_pairs p n))
        (concat_map_opt (\<lambda>a. Some (push_deleted_directive_argument l (aname a))) (deleted_arguments p n))))
    (\<lambda>as. as = dir_arguments p) (\<lambda>_. merge_args p n)"
    unfolding differ_lists merge_args_def
  proof (rule args_run.emits_merge_cud, goal_cases)
    case (3 a)
    then show ?case
      using assms(2) by (intro emits_created_argument) (simp add: wf_directive_def list_all_iff)
  next
    case (4 a b)
    then have "arg_emits l (push_updated_directive_argument l a b) (\<lambda>as. distinct (map aname as))
        (update_first (\<lambda>x. aname x = aname a) (upd_arg a b))"
      using assms by (intro emits_updated_argument) (simp_all add: wf_directive_def list_all_iff)
    then show ?case
      unfolding prod.case by (rule args_lens.emits_weaken) simp_all
  next
    case (5 d)
    show ?case by (rule emits_deleted_argument)
  qed (use assms in \<open>simp_all add: wf_directive_def\<close>)
  then show ?thesis unfolding concat_map_opt_pure .
qed

subsection \<open>Directives\<close>

definition mk_dir :: "directive \<Rightarrow> directive" where
  "mk_dir d = \<lparr>dir_name = new_ident (dname d), dir_arguments = map mk_arg (dir_arguments d),
     dir_span = new_span\<rparr>"

definition upd_dir :: "directive \<Rightarrow> directive \<Rightarrow> directive \<Rightarrow> directive" where
  "upd_dir p n d = d\<lparr>dir_arguments := merge_args p n\<rparr>"

interpretation dirs: keyed_merge dname mk_dir upd_dir
  by unfold_locales (simp_all add: mk_dir_def upd_dir_def)

interpretation dirs_run:
  part_merge "find_directives_mut loc" "\<lambda>f s s'. s' = modify_directives loc f s" dname mk_dir upd_dir for loc ..

text \<open>Emitters for the arguments of the directive a location names, seen from the list.\<close>

lemma emits_args_in_directives:
  assumes "arg_emits (plain_loc loc n) r P f"
  shows "dir_emits loc r (\<lambda>ds. \<exists>d. find (\<lambda>d. dname d = n) ds = Some d \<and> P (dir_arguments d))
    (update_first (\<lambda>d. dname d = n) (\<lambda>d. d\<lparr>dir_arguments := f (dir_arguments d)\<rparr>))"
  using assms unfolding args_get_bind args_modify_first
  by (intro emits_element [where put = "\<lambda>d as. d\<lparr>dir_arguments := as\<rparr>"]) simp

lemma emits_created_directive:
  assumes "list_all wf_argument (dir_arguments d)"
  shows "dir_emits loc (push_created_directive loc d) (\<lambda>ds. dname d \<notin> dname ` set ds) (\<lambda>ds. ds @ [mk_dir d])"
proof -
  let ?l = "plain_loc loc (dname d)"
  let ?new = "\<lparr>dir_name = new_ident (dname d), dir_arguments = [], dir_span = new_span\<rparr>"
  have "dir_emits loc (Some [CreateDirective ?l]) (\<lambda>ds. dname d \<notin> dname ` set ds) (\<lambda>ds. ds @ [?new])"
    by (rule emits_single) (simp add: apply_create_directive_def)
  moreover have "arg_emits ?l (concat_map_opt (push_created_directive_argument ?l) (dir_arguments d))
      (\<lambda>_. True) (args.create_all (dir_arguments d))"
    using assms by (intro args_lens.emits_concat_map emits_created_argument) (simp_all add: list_all_iff)
  note emits_args_in_directives [OF this]
  ultimately have "dir_emits loc (push_created_directive loc d) (\<lambda>ds. dname d \<notin> dname ` set ds)
      (\<lambda>ds. update_first (\<lambda>e. dname e = dname d)
         (\<lambda>e. e\<lparr>dir_arguments := args.create_all (dir_arguments d) (dir_arguments e)\<rparr>) (ds @ [?new]))"
    unfolding push_created_directive_def Let_def
    by (rule directives_lens.emits_append) (auto simp: find_append split: option.split)
  then show ?thesis
    by (rule directives_lens.emits_weaken)
      (auto simp: update_first_append find_key_None_iff fold_append mk_dir_def)
qed

lemma emits_updated_directive:
  assumes "wf_directive p" "wf_directive n"
  shows "dir_emits loc (push_updated_directive loc (p, n)) (\<lambda>ds. find (\<lambda>d. dname d = dname p) ds = Some p)
    (update_first (\<lambda>d. dname d = dname p) (upd_dir p n))"
  using emits_args_in_directives [OF emits_merge_args [OF assms, of "plain_loc loc (dname p)"]]
  unfolding push_updated_directive_def prod.case Let_def
  by (rule directives_lens.emits_weaken) (auto intro: update_first_cong simp: upd_dir_def)

lemma emits_deleted_directive:
  "dir_emits loc (Some (push_deleted_directive loc d)) P (filter (\<lambda>x. dname x \<noteq> dname d))"
proof -
  have "filter_opt (\<lambda>x. map_option Not (matches_ast_directive (plain_loc loc (dname d)) x)) ds =
      Some (filter (\<lambda>x. dname x \<noteq> dname d) ds)" for ds
    by (rule filter_opt_Some) (auto simp: matches_ast_directive_def)
  then show ?thesis
    unfolding push_deleted_directive_def
    by (intro emits_single) (simp add: apply_delete_directive_def, rule directives_lens.modify_cong, simp_all)
qed


subsection \<open>Content of created and updated directives\<close>

lemma arg_content_mk: "wf_argument a \<Longrightarrow> arg_content (mk_arg a) = arg_content a"
  by (simp add: wf_argument_def arg_content_def mk_arg_def from_ast_expression_reparse)

lemma dir_content_mk: "wf_directive d \<Longrightarrow> dir_content (mk_dir d) = dir_content d"
  by (auto simp: dir_content_def mk_dir_def wf_directive_def list_all_iff arg_content_mk
      intro!: image_mset_cong arg_cong [where f = mset])

lemma map_dir_content_mk:
  "list_all wf_directive ds \<Longrightarrow> map dir_content (map mk_dir ds) = map dir_content ds"
  by (simp add: list_all_iff dir_content_mk)

lemma dir_content_upd:
  "wf_directive p \<Longrightarrow> wf_directive n \<Longrightarrow> dname p = dname n \<Longrightarrow> dir_content (upd_dir p n p) = dir_content n"
  using merge_args_content [of p n] by (simp add: dir_content_def upd_dir_def)

lemma wf_argument_mk: "wf_argument a \<Longrightarrow> wf_argument (mk_arg a)"
  by (simp add: wf_argument_def mk_arg_def wf_reparse)

lemma wf_directive_mk: "wf_directive d \<Longrightarrow> wf_directive (mk_dir d)"
  by (simp add: wf_directive_def mk_dir_def list_all_iff wf_argument_mk args.key_mk o_def)

lemma wf_directive_upd:
  assumes "wf_directive p" "wf_directive n"
  shows "wf_directive (upd_dir p n d)"
proof -
  have dist: "distinct (map aname (dir_arguments p))" "distinct (map aname (dir_arguments n))"
    and wf: "\<And>a. a \<in> set (dir_arguments p) \<union> set (dir_arguments n) \<Longrightarrow> wf_argument a"
    using assms by (auto simp: wf_directive_def list_all_iff)
  have "wf_argument x" if "x \<in> set (merge_args p n)" for x
    using dist(2) that unfolding merge_args_def
  proof (cases rule: args.merge_elem)
    case (1 a b)
    with wf have "wf_argument a" "wf_argument b" by auto
    with 1 show ?thesis by (simp add: upd_arg_def wf_argument_def wf_reparse)
  qed (use wf wf_argument_mk in auto)
  moreover have "distinct (map aname (merge_args p n))"
    unfolding merge_args_def by (rule args.merge_distinct [OF dist])
  ultimately show ?thesis by (simp add: wf_directive_def upd_dir_def list_all_iff)
qed

subsection \<open>Lists of directives\<close>

definition merge_dirs :: "directive list \<Rightarrow> directive list \<Rightarrow> directive list" where
  "merge_dirs ps ns = merge_by dname mk_dir upd_dir ps ns"

lemma merge_dirs_content:
  assumes "wf_directives ps" "wf_directives ns"
  shows "mset (map dir_content (merge_dirs ps ns)) = mset (map dir_content ns)"
  unfolding merge_dirs_def
  by (rule dirs.merge_content)
    (use assms in \<open>auto simp: wf_directives_def list_all_iff dir_content_mk dir_content_upd\<close>)

lemma wf_merge_dirs:
  assumes "wf_directives ps" "wf_directives ns"
  shows "wf_directives (merge_dirs ps ns)"
proof -
  have dist: "distinct (map dname ps)" "distinct (map dname ns)"
    and wf: "\<And>d. d \<in> set ps \<union> set ns \<Longrightarrow> wf_directive d"
    using assms by (auto simp: wf_directives_def list_all_iff)
  have "wf_directive x" if "x \<in> set (merge_dirs ps ns)" for x
    using dist(2) that unfolding merge_dirs_def
    by (cases rule: dirs.merge_elem) (use wf wf_directive_upd wf_directive_mk in auto)
  then show ?thesis
    using dirs.merge_distinct [OF dist] by (simp add: wf_directives_def merge_dirs_def list_all_iff)
qed

text \<open>
  The steps for the directives of a node present in both schemas. \<open>R\<close> is what sets these
  directives apart from others in the same list by their name.
\<close>

definition push_directive_changes ::
    "directive_type \<Rightarrow> directive list \<Rightarrow> directive list \<Rightarrow> migration_step list option" where
  "push_directive_changes loc ps ns =
     append_opt (push_created_directives loc (created_by dname ps ns))
       (append_opt (push_updated_directives loc (pairs_by dname ps ns))
         (Some (push_deleted_directives loc (deleted_by dname ps ns))))"

abbreviation change_dirs :: "directive list \<Rightarrow> directive list \<Rightarrow> directive list \<Rightarrow> directive list" where
  "change_dirs ps ns ds \<equiv> dirs.delete_all (deleted_by dname ps ns)
     (dirs.update_all (pairs_by dname ps ns) (dirs.create_all (created_by dname ps ns) ds))"

lemma emits_directive_changes:
  assumes ps: "wf_directives ps" and ns: "wf_directives ns" and R: "\<And>n. n \<in> set ns \<Longrightarrow> R (dname n)"
  shows "dir_emits loc (push_directive_changes loc ps ns) (\<lambda>ds. filter (\<lambda>d. R (dname d)) ds = ps)
    (change_dirs ps ns)"
  unfolding push_directive_changes_def push_created_directives_def push_updated_directives_def
    push_deleted_directives_def concat_map_opt_pure [symmetric]
proof (rule dirs_run.emits_create_update_delete, goal_cases)
  case (4 n)
  then have "list_all wf_argument (dir_arguments n)"
    using ns by (auto simp: wf_directives_def wf_directive_def list_all_iff)
  then show ?case by (rule emits_created_directive)
next
  case (5 p n)
  then have "wf_directive p" "wf_directive n"
    using ps ns by (auto simp: wf_directives_def list_all_iff)
  from emits_updated_directive [OF this] show ?case by (rule directives_lens.emits_weaken) simp_all
next
  case (6 d)
  show ?case by (rule emits_deleted_directive)
qed (use ps ns R in \<open>simp_all add: wf_directives_def\<close>)

lemma emits_merge_dirs:
  assumes ps: "wf_directives ps" and ns: "wf_directives ns"
  shows "dir_emits loc (push_directive_changes loc ps ns) (\<lambda>ds. ds = ps) (\<lambda>_. merge_dirs ps ns)"
  by (rule directives_lens.emits_weaken, rule emits_directive_changes [OF assms, where R = "\<lambda>_. True"])
    (use ps ns in \<open>simp_all add: wf_directives_def merge_dirs_def dirs.phases_create_update_delete\<close>)

lemma emits_new_directives:
  assumes "distinct (map dname ds)" "list_all wf_directive ds"
  shows "dir_emits loc (push_created_directives loc ds) (\<lambda>xs. xs = []) (\<lambda>_. map mk_dir ds)"
  unfolding push_created_directives_def
proof (rule directives_lens.emits_weaken, rule dirs_run.emits_create_all)
  fix d assume "d \<in> set ds"
  then show "dir_emits loc (push_created_directive loc d) (\<lambda>xs. dname d \<notin> dname ` set xs) (\<lambda>xs. xs @ [mk_dir d])"
    using assms by (intro emits_created_directive) (auto simp: list_all_iff wf_directive_def)
qed (use assms in \<open>simp_all add: fold_append\<close>)

end
