(* ===== verification/Enum_Steps.thy ===== *)
theory Enum_Steps
  imports Directive_Steps
begin

section \<open>Applying the steps for enums\<close>

text \<open>The steps the differ emits for enums, run by the calculator.\<close>

abbreviation "enum_emits n \<equiv> emits_lens apply_step (enum_get n) (enum_modify n)"
abbreviation "enums_emits \<equiv> emits apply_step (\<lambda>s. Some (enums s)) enums_changed"

lemma emits_dirs_in_enum:
  assumes "dir_emits (EnumLoc m) r P g"
  shows "enum_emits m r (\<lambda>b. P (snd b)) (\<lambda>b. (fst b, g (snd b)))"
  using assms unfolding find_directives_parts modify_directives_parts
  by (rule emits_component [where put = "\<lambda>b x. (fst b, x)"])

subsection \<open>Values\<close>

definition mk_value :: "enum_value \<Rightarrow> enum_value" where
  "mk_value v = \<lparr>value_name = value_name v, value_span = new_span\<rparr>"

interpretation vals: keyed_merge value_name mk_value "\<lambda>p n x. x"
  by unfold_locales (simp_all add: mk_value_def)

definition merge_values :: "ast_enum \<Rightarrow> ast_enum \<Rightarrow> enum_value list" where
  "merge_values p n = merge_by value_name mk_value (\<lambda>p n x. x) (enum_values p) (enum_values n)"

lemma merge_values_phases:
  "merge_values p n =
     filter (\<lambda>v. value_name v \<notin> value_name ` set (deleted_by value_name (enum_values p) (enum_values n)))
       (enum_values p @ map mk_value (created_by value_name (enum_values p) (enum_values n)))"
  unfolding merge_values_def merge_by_def filter_append vals.deleted_keys vals.deleted_created by simp

lemma merge_values_names:
  assumes "wf_enum p" "wf_enum n"
  shows "mset (map value_name (merge_values p n)) = mset (map value_name (enum_values n))"
    and "distinct (map value_name (merge_values p n))"
proof -
  have dist: "distinct (map value_name (enum_values p))" "distinct (map value_name (enum_values n))"
    using assms by (simp_all add: wf_enum_def)
  show "mset (map value_name (merge_values p n)) = mset (map value_name (enum_values n))"
    unfolding merge_values_def by (rule vals.merge_content [OF dist]) (simp_all add: mk_value_def)
  show "distinct (map value_name (merge_values p n))"
    unfolding merge_values_def by (rule vals.merge_distinct [OF dist])
qed

subsection \<open>Enums\<close>

definition mk_enum :: "ast_enum \<Rightarrow> ast_enum" where
  "mk_enum e = \<lparr>enum_name = new_ident (ename e), enum_values = map mk_value (enum_values e),
     enum_directives = map mk_dir (enum_directives e), enum_documentation = None,
     enum_span = new_span\<rparr>"

definition upd_enum :: "ast_enum \<Rightarrow> ast_enum \<Rightarrow> ast_enum \<Rightarrow> ast_enum" where
  "upd_enum p n x =
     put_enum_part x (merge_values p n, merge_dirs (enum_directives p) (enum_directives n))"

lemma ename_put_enum_part [simp]: "enum_name (put_enum_part e b) = enum_name e"
  by (simp add: put_enum_part_def)

interpretation enms: keyed_merge ename mk_enum upd_enum
  by unfold_locales (simp_all add: mk_enum_def upd_enum_def)

interpretation enms_run:
  part_merge "\<lambda>s. Some (enums s)" enums_changed ename mk_enum upd_enum ..

lemma enum_content_mk: "wf_enum e \<Longrightarrow> enum_content (mk_enum e) = enum_content e"
proof -
  assume "wf_enum e"
  then have "map dir_content (map mk_dir (enum_directives e)) = map dir_content (enum_directives e)"
    by (intro map_dir_content_mk) (simp add: wf_enum_def wf_directives_def)
  moreover have "map value_name (map mk_value vs) = map value_name vs" for vs
    by (simp add: mk_value_def)
  ultimately show ?thesis
    by (simp add: enum_content_def mk_enum_def del: mset_map map_map)
qed

lemma enum_content_upd:
  "wf_enum p \<Longrightarrow> wf_enum n \<Longrightarrow> ename p = ename n \<Longrightarrow> enum_content (upd_enum p n p) = enum_content n"
  using merge_dirs_content [of "enum_directives p" "enum_directives n"]
  by (simp add: enum_content_def upd_enum_def put_enum_part_def merge_values_names wf_enum_def del: mset_map)

lemma wf_enum_mk: "wf_enum e \<Longrightarrow> wf_enum (mk_enum e)"
  by (simp add: wf_enum_def wf_directives_def mk_enum_def mk_value_def dirs.key_mk o_def list_all_iff
      wf_directive_mk)

lemma wf_enum_upd: "wf_enum p \<Longrightarrow> wf_enum n \<Longrightarrow> wf_enum (upd_enum p n x)"
  by (simp add: wf_enum_def upd_enum_def put_enum_part_def wf_merge_dirs merge_values_names(2))


subsection \<open>The steps\<close>

lemma emits_create_enum_step:
  "enums_emits (Some [CreateEnum n vs]) (\<lambda>es. n \<notin> ename ` set es)
     (\<lambda>es. es @ [\<lparr>enum_name = new_ident n,
        enum_values = map (\<lambda>v. \<lparr>value_name = v, value_span = new_span\<rparr>) vs,
        enum_directives = [], enum_documentation = None, enum_span = new_span\<rparr>])"
proof -
  have "find_enum s n = None" if "n \<notin> ename ` set (enums s)" for s
    using that unfolding find_enum_def find_key_None_iff .
  then show ?thesis
    by (simp add: emits_def apply_create_enum_def enums_changed_def)
      (simp add: enums_def map_filter_append List.map_filter_simps)
qed

lemma emits_delete_enum_step:
  "enums_emits (Some [DeleteEnum n]) (\<lambda>es. n \<in> ename ` set es) (filter (\<lambda>e. ename e \<noteq> n))"
proof -
  have found: "\<exists>e. find_enum s n = Some e" if "n \<in> ename ` set (enums s)" for s
    using that find_key_None_iff [of ename n "enums s"] unfolding find_enum_def by auto
  have "List.map_filter as_enum (filter (\<lambda>t. case t of TopEnum e \<Rightarrow> ename e \<noteq> n | _ \<Rightarrow> True) ts) =
      filter (\<lambda>e. ename e \<noteq> n) (List.map_filter as_enum ts)" for ts
    by (induction ts) (auto simp: List.map_filter_simps split: top.split)
  moreover have "filter (\<lambda>t. as_enum t = None) (filter (\<lambda>t. case t of TopEnum e \<Rightarrow> ename e \<noteq> n | _ \<Rightarrow> True) ts) =
      filter (\<lambda>t. as_enum t = None) ts" for ts
    by (induction ts) (auto split: top.split)
  ultimately have "enums_changed (filter (\<lambda>e. ename e \<noteq> n)) s
      (s\<lparr>tops := filter (\<lambda>t. case t of TopEnum e \<Rightarrow> ename e \<noteq> n | _ \<Rightarrow> True) (tops s)\<rparr>)" for s
    unfolding enums_changed_def enums_def by simp
  then show ?thesis
    by (auto simp: emits_def apply_delete_enum_def dest!: found)
qed

lemma emits_update_enum_step:
  "enum_emits n (Some [UpdateEnum n None cs ds]) P
     (\<lambda>b. (filter (\<lambda>v. value_name v \<notin> set ds)
        (fst b @ map (\<lambda>v. \<lparr>value_name = v, value_span = new_span\<rparr>) cs), snd b))"
proof (rule emits_single)
  fix s b assume "enum_get n s = Some b"
  then obtain e where "find_enum s n = Some e" by (auto simp: enum_get_def)
  moreover have "find (\<lambda>r. r = v) ds = None \<longleftrightarrow> v \<notin> set ds" for v :: string
    using find_key_None_iff [of "\<lambda>x. x" v ds] by simp
  ultimately show "apply_step (UpdateEnum n None cs ds) s = Inr (enum_modify n
      (\<lambda>b. (filter (\<lambda>v. value_name v \<notin> set ds)
        (fst b @ map (\<lambda>v. \<lparr>value_name = v, value_span = new_span\<rparr>) cs), snd b)) s)"
    by (simp add: apply_update_enum_def find_mut_eq enum_modify_def put_enum_part_def enum_part_def
        add_enum_values_def remove_enum_values_def)
qed

lemma emits_created_enum:
  assumes wf: "wf_enum e"
  shows "enums_emits (push_created_enum e) (\<lambda>es. ename e \<notin> ename ` set es) (\<lambda>es. es @ [mk_enum e])"
proof -
  let ?n = "ename e"
  have "enum_emits ?n (push_created_directives (EnumLoc ?n) (enum_directives e)) (\<lambda>b. snd b = [])
      (\<lambda>b. (fst b, map mk_dir (enum_directives e)))"
    using wf by (intro emits_dirs_in_enum emits_new_directives) (simp_all add: wf_enum_def wf_directives_def)
  note D = emits_enums [OF this]
  note all = enums_part.emits_append [OF emits_create_enum_step [of ?n "map value_name (enum_values e)"] D]
  show ?thesis
    unfolding push_created_enum_def
    by (rule enums_part.emits_weaken, rule all)
      (simp_all add: find_fresh enum_part_def update_first_fresh mk_enum_def put_enum_part_def mk_value_def [abs_def] o_def)
qed

lemma emits_updated_enum:
  assumes wf: "wf_enum p" "wf_enum n" and name: "ename n = ename p"
  shows "enums_emits (push_updated_enum (p, n)) (\<lambda>es. find (\<lambda>e. ename e = ename p) es = Some p)
    (update_first (\<lambda>e. ename e = ename p) (upd_enum p n))"
proof -
  let ?n = "ename p" and ?loc = "EnumLoc (ename p)"
  let ?C = "created_by value_name (enum_values p) (enum_values n)"
    and ?D = "deleted_by value_name (enum_values p) (enum_values n)"
  have vals: "enum_emits ?n (Some (if update_enum_is_any_option_set None (map value_name ?C) (map value_name ?D)
      then [UpdateEnum ?n None (map value_name ?C) (map value_name ?D)] else []))
      (\<lambda>b. b = enum_part p) (\<lambda>_. (merge_values p n, enum_directives p))"
  proof (cases "update_enum_is_any_option_set None (map value_name ?C) (map value_name ?D)")
    case True
    then show ?thesis
      by (simp, intro enum_lens.emits_weaken [OF emits_update_enum_step])
        (simp_all add: enum_part_def merge_values_phases mk_value_def [abs_def] o_def)
  next
    case False
    then have "?C = []" "?D = []" by (simp_all add: update_enum_is_any_option_set_def)
    then have "merge_values p n = enum_values p" by (simp add: merge_values_phases)
    with False show ?thesis
      by (simp, intro enum_lens.emits_weaken [OF enum_lens.emits_Nil]) (simp_all add: enum_part_def)
  qed
  have dirs: "enum_emits ?n (push_directive_changes ?loc (enum_directives p) (enum_directives n))
      (\<lambda>b. snd b = enum_directives p) (\<lambda>b. (fst b, merge_dirs (enum_directives p) (enum_directives n)))"
    using wf by (intro emits_dirs_in_enum emits_merge_dirs) (simp_all add: wf_enum_def)
  have nm: "diff_value (ename p) (ename n) = None" using name by (simp add: diff_value_def)
  have "enum_emits ?n (push_updated_enum (p, n)) (\<lambda>b. b = enum_part p)
      (\<lambda>_. (merge_values p n, merge_dirs (enum_directives p) (enum_directives n)))"
    unfolding push_updated_enum_def prod.case Let_def differ_lists nm push_directive_changes_def [symmetric]
    using enum_lens.emits_append [OF vals dirs] by simp
  note emits_enums [OF this]
  then show ?thesis
    by (rule enums_part.emits_weaken) (auto intro!: update_first_cong_find simp: upd_enum_def)
qed

definition merge_enums :: "ast_enum list \<Rightarrow> ast_enum list \<Rightarrow> ast_enum list" where
  "merge_enums ps ns = merge_by ename mk_enum upd_enum ps ns"

lemma emits_enum_changes:
  assumes p: "distinct (map ename (enums p))" "list_all wf_enum (enums p)"
    and n: "distinct (map ename (enums n))" "list_all wf_enum (enums n)"
  shows "enums_emits (push_enums p n) (\<lambda>es. es = enums p) (\<lambda>_. merge_enums (enums p) (enums n))"
proof -
  have del: "Some (push_deleted_enums ds) = concat_map_opt (\<lambda>e. Some [DeleteEnum (ename e)]) ds" for ds
    by (simp add: concat_map_opt_pure push_deleted_enums_def)
  show ?thesis
    unfolding push_enums_def differ_lists push_created_enums_def push_updated_enums_def del merge_enums_def
  proof (rule enms_run.emits_merge_cdu, goal_cases)
    case (3 e)
    with n(2) show ?case by (intro emits_created_enum) (simp add: list_all_iff)
  next
    case (4 x y)
    with p(2) n(2) have "enums_emits (push_updated_enum (x, y))
        (\<lambda>es. find (\<lambda>e. ename e = ename x) es = Some x) (update_first (\<lambda>e. ename e = ename x) (upd_enum x y))"
      by (intro emits_updated_enum) (simp_all add: list_all_iff)
    then show ?case by (rule enums_part.emits_weaken) simp_all
  next
    case (5 e)
    show ?case by (rule emits_delete_enum_step)
  qed (use p n in simp_all)
qed

end
