(* ===== verification/Repeated_Directives.thy ===== *)
theory Repeated_Directives
  imports Directive_Steps
begin

section \<open>Repeated directives\<close>

text \<open>
  The directives \<open>@@unique\<close> and \<open>@@index\<close> may occur several times on a model. The differ compares
  them with their arguments and the calculator deletes them by an exact match. Both comparisons
  decide equality of content; so the steps replace exactly what differs.
\<close>

subsection \<open>Exact comparison is equality of content\<close>

lemma mset_eq_subset:
  assumes "distinct xs" "distinct ys" "length xs = length ys"
  shows "mset xs = mset ys \<longleftrightarrow> set xs \<subseteq> set ys"
proof
  assume sub: "set xs \<subseteq> set ys"
  have "card (set xs) = card (set ys)"
    using assms by (simp add: distinct_card)
  with sub have "set xs = set ys" by (simp add: card_subset_eq)
  then show "mset xs = mset ys" using assms(1,2) by (simp add: set_eq_iff_mset_eq_distinct)
qed (metis mset_eq_setD subset_refl)

lemma distinct_arg_content: "wf_directive d \<Longrightarrow> distinct (map arg_content (dir_arguments d))"
proof -
  assume "wf_directive d"
  moreover have "map aname (dir_arguments d) = map fst (map arg_content (dir_arguments d))"
    by (simp add: arg_content_def)
  ultimately show ?thesis unfolding wf_directive_def by (metis distinct_map)
qed

lemma mset_arg_content_eq:
  assumes "wf_directive p" "wf_directive n" "length (dir_arguments p) = length (dir_arguments n)"
  shows "mset (map arg_content (dir_arguments p)) = mset (map arg_content (dir_arguments n)) \<longleftrightarrow>
    (\<forall>a\<in>set (dir_arguments p). \<exists>b\<in>set (dir_arguments n). arg_content a = arg_content b)"
proof -
  let ?P = "map arg_content (dir_arguments p)" and ?N = "map arg_content (dir_arguments n)"
  have "mset ?P = mset ?N \<longleftrightarrow> set ?P \<subseteq> set ?N"
    by (rule mset_eq_subset) (use assms distinct_arg_content in simp_all)
  also have "\<dots> \<longleftrightarrow> (\<forall>a\<in>set (dir_arguments p). \<exists>b\<in>set (dir_arguments n). arg_content a = arg_content b)"
    by auto
  finally show ?thesis .
qed

lemma wf_argument_renders: "wf_argument a \<Longrightarrow> \<exists>v. from_ast_expression (arg_value a) = Some v"
  by (simp add: wf_argument_def from_ast_expression_wf)

lemma arguments_are_identical_eq:
  "wf_argument p \<Longrightarrow> wf_argument n \<Longrightarrow>
    arguments_are_identical p n = Some (arg_content p = arg_content n)"
  by (drule wf_argument_renders)+ (auto simp: arguments_are_identical_def arg_content_def)

lemma directives_are_identical_eq:
  assumes "wf_directive p" "wf_directive n"
  shows "directives_are_identical p n = Some (dir_content p = dir_content n)"
proof (cases "dname p = dname n \<and> length (dir_arguments p) = length (dir_arguments n)")
  case True
  have wf: "\<And>a. a \<in> set (dir_arguments p) \<union> set (dir_arguments n) \<Longrightarrow> wf_argument a"
    using assms by (auto simp: wf_directive_def list_all_iff)
  have "any_opt (arguments_are_identical a) (dir_arguments n) =
      Some (\<exists>b\<in>set (dir_arguments n). arg_content a = arg_content b)" if "a \<in> set (dir_arguments p)" for a
    using wf that by (intro any_opt_Some) (simp add: arguments_are_identical_eq)
  then have "all_opt (\<lambda>a. any_opt (arguments_are_identical a) (dir_arguments n)) (dir_arguments p) =
      Some (\<forall>a\<in>set (dir_arguments p). \<exists>b\<in>set (dir_arguments n). arg_content a = arg_content b)"
    by (rule all_opt_Some)
  with True mset_arg_content_eq [OF assms] show ?thesis
    by (simp add: directives_are_identical_def dir_content_def)
next
  case False
  then have "dir_content p \<noteq> dir_content n"
    by (auto simp: dir_content_def dest: arg_cong [where f = size])
  with False show ?thesis by (auto simp: directives_are_identical_def)
qed

abbreviation exact_loc :: "directive_type \<Rightarrow> string \<Rightarrow> step_argument list \<Rightarrow> directive_location" where
  "exact_loc loc n args \<equiv> \<lparr>loc_location = loc, loc_directive = n, loc_arguments = Some args\<rparr>"

definition step_arg :: "argument \<Rightarrow> step_argument" where
  "step_arg a = \<lparr>sarg_name = aname a, sarg_value = the (from_ast_expression (arg_value a))\<rparr>"

lemma step_argument_from_wf: "wf_argument a \<Longrightarrow> step_argument_from a = Some (step_arg a)"
  by (drule wf_argument_renders) (auto simp: step_argument_from_def step_arg_def)

lemma step_argument_into_wf:
  assumes "wf_argument a"
  shows "step_argument_into (step_arg a) = Some (mk_arg a)"
proof -
  obtain v where "from_ast_expression (arg_value a) = Some v" "to_ast_expression v = Some (reparse (arg_value a))"
    using assms unfolding wf_argument_def by (rule reparse_wf)
  then show ?thesis
    by (simp add: step_argument_into_def step_arg_def mk_arg_def new_ident_def ident_new_def new_span_def)
qed

lemma matches_ast_argument_eq:
  "wf_argument a \<Longrightarrow> wf_argument b \<Longrightarrow>
    matches_ast_argument (step_arg b) a = Some (arg_content a = arg_content b)"
  by (drule wf_argument_renders)+ (auto simp: matches_ast_argument_def step_arg_def arg_content_def)

lemma any_opt_map: "any_opt f (map h xs) = any_opt (\<lambda>x. f (h x)) xs"
  by (induction xs) (simp_all cong: if_cong)

lemma matches_ast_directive_eq:
  assumes "wf_directive x" "wf_directive d"
  shows "matches_ast_directive (exact_loc loc (dname d) (map step_arg (dir_arguments d))) x =
    Some (dir_content x = dir_content d)"
proof (cases "dname x = dname d \<and> length (dir_arguments x) = length (dir_arguments d)")
  case True
  have wf: "\<And>a. a \<in> set (dir_arguments x) \<union> set (dir_arguments d) \<Longrightarrow> wf_argument a"
    using assms by (auto simp: wf_directive_def list_all_iff)
  have "any_opt (\<lambda>sa. matches_ast_argument sa a) (map step_arg (dir_arguments d)) =
      Some (\<exists>b\<in>set (dir_arguments d). arg_content a = arg_content b)" if "a \<in> set (dir_arguments x)" for a
    unfolding any_opt_map
    using wf that by (intro any_opt_Some) (simp add: matches_ast_argument_eq)
  then have "all_opt (\<lambda>a. any_opt (\<lambda>sa. matches_ast_argument sa a) (map step_arg (dir_arguments d)))
      (dir_arguments x) =
      Some (\<forall>a\<in>set (dir_arguments x). \<exists>b\<in>set (dir_arguments d). arg_content a = arg_content b)"
    by (rule all_opt_Some)
  with True mset_arg_content_eq [OF assms] show ?thesis
    by (simp add: matches_ast_directive_def dir_content_def)
next
  case False
  then have "dir_content x \<noteq> dir_content d"
    by (auto simp: dir_content_def dest: arg_cong [where f = size])
  with False show ?thesis by (auto simp: matches_ast_directive_def)
qed


subsection \<open>The steps\<close>

lemma wf_dir_args: "wf_directive d \<Longrightarrow> a \<in> set (dir_arguments d) \<Longrightarrow> wf_argument a"
  by (simp add: wf_directive_def list_all_iff)

lemma emits_created_exact:
  assumes "wf_directive d"
  shows "dir_emits loc (push_created_directive_with_arguments loc d) P (\<lambda>ds. ds @ [mk_dir d])"
proof -
  have "map_opt step_argument_from (dir_arguments d) = Some (map step_arg (dir_arguments d))"
    using wf_dir_args [OF assms] by (intro map_opt_Some step_argument_from_wf)
  moreover have "map_opt step_argument_into (map step_arg (dir_arguments d)) = Some (map mk_arg (dir_arguments d))"
    unfolding map_opt_map using wf_dir_args [OF assms] by (intro map_opt_Some step_argument_into_wf)
  ultimately show ?thesis
    unfolding push_created_directive_with_arguments_def
    by (simp, intro emits_single) (simp add: apply_create_directive_def mk_dir_def)
qed

lemma emits_deleted_exact:
  assumes "wf_directive d"
  shows "dir_emits loc (push_deleted_directive_with_arguments loc d) (list_all wf_directive)
    (filter (\<lambda>x. dir_content x \<noteq> dir_content d))"
proof -
  let ?l = "exact_loc loc (dname d) (map step_arg (dir_arguments d))"
  have "map_opt step_argument_from (dir_arguments d) = Some (map step_arg (dir_arguments d))"
    using wf_dir_args [OF assms] by (intro map_opt_Some step_argument_from_wf)
  moreover have "filter_opt (\<lambda>x. map_option Not (matches_ast_directive ?l x)) ds =
      Some (filter (\<lambda>x. dir_content x \<noteq> dir_content d) ds)" if "list_all wf_directive ds" for ds
    using that assms by (intro filter_opt_Some) (simp add: list_all_iff matches_ast_directive_eq)
  ultimately show ?thesis
    unfolding push_deleted_directive_with_arguments_def
    by (simp, intro emits_single)
      (simp add: apply_delete_directive_def, rule directives_lens.modify_cong, simp_all)
qed

definition push_repeated_changes :: "directive_type \<Rightarrow> ast_model \<Rightarrow> ast_model \<Rightarrow> migration_step list option" where
  "push_repeated_changes loc previous next =
     append_opt
       (Option.bind (created_repeated_directives previous next)
          (concat_map_opt (push_created_directive_with_arguments loc)))
       (Option.bind (deleted_repeated_directives previous next)
          (concat_map_opt (push_deleted_directive_with_arguments loc)))"

abbreviation repeated :: "ast_model \<Rightarrow> directive list" where
  "repeated m \<equiv> filter is_repeated (model_directives m)"

lemma created_repeated_eq:
  assumes "list_all wf_directive (model_directives p)" "list_all wf_directive (model_directives n)"
  shows "created_repeated_directives p n = Some (created_by dir_content (repeated p) (repeated n))"
proof -
  have "any_opt (\<lambda>d. directives_are_identical d x) (repeated p) =
      Some (\<exists>d\<in>set (repeated p). dir_content d = dir_content x)" if "x \<in> set (repeated n)" for x
    using assms that by (intro any_opt_Some) (simp add: list_all_iff directives_are_identical_eq)
  then show ?thesis
    unfolding created_repeated_directives_def created_by_def
    by (intro filter_opt_Some) (auto simp: image_iff)
qed

lemma deleted_repeated_eq:
  assumes "list_all wf_directive (model_directives p)" "list_all wf_directive (model_directives n)"
  shows "deleted_repeated_directives p n = Some (deleted_by dir_content (repeated p) (repeated n))"
proof -
  have "any_opt (\<lambda>d. directives_are_identical x d) (repeated n) =
      Some (\<exists>d\<in>set (repeated n). dir_content x = dir_content d)" if "x \<in> set (repeated p)" for x
    using assms that by (intro any_opt_Some) (simp add: list_all_iff directives_are_identical_eq)
  then show ?thesis
    unfolding deleted_repeated_directives_def deleted_by_def
    by (intro filter_opt_Some) (auto simp: image_iff)
qed

definition change_repeated :: "directive list \<Rightarrow> directive list \<Rightarrow> directive list \<Rightarrow> directive list" where
  "change_repeated ps ns ds =
     filter (\<lambda>x. dir_content x \<notin> dir_content ` set (deleted_by dir_content ps ns))
       (ds @ map mk_dir (created_by dir_content ps ns))"

lemma emits_repeated_changes:
  assumes "list_all wf_directive (model_directives p)" "list_all wf_directive (model_directives n)"
  shows "dir_emits loc (push_repeated_changes loc p n) (list_all wf_directive)
    (change_repeated (repeated p) (repeated n))"
proof -
  let ?C = "created_by dir_content (repeated p) (repeated n)"
  let ?D = "deleted_by dir_content (repeated p) (repeated n)"
  have wf: "wf_directive d" if "d \<in> set ?C \<union> set ?D" for d
    using that assms by (auto simp: created_by_def deleted_by_def list_all_iff)
  have C: "dir_emits loc (concat_map_opt (push_created_directive_with_arguments loc) ?C)
      (list_all wf_directive) (fold (\<lambda>d ds. ds @ [mk_dir d]) ?C)"
    by (rule directives_lens.emits_concat_map)
      (use wf in \<open>auto intro!: emits_created_exact wf_directive_mk\<close>)
  have D: "dir_emits loc (concat_map_opt (push_deleted_directive_with_arguments loc) ?D)
      (list_all wf_directive) (fold (\<lambda>d. filter (\<lambda>x. dir_content x \<noteq> dir_content d)) ?D)"
  proof (rule directives_lens.emits_concat_map [where I = "\<lambda>_. list_all wf_directive"], goal_cases)
    case (1 d ys)
    with wf show ?case by (intro emits_deleted_exact) simp
  qed (auto simp: list_all_iff)
  have "dir_emits loc (push_repeated_changes loc p n) (list_all wf_directive)
      (\<lambda>ds. fold (\<lambda>d. filter (\<lambda>x. dir_content x \<noteq> dir_content d)) ?D (fold (\<lambda>d ds. ds @ [mk_dir d]) ?C ds))"
    unfolding push_repeated_changes_def created_repeated_eq [OF assms] deleted_repeated_eq [OF assms]
      bind.bind_lunit
    by (rule directives_lens.emits_append [OF C D])
      (use wf wf_directive_mk in \<open>auto simp: fold_append list_all_iff\<close>)
  then show ?thesis
    by (rule directives_lens.emits_weaken) (simp_all add: fold_append fold_filter_key change_repeated_def)
qed


subsection \<open>Content of the changed list\<close>

lemma dir_content_repeated: "dir_content x = dir_content d \<Longrightarrow> is_repeated x = is_repeated d"
  by (simp add: dir_content_def is_repeated_def)

lemma is_repeated_mk [simp]: "is_repeated (mk_dir d) = is_repeated d"
  by (simp add: is_repeated_def dirs.key_mk)

lemma regular_not_deleted:
  assumes "list_all is_repeated ps" "is_regular x"
  shows "dir_content x \<notin> dir_content ` set (deleted_by dir_content ps ns)"
proof
  assume "dir_content x \<in> dir_content ` set (deleted_by dir_content ps ns)"
  then obtain d where "d \<in> set ps" "dir_content x = dir_content d" by (auto simp: deleted_by_def)
  then show False
    using assms dir_content_repeated [of x d] by (simp add: is_regular_def list_all_iff)
qed

lemma change_repeated_regular:
  assumes "list_all is_repeated ps" "list_all is_repeated ns"
  shows "filter is_regular (change_repeated ps ns ds) = filter is_regular ds"
proof -
  have "filter is_regular (map mk_dir (created_by dir_content ps ns)) = []"
    using assms(2) by (auto simp: filter_empty_conv is_regular_def created_by_def list_all_iff)
  moreover have "filter is_regular (change_repeated ps ns ds) =
      filter is_regular (ds @ map mk_dir (created_by dir_content ps ns))"
    unfolding change_repeated_def
    by (rule filter_filter_implies) (rule regular_not_deleted [OF assms(1)])
  ultimately show ?thesis by simp
qed

lemma kept_created_keys:
  "set (map k (filter (\<lambda>x. k x \<in> k ` set ns) ps) @ map k (created_by k ps ns)) = k ` set ns"
proof -
  have "k ` {x \<in> set ps. k x \<in> A} = k ` set ps \<inter> A" for A by auto
  moreover have "k ` set (created_by k ps ns) = k ` set ns - k ` set ps" by (auto simp: created_by_def)
  ultimately show ?thesis by auto
qed

lemma change_repeated_content:
  assumes ps: "distinct (map dir_content ps)" "list_all is_repeated ps"
    and ns: "distinct (map dir_content ns)" "list_all is_repeated ns" "list_all wf_directive ns"
    and ds: "filter is_repeated ds = ps"
  shows "mset (map dir_content (filter is_repeated (change_repeated ps ns ds))) = mset (map dir_content ns)"
    and "distinct (map dir_content (filter is_repeated (change_repeated ps ns ds)))"
proof -
  let ?C = "created_by dir_content ps ns" and ?D = "deleted_by dir_content ps ns"
  have mk: "map (\<lambda>d. dir_content (mk_dir d)) ?C = map dir_content ?C"
    using ns(3) by (auto simp: set_created_by list_all_iff dir_content_mk)
  have C: "dir_content n \<notin> dir_content ` set ?D" if "n \<in> set ?C" for n
    using that by (auto simp: created_by_def deleted_by_def image_iff)
  have "filter is_repeated (change_repeated ps ns ds) =
      filter (\<lambda>x. dir_content x \<notin> dir_content ` set ?D) (ps @ map mk_dir ?C)"
  proof -
    have "filter is_repeated (map mk_dir ?C) = map mk_dir ?C"
      using ns(2) by (simp add: filter_id_conv set_created_by list_all_iff)
    then have "filter is_repeated (ds @ map mk_dir ?C) = ps @ map mk_dir ?C" by (simp add: ds)
    moreover have "filter is_repeated (filter q xs) = filter q (filter is_repeated xs)" for q xs
      by (simp add: conj_commute)
    ultimately show ?thesis unfolding change_repeated_def by (simp only:)
  qed
  also have "map dir_content \<dots> = map dir_content (filter (\<lambda>x. dir_content x \<in> dir_content ` set ns) ps)
      @ map dir_content ?C"
  proof -
    have "filter (\<lambda>x. dir_content x \<notin> dir_content ` set ?D) ps =
        filter (\<lambda>x. dir_content x \<in> dir_content ` set ns) ps"
      by (rule filter_cong) (auto simp: deleted_by_def)
    moreover have "map dir_content (filter (\<lambda>x. dir_content x \<notin> dir_content ` set ?D) (map mk_dir ?C)) =
        map dir_content ?C"
    proof -
      have "dir_content (mk_dir n) = dir_content n" if "n \<in> set ?C" for n
        using that ns(3) by (simp add: set_created_by list_all_iff dir_content_mk)
      then have "filter (\<lambda>x. dir_content x \<notin> dir_content ` set ?D) (map mk_dir ?C) = map mk_dir ?C"
        using C by (simp add: filter_id_conv)
      then show ?thesis using mk by (simp add: o_def)
    qed
    ultimately show ?thesis by simp
  qed
  finally have eq: "map dir_content (filter is_repeated (change_repeated ps ns ds)) =
      map dir_content (filter (\<lambda>x. dir_content x \<in> dir_content ` set ns) ps) @ map dir_content ?C" .
  have dist: "distinct (map dir_content (filter is_repeated (change_repeated ps ns ds)))"
    unfolding eq using ps(1) ns(1) created_disjoint [of dir_content ps ns]
    by (auto simp: distinct_map_filter distinct_created_by)
  show "distinct (map dir_content (filter is_repeated (change_repeated ps ns ds)))" by (rule dist)
  have "set (map dir_content (filter is_repeated (change_repeated ps ns ds))) = set (map dir_content ns)"
    unfolding eq by (simp only: kept_created_keys set_map)
  then show "mset (map dir_content (filter is_repeated (change_repeated ps ns ds))) = mset (map dir_content ns)"
    using dist ns(1) by (intro set_eq_iff_mset_eq_distinct [THEN iffD1])
qed

lemma wf_change_repeated:
  "list_all wf_directive ds \<Longrightarrow> list_all wf_directive ns \<Longrightarrow> list_all wf_directive (change_repeated ps ns ds)"
  by (auto simp: change_repeated_def list_all_iff set_created_by wf_directive_mk)

end
