(* ===== verification/Model_Steps.thy ===== *)
theory Model_Steps
  imports Repeated_Directives
begin

section \<open>Applying the steps for fields and models\<close>

text \<open>
  The steps the differ emits for fields and models, run by the calculator, built on the results
  for directives. \<open>mk_..\<close> and \<open>upd_..\<close> are again the nodes that creating and updating steps make.
\<close>

abbreviation "field_emits m f \<equiv> emits_lens apply_step (field_get m f) (field_modify m f)"
abbreviation "fields_emits m \<equiv> emits_lens apply_step (fields_get m) (fields_modify m)"
abbreviation "model_emits m \<equiv> emits_lens apply_step (model_get m) (model_modify m)"
abbreviation "models_emits \<equiv> emits apply_step (\<lambda>s. Some (models s)) models_changed"

text \<open>Emitters for a part are emitters for the part that contains it.\<close>

lemma emits_dirs_in_field:
  assumes "dir_emits (FieldLoc m f) r P g"
  shows "field_emits m f r (\<lambda>b. P (snd (snd b))) (\<lambda>b. (fst b, fst (snd b), g (snd (snd b))))"
  using assms unfolding find_directives_parts modify_directives_parts
  by (rule emits_component [where put = "\<lambda>b x. (fst b, fst (snd b), x)"])

lemma emits_dirs_in_model:
  assumes "dir_emits (ModelLoc m) r P g"
  shows "model_emits m r (\<lambda>b. P (snd b)) (\<lambda>b. (fst b, g (snd b)))"
  using assms unfolding find_directives_parts modify_directives_parts
  by (rule emits_component [where put = "\<lambda>b x. (fst b, x)"])

lemma emits_fields_in_model:
  assumes "fields_emits m r P g"
  shows "model_emits m r (\<lambda>b. P (fst b)) (\<lambda>b. (g (fst b), snd b))"
  using assms unfolding fields_get_def fields_modify_def
  by (rule emits_component [where put = "\<lambda>b x. (x, snd b)"])

lemma emits_field_in_fields:
  assumes "field_emits m f r P g"
  shows "fields_emits m r (\<lambda>fs. \<exists>x. find (\<lambda>x. fname x = f) fs = Some x \<and> P (field_part x))
    (update_first (\<lambda>x. fname x = f) (\<lambda>x. put_field_part x (g (field_part x))))"
  using assms unfolding field_get_def field_modify_def by (rule emits_element)

subsection \<open>Fields\<close>

definition mk_field :: "ast_field \<Rightarrow> ast_field" where
  "mk_field f = \<lparr>field_type = new_ident (ident_name (field_type f)), field_name = new_ident (fname f),
     field_arity = field_arity f, field_default_value = None,
     field_directives = map mk_dir (field_directives f), field_documentation = None,
     field_span = new_span\<rparr>"

definition upd_field :: "ast_field \<Rightarrow> ast_field \<Rightarrow> ast_field \<Rightarrow> ast_field" where
  "upd_field p n x = put_field_part x
     (if ident_name (field_type p) = ident_name (field_type n) then field_type p
        else new_ident (ident_name (field_type n)),
      field_arity n, merge_dirs (field_directives p) (field_directives n))"

lemma fname_put_field_part [simp]: "field_name (put_field_part f b) = field_name f"
  by (simp add: put_field_part_def)

interpretation flds: keyed_merge fname mk_field upd_field
  by unfold_locales (simp_all add: mk_field_def upd_field_def)

interpretation flds_run:
  part_merge "fields_get m" "\<lambda>f s s'. s' = fields_modify m f s" fname mk_field upd_field for m ..

lemma fields_getE:
  assumes "fields_get m s = Some fs"
  obtains md where "find_model s m = Some md" "fs = model_fields md"
  using assms by (auto simp: fields_get_def model_get_def model_part_def)

lemma modify_model_fields:
  "modify_model m (\<lambda>md. md\<lparr>model_fields := g (model_fields md)\<rparr>) = fields_modify m g"
  by (intro ext) (simp add: fields_modify_def model_modify_def model_part_def put_model_part_def)

lemma emits_create_field_step:
  "fields_emits m (Some [CreateField m f t a]) (\<lambda>fs. f \<notin> fname ` set fs)
     (\<lambda>fs. fs @ [\<lparr>field_type = new_ident t, field_name = new_ident f, field_arity = a,
        field_default_value = None, field_directives = [], field_documentation = None,
        field_span = new_span\<rparr>])"
proof (rule emits_single)
  fix s fs assume "fields_get m s = Some fs" "f \<notin> fname ` set fs"
  moreover from this(1) obtain md where "find_model s m = Some md" "fs = model_fields md"
    by (rule fields_getE)
  moreover from calculation have "find (\<lambda>x. fname x = f) (model_fields md) = None"
    by (simp only: find_key_None_iff) simp
  ultimately show "apply_step (CreateField m f t a) s = Inr (fields_modify m
      (\<lambda>fs. fs @ [\<lparr>field_type = new_ident t, field_name = new_ident f, field_arity = a,
        field_default_value = None, field_directives = [], field_documentation = None,
        field_span = new_span\<rparr>]) s)"
    by (simp add: apply_create_field_def find_field_def find_mut_eq flip: modify_model_fields)
qed

lemma emits_delete_field_step:
  "fields_emits m (Some [DeleteField m f]) (\<lambda>fs. f \<in> fname ` set fs) (filter (\<lambda>x. fname x \<noteq> f))"
proof (rule emits_single)
  fix s fs assume "fields_get m s = Some fs" "f \<in> fname ` set fs"
  moreover from this(1) obtain md where "find_model s m = Some md" "fs = model_fields md"
    by (rule fields_getE)
  moreover from calculation have "find (\<lambda>x. fname x = f) (model_fields md) \<noteq> None"
    by (simp only: find_key_None_iff) simp
  ultimately show "apply_step (DeleteField m f) s = Inr (fields_modify m (filter (\<lambda>x. fname x \<noteq> f)) s)"
    by (auto simp: apply_delete_field_def find_field_def find_mut_eq simp flip: modify_model_fields)
qed

lemma modify_field_parts:
  assumes "\<And>x. h x = put_field_part x (g (field_part x))"
  shows "modify_field m f h = field_modify m f g"
proof -
  have "h = (\<lambda>x. put_field_part x (g (field_part x)))" using assms by blast
  then show ?thesis
    by (intro ext) (simp add: modify_field_def field_modify_def flip: modify_model_fields)
qed

lemma emits_update_field_step:
  "field_emits m f (Some [UpdateField m f None t a]) P
     (\<lambda>b. (case t of None \<Rightarrow> fst b | Some n \<Rightarrow> new_ident n,
           case a of None \<Rightarrow> fst (snd b) | Some x \<Rightarrow> x, snd (snd b)))"
proof (rule emits_single)
  fix s b assume b: "field_get m f s = Some b"
  then obtain md x where "find_model s m = Some md" "find (\<lambda>x. fname x = f) (model_fields md) = Some x"
    by (auto simp: field_get_def bind_eq_Some_conv elim!: fields_getE)
  moreover have "modify_field m f (\<lambda>x. apply_field_update None update_field_name
      (apply_field_update t update_field_type (apply_field_update a update_field_arity x))) =
    field_modify m f (\<lambda>b. (case t of None \<Rightarrow> fst b | Some n \<Rightarrow> new_ident n,
           case a of None \<Rightarrow> fst (snd b) | Some x \<Rightarrow> x, snd (snd b)))"
    by (rule modify_field_parts)
      (auto simp: put_field_part_def field_part_def update_field_type_def update_field_arity_def
        split: option.split)
  ultimately show "apply_step (UpdateField m f None t a) s = Inr (field_modify m f
      (\<lambda>b. (case t of None \<Rightarrow> fst b | Some n \<Rightarrow> new_ident n,
           case a of None \<Rightarrow> fst (snd b) | Some x \<Rightarrow> x, snd (snd b))) s)"
    by (simp add: apply_update_field_def find_mut_eq find_field_def)
qed


lemma emits_created_field:
  assumes "wf_field f"
  shows "fields_emits m (push_created_field m f) (\<lambda>fs. fname f \<notin> fname ` set fs) (\<lambda>fs. fs @ [mk_field f])"
proof -
  let ?new = "\<lparr>field_type = new_ident (ident_name (field_type f)), field_name = new_ident (fname f),
      field_arity = field_arity f, field_default_value = None, field_directives = [],
      field_documentation = None, field_span = new_span\<rparr>"
  have "dir_emits (FieldLoc m (fname f)) (push_created_directives (FieldLoc m (fname f)) (field_directives f))
      (\<lambda>ds. ds = []) (\<lambda>_. map mk_dir (field_directives f))"
    using assms by (intro emits_new_directives) (simp_all add: wf_field_def wf_directives_def)
  note dirs = emits_field_in_fields [OF emits_dirs_in_field [OF this]]
  have "fields_emits m (push_created_field m f) (\<lambda>fs. fname f \<notin> fname ` set fs)
    (\<lambda>fs. update_first (\<lambda>x. fname x = fname f) (\<lambda>x. put_field_part x
        (fst (field_part x), fst (snd (field_part x)), map mk_dir (field_directives f))) (fs @ [?new]))"
    unfolding push_created_field_def
    by (rule fields_lens.emits_append [OF emits_create_field_step dirs]) (simp add: find_fresh field_part_def)
  then show ?thesis
    by (rule fields_lens.emits_weaken)
      (simp_all add: update_first_fresh mk_field_def put_field_part_def field_part_def)
qed

text \<open>The steps for a field present in both schemas.\<close>

lemma emits_updated_field:
  assumes "wf_field p" "wf_field n" "fname n = fname p"
  shows "fields_emits m (push_updated_field m (p, n)) (\<lambda>fs. find (\<lambda>x. fname x = fname p) fs = Some p)
    (update_first (\<lambda>x. fname x = fname p) (upd_field p n))"
proof -
  let ?f = "fname p" and ?loc = "FieldLoc m (fname p)"
  let ?t = "diff_value (ident_name (field_type p)) (ident_name (field_type n))"
    and ?a = "diff_value (field_arity p) (field_arity n)"
  let ?set = "\<lambda>b. (case ?t of None \<Rightarrow> fst b | Some n \<Rightarrow> new_ident n,
           case ?a of None \<Rightarrow> fst (snd b) | Some x \<Rightarrow> x, snd (snd b))"
  have set: "field_emits m ?f (Some (if update_field_is_any_option_set None ?t ?a
      then [UpdateField m ?f None ?t ?a] else [])) (\<lambda>b. b = field_part p) ?set"
  proof (cases "update_field_is_any_option_set None ?t ?a")
    case False
    then have none: "?t = None" "?a = None" by (simp_all add: update_field_is_any_option_set_def)
    show ?thesis
      unfolding none by (simp add: update_field_is_any_option_set_def field_lens.emits_Nil)
  qed (simp add: emits_update_field_step)
  have dirs: "field_emits m ?f (push_directive_changes ?loc (field_directives p) (field_directives n))
      (\<lambda>b. snd (snd b) = field_directives p)
      (\<lambda>b. (fst b, fst (snd b), merge_dirs (field_directives p) (field_directives n)))"
    using assms by (intro emits_dirs_in_field emits_merge_dirs) (simp_all add: wf_field_def)
  have name: "diff_value (fname p) (fname n) = None"
    using assms(3) by (simp add: diff_value_def)
  have "field_emits m ?f (push_updated_field m (p, n)) (\<lambda>b. b = field_part p)
      (\<lambda>b. (fst (?set b), fst (snd (?set b)), merge_dirs (field_directives p) (field_directives n)))"
    unfolding push_updated_field_def prod.case Let_def differ_lists name
      push_directive_changes_def [symmetric]
    by (rule field_lens.emits_append [OF set dirs]) (simp add: field_part_def)
  note emits_field_in_fields [OF this]
  then show ?thesis
    by (rule fields_lens.emits_weaken)
      (auto intro!: update_first_cong_find simp: upd_field_def field_part_def diff_value_def)
qed


definition merge_fields :: "ast_model \<Rightarrow> ast_model \<Rightarrow> ast_field list" where
  "merge_fields p n = merge_by fname mk_field upd_field (model_fields p) (model_fields n)"

lemma field_content_mk: "wf_field f \<Longrightarrow> field_content (mk_field f) = field_content f"
  by (simp add: field_content_def mk_field_def wf_field_def wf_directives_def map_dir_content_mk
      del: mset_map map_map)

lemma field_content_upd:
  assumes "wf_field p" "wf_field n" "fname p = fname n"
  shows "field_content (upd_field p n p) = field_content n"
  using assms merge_dirs_content [of "field_directives p" "field_directives n"]
  by (simp add: field_content_def upd_field_def put_field_part_def wf_field_def del: mset_map)

lemma wf_field_mk: "wf_field f \<Longrightarrow> wf_field (mk_field f)"
  by (simp add: wf_field_def wf_directives_def mk_field_def dirs.key_mk o_def list_all_iff wf_directive_mk)

lemma wf_field_upd: "wf_field p \<Longrightarrow> wf_field n \<Longrightarrow> wf_field (upd_field p n x)"
  by (simp add: wf_field_def upd_field_def put_field_part_def wf_merge_dirs)

lemma wf_model_fields:
  assumes "wf_model m"
  shows "distinct (map fname (model_fields m))" "\<And>f. f \<in> set (model_fields m) \<Longrightarrow> wf_field f"
  using assms by (simp_all add: wf_model_def list_all_iff)

lemma merge_fields_content:
  assumes "wf_model p" "wf_model n"
  shows "mset (map field_content (merge_fields p n)) = mset (map field_content (model_fields n))"
  unfolding merge_fields_def using wf_model_fields [OF assms(1)] wf_model_fields [OF assms(2)]
  by (intro flds.merge_content) (simp_all add: field_content_mk field_content_upd)

lemma wf_merge_fields:
  assumes "wf_model p" "wf_model n"
  shows "distinct (map fname (merge_fields p n))" "list_all wf_field (merge_fields p n)"
proof -
  note p = wf_model_fields [OF assms(1)] and n = wf_model_fields [OF assms(2)]
  show "distinct (map fname (merge_fields p n))"
    unfolding merge_fields_def by (rule flds.merge_distinct [OF p(1) n(1)])
  have "wf_field x" if "x \<in> set (merge_fields p n)" for x
    using n(1) that unfolding merge_fields_def
    by (cases rule: flds.merge_elem) (use p(2) n(2) wf_field_upd wf_field_mk in auto)
  then show "list_all wf_field (merge_fields p n)" by (simp add: list_all_iff)
qed

lemma emits_field_changes:
  assumes "wf_model p" "wf_model n"
  shows "fields_emits m
    (append_opt (push_created_fields m (created_fields p n))
      (append_opt (Some (push_deleted_fields m (deleted_fields p n)))
        (push_updated_fields m (field_pairs p n))))
    (\<lambda>fs. fs = model_fields p) (\<lambda>_. merge_fields p n)"
proof -
  note p = wf_model_fields [OF assms(1)] and n = wf_model_fields [OF assms(2)]
  have del: "Some (push_deleted_fields m ds) = concat_map_opt (\<lambda>f. Some [DeleteField m (fname f)]) ds" for ds
    by (simp add: concat_map_opt_pure push_deleted_fields_def)
  show ?thesis
    unfolding differ_lists push_created_fields_def push_updated_fields_def del merge_fields_def
  proof (rule flds_run.emits_merge_cdu, goal_cases)
    case (3 f)
    with n(2) show ?case by (intro emits_created_field)
  next
    case (4 f g)
    with p(2) n(2) have "fields_emits m (push_updated_field m (f, g))
        (\<lambda>fs. find (\<lambda>x. fname x = fname f) fs = Some f) (update_first (\<lambda>x. fname x = fname f) (upd_field f g))"
      by (intro emits_updated_field) simp_all
    then show ?case by (rule fields_lens.emits_weaken) simp_all
  next
    case (5 f)
    show ?case by (rule emits_delete_field_step)
  qed (use p(1) n(1) in simp_all)
qed

lemma emits_new_fields:
  assumes "distinct (map fname fs)" "list_all wf_field fs"
  shows "fields_emits m (push_created_fields m fs) (\<lambda>xs. xs = []) (\<lambda>_. map mk_field fs)"
  unfolding push_created_fields_def
proof (rule fields_lens.emits_weaken, rule flds_run.emits_create_all)
  fix f assume "f \<in> set fs"
  then show "fields_emits m (push_created_field m f) (\<lambda>xs. fname f \<notin> fname ` set xs) (\<lambda>xs. xs @ [mk_field f])"
    using assms by (intro emits_created_field) (simp add: list_all_iff)
qed (use assms in \<open>simp_all add: fold_append\<close>)


subsection \<open>Models\<close>

abbreviation regular :: "ast_model \<Rightarrow> directive list" where
  "regular m \<equiv> filter is_regular (model_directives m)"

definition merge_model_dirs :: "ast_model \<Rightarrow> ast_model \<Rightarrow> directive list" where
  "merge_model_dirs p n =
     change_repeated (repeated p) (repeated n) (change_dirs (regular p) (regular n) (model_directives p))"

definition mk_model :: "ast_model \<Rightarrow> ast_model" where
  "mk_model m = \<lparr>model_name = new_ident (mname m), model_fields = map mk_field (model_fields m),
     model_directives = map mk_dir (model_directives m), model_documentation = None,
     model_span = new_span\<rparr>"

definition upd_model :: "ast_model \<Rightarrow> ast_model \<Rightarrow> ast_model \<Rightarrow> ast_model" where
  "upd_model p n x = put_model_part x (merge_fields p n, merge_model_dirs p n)"

lemma mname_put_model_part [simp]: "model_name (put_model_part m b) = model_name m"
  by (simp add: put_model_part_def)

interpretation mods: keyed_merge mname mk_model upd_model
  by unfold_locales (simp_all add: mk_model_def upd_model_def)

interpretation mods_run:
  part_merge "\<lambda>s. Some (models s)" models_changed mname mk_model upd_model ..

text \<open>Whether a directive of a model may be repeated depends on its name.\<close>

definition regular_name :: "string \<Rightarrow> bool" where
  "regular_name n \<longleftrightarrow> \<not> List.member REPEATED_MODEL_DIRECTIVES n"

lemma is_regular_name: "is_regular = (\<lambda>d. regular_name (dname d))"
  by (intro ext) (simp add: is_regular_def is_repeated_def regular_name_def)

lemma is_repeated_name: "is_repeated = (\<lambda>d. \<not> regular_name (dname d))"
  by (intro ext) (simp add: is_repeated_def regular_name_def)

lemma wf_model_directives:
  assumes "wf_model m"
  shows "wf_directives (regular m)" "list_all wf_directive (model_directives m)"
    "distinct (map dir_content (repeated m))" "list_all wf_directive (repeated m)"
  using assms by (auto simp: wf_model_def wf_directives_def list_all_iff)

lemma change_regular:
  assumes "wf_model p" "wf_model n"
  shows "filter is_regular (change_dirs (regular p) (regular n) (model_directives p)) =
      merge_dirs (regular p) (regular n)"
    and "filter is_repeated (change_dirs (regular p) (regular n) (model_directives p)) = repeated p"
proof -
  have dist: "distinct (map dname (regular p))" "distinct (map dname (regular n))"
    using wf_model_directives(1) [OF assms(1)] wf_model_directives(1) [OF assms(2)]
    by (simp_all add: wf_directives_def)
  have R: "regular_name (dname d)" if "d \<in> set (regular m)" for d m
    using that by (simp add: is_regular_name)
  have xs: "filter (\<lambda>d. regular_name (dname d)) (model_directives p) = regular p"
    by (simp add: is_regular_name)
  show "filter is_regular (change_dirs (regular p) (regular n) (model_directives p)) =
      merge_dirs (regular p) (regular n)"
    using dirs_run.phases_regular [where R = regular_name, OF dist xs R]
    unfolding is_regular_name merge_dirs_def .
  show "filter is_repeated (change_dirs (regular p) (regular n) (model_directives p)) = repeated p"
    using dirs_run.phases_others [where R = regular_name, OF R R dist(2)]
    unfolding is_regular_name is_repeated_name .
qed

lemma mset_regular_repeated:
  "mset (map c ds) = mset (map c (filter is_regular ds)) + mset (map c (filter is_repeated ds))"
  by (induction ds) (auto simp: is_regular_def)

lemma wf_change_dirs:
  assumes "wf_model p" "wf_model n"
  shows "list_all wf_directive (change_dirs (regular p) (regular n) (model_directives p))"
proof -
  let ?ds = "change_dirs (regular p) (regular n) (model_directives p)"
  have "wf_directive d" if "d \<in> set ?ds" for d
  proof (cases "is_regular d")
    case True
    with that have "d \<in> set (filter is_regular ?ds)" by simp
    then have "d \<in> set (merge_dirs (regular p) (regular n))" by (simp only: change_regular [OF assms])
    with wf_merge_dirs [OF wf_model_directives(1) [OF assms(1)] wf_model_directives(1) [OF assms(2)]]
    show ?thesis by (simp add: wf_directives_def list_all_iff)
  next
    case False
    with that have "d \<in> set (filter is_repeated ?ds)" by (simp add: is_regular_def)
    then have "d \<in> set (repeated p)" by (simp only: change_regular [OF assms])
    with wf_model_directives(2) [OF assms(1)] show ?thesis by (simp add: list_all_iff)
  qed
  then show ?thesis by (simp add: list_all_iff)
qed

lemma merge_model_dirs_parts:
  assumes "wf_model p" "wf_model n"
  shows "filter is_regular (merge_model_dirs p n) = merge_dirs (regular p) (regular n)"
    and "mset (map dir_content (filter is_repeated (merge_model_dirs p n))) = mset (map dir_content (repeated n))"
    and "distinct (map dir_content (filter is_repeated (merge_model_dirs p n)))"
    and "list_all wf_directive (merge_model_dirs p n)"
proof -
  note p = wf_model_directives [OF assms(1)] and n = wf_model_directives [OF assms(2)]
  note ch = change_regular [OF assms]
  show "filter is_regular (merge_model_dirs p n) = merge_dirs (regular p) (regular n)"
    unfolding merge_model_dirs_def ch(1) [symmetric]
    by (rule change_repeated_regular) (simp_all add: list_all_iff)
  show "mset (map dir_content (filter is_repeated (merge_model_dirs p n))) = mset (map dir_content (repeated n))"
    unfolding merge_model_dirs_def
    by (rule change_repeated_content(1) [OF p(3) _ n(3) _ n(4) ch(2)]) (simp_all add: list_all_iff)
  show "distinct (map dir_content (filter is_repeated (merge_model_dirs p n)))"
    unfolding merge_model_dirs_def
    by (rule change_repeated_content(2) [OF p(3) _ n(3) _ n(4) ch(2)]) (simp_all add: list_all_iff)
  show "list_all wf_directive (merge_model_dirs p n)"
    unfolding merge_model_dirs_def by (rule wf_change_repeated [OF wf_change_dirs [OF assms] n(4)])
qed

lemma merge_model_dirs_content:
  assumes "wf_model p" "wf_model n"
  shows "mset (map dir_content (merge_model_dirs p n)) = mset (map dir_content (model_directives n))"
  unfolding mset_regular_repeated [of _ "merge_model_dirs p n"] mset_regular_repeated [of _ "model_directives n"]
    merge_model_dirs_parts(1,2) [OF assms]
  using merge_dirs_content [OF wf_model_directives(1) [OF assms(1)] wf_model_directives(1) [OF assms(2)]]
  by simp


lemma model_content_mk: "wf_model m \<Longrightarrow> model_content (mk_model m) = model_content m"
proof -
  assume wf: "wf_model m"
  have "map field_content (map mk_field (model_fields m)) = map field_content (model_fields m)"
    using wf_model_fields(2) [OF wf] by (simp add: field_content_mk)
  with map_dir_content_mk [OF wf_model_directives(2) [OF wf]] show ?thesis
    by (simp add: model_content_def mk_model_def del: mset_map map_map)
qed

lemma model_content_upd:
  "wf_model p \<Longrightarrow> wf_model n \<Longrightarrow> mname p = mname n \<Longrightarrow> model_content (upd_model p n p) = model_content n"
  by (simp add: model_content_def upd_model_def put_model_part_def merge_fields_content
      merge_model_dirs_content del: mset_map)

lemma wf_model_mk: "wf_model m \<Longrightarrow> wf_model (mk_model m)"
proof -
  assume wf: "wf_model m"
  have rep: "filter is_repeated (map mk_dir ds) = map mk_dir (filter is_repeated ds)"
    and reg: "filter is_regular (map mk_dir ds) = map mk_dir (filter is_regular ds)" for ds
    by (induction ds) (simp_all add: is_regular_def)
  have names: "map dname (map mk_dir ds) = map dname ds" for ds by (simp add: dirs.key_mk)
  have fnames: "map fname (map mk_field fs) = map fname fs" for fs by (simp add: flds.key_mk)
  have "list_all wf_field (map mk_field (model_fields m))"
    using wf_model_fields(2) [OF wf] by (simp add: list_all_iff wf_field_mk)
  moreover have "list_all wf_directive (map mk_dir (model_directives m))"
    using wf_model_directives(2) [OF wf] by (simp add: list_all_iff wf_directive_mk)
  ultimately show ?thesis
    using wf
    unfolding wf_model_def mk_model_def ast_model.simps rep reg names fnames
      map_dir_content_mk [OF wf_model_directives(4) [OF wf]]
    by blast
qed

lemma wf_model_upd:
  assumes "wf_model p" "wf_model n"
  shows "wf_model (upd_model p n x)"
proof -
  have "wf_directives (merge_dirs (regular p) (regular n))"
    using assms wf_model_directives(1) by (blast intro: wf_merge_dirs)
  with wf_merge_fields [OF assms] merge_model_dirs_parts [OF assms] show ?thesis
    by (simp add: wf_model_def upd_model_def put_model_part_def wf_directives_def)
qed

text \<open>The steps for a model present in both schemas, for a new model and for a dropped one.\<close>

lemma push_updated_model_parts:
  "push_updated_model (p, n) = append_opt
     (append_opt (push_created_fields (mname p) (created_fields p n))
       (append_opt (Some (push_deleted_fields (mname p) (deleted_fields p n)))
         (push_updated_fields (mname p) (field_pairs p n))))
     (append_opt (push_directive_changes (ModelLoc (mname p)) (regular p) (regular n))
       (push_repeated_changes (ModelLoc (mname p)) p n))"
  unfolding push_updated_model_def prod.case Let_def push_directive_changes_def
    push_repeated_changes_def append_opt_assoc differ_lists ..

lemma emits_updated_model:
  assumes "wf_model p" "wf_model n"
  shows "models_emits (push_updated_model (p, n))
    (\<lambda>ms. find (\<lambda>m. mname m = mname p) ms = Some p) (update_first (\<lambda>m. mname m = mname p) (upd_model p n))"
proof -
  let ?m = "mname p" and ?loc = "ModelLoc (mname p)"
  let ?ds = "change_dirs (regular p) (regular n) (model_directives p)"
  note p = wf_model_directives [OF assms(1)] and n = wf_model_directives [OF assms(2)]
  note F = emits_fields_in_model [OF emits_field_changes [OF assms, of ?m]]
  have "dir_emits ?loc (push_directive_changes ?loc (regular p) (regular n))
      (\<lambda>ds. filter (\<lambda>d. regular_name (dname d)) ds = regular p) (change_dirs (regular p) (regular n))"
    by (rule emits_directive_changes [OF p(1) n(1)]) (simp add: is_regular_name)
  then have R: "dir_emits ?loc (push_directive_changes ?loc (regular p) (regular n))
      (\<lambda>ds. ds = model_directives p) (\<lambda>_. ?ds)"
    by (rule directives_lens.emits_weaken) (simp_all add: is_regular_name)
  have "dir_emits ?loc (append_opt (push_directive_changes ?loc (regular p) (regular n))
      (push_repeated_changes ?loc p n)) (\<lambda>ds. ds = model_directives p)
      (\<lambda>_. change_repeated (repeated p) (repeated n) ?ds)"
    using wf_change_dirs [OF assms]
    by (intro directives_lens.emits_append [OF R emits_repeated_changes [OF p(2) n(2)]])
  note D = emits_dirs_in_model [OF this]
  have "model_emits ?m (push_updated_model (p, n)) (\<lambda>b. b = model_part p)
      (\<lambda>_. (merge_fields p n, merge_model_dirs p n))"
  proof -
    have "model_emits ?m (append_opt
        (append_opt (push_created_fields ?m (created_fields p n))
          (append_opt (Some (push_deleted_fields ?m (deleted_fields p n)))
            (push_updated_fields ?m (field_pairs p n))))
        (append_opt (push_directive_changes ?loc (regular p) (regular n)) (push_repeated_changes ?loc p n)))
        (\<lambda>b. b = model_part p) (\<lambda>b. (merge_fields p n, change_repeated (repeated p) (repeated n) ?ds))"
    proof -
      have "model_emits ?m (append_opt (push_created_fields ?m (created_fields p n))
          (append_opt (Some (push_deleted_fields ?m (deleted_fields p n)))
            (push_updated_fields ?m (field_pairs p n))))
          (\<lambda>b. b = model_part p) (\<lambda>b. (merge_fields p n, model_directives p))"
        by (rule model_lens.emits_weaken [OF F]) (simp_all add: model_part_def)
      from model_lens.emits_append [OF this D] show ?thesis by simp
    qed
    then show ?thesis by (simp add: merge_model_dirs_def push_updated_model_parts)
  qed
  note emits_models [OF this]
  then show ?thesis
    by (rule models_part.emits_weaken) (auto intro!: update_first_cong_find simp: upd_model_def)
qed


lemma emits_create_model_step:
  "models_emits (Some [CreateModel n]) (\<lambda>ms. n \<notin> mname ` set ms)
     (\<lambda>ms. ms @ [\<lparr>model_name = new_ident n, model_fields = [], model_directives = [],
        model_documentation = None, model_span = new_span\<rparr>])"
proof -
  have "find_model s n = None" if "n \<notin> mname ` set (models s)" for s
    using that unfolding find_model_def find_key_None_iff .
  then show ?thesis
    by (simp add: emits_def apply_create_model_def models_changed_def)
      (simp add: models_def map_filter_append List.map_filter_simps)
qed

lemma emits_delete_model_step:
  "models_emits (Some [DeleteModel n]) (\<lambda>ms. n \<in> mname ` set ms) (filter (\<lambda>m. mname m \<noteq> n))"
proof -
  have found: "\<exists>m. find_model s n = Some m" if "n \<in> mname ` set (models s)" for s
    using that find_key_None_iff [of mname n "models s"] unfolding find_model_def by auto
  have "List.map_filter as_model (filter (\<lambda>t. case t of TopModel m \<Rightarrow> mname m \<noteq> n | _ \<Rightarrow> True) ts) =
      filter (\<lambda>m. mname m \<noteq> n) (List.map_filter as_model ts)" for ts
    by (induction ts) (auto simp: List.map_filter_simps split: top.split)
  moreover have "filter (\<lambda>t. as_model t = None) (filter (\<lambda>t. case t of TopModel m \<Rightarrow> mname m \<noteq> n | _ \<Rightarrow> True) ts) =
      filter (\<lambda>t. as_model t = None) ts" for ts
    by (induction ts) (auto split: top.split)
  ultimately have "models_changed (filter (\<lambda>m. mname m \<noteq> n)) s
      (s\<lparr>tops := filter (\<lambda>t. case t of TopModel m \<Rightarrow> mname m \<noteq> n | _ \<Rightarrow> True) (tops s)\<rparr>)" for s
    unfolding models_changed_def models_def by simp
  then show ?thesis
    by (auto simp: emits_def apply_delete_model_def dest!: found)
qed

lemma emits_created_model:
  assumes wf: "wf_model m" and plain: "distinct (map dname (model_directives m))"
  shows "models_emits (push_created_model m) (\<lambda>ms. mname m \<notin> mname ` set ms) (\<lambda>ms. ms @ [mk_model m])"
proof -
  let ?n = "mname m"
  let ?new = "\<lparr>model_name = new_ident ?n, model_fields = [], model_directives = [],
      model_documentation = None, model_span = new_span\<rparr>"
  have F: "model_emits ?n (push_created_fields ?n (model_fields m)) (\<lambda>b. b = ([], []))
      (\<lambda>_. (map mk_field (model_fields m), []))"
    using wf by (intro model_lens.emits_weaken [OF emits_fields_in_model [OF emits_new_fields]])
      (simp_all add: wf_model_def)
  have D: "model_emits ?n (push_created_directives (ModelLoc ?n) (model_directives m)) (\<lambda>b. snd b = [])
      (\<lambda>b. (fst b, map mk_dir (model_directives m)))"
    using wf plain by (intro emits_dirs_in_model emits_new_directives) (simp_all add: wf_model_def)
  have "model_emits ?n (append_opt (push_created_fields ?n (model_fields m))
      (push_created_directives (ModelLoc ?n) (model_directives m)))
      (\<lambda>b. b = ([], [])) (\<lambda>_. (map mk_field (model_fields m), map mk_dir (model_directives m)))"
    using model_lens.emits_append [OF F D] by simp
  note body = emits_models [OF this]
  have "models_emits (push_created_model m) (\<lambda>ms. ?n \<notin> mname ` set ms)
    (\<lambda>ms. update_first (\<lambda>m. mname m = ?n) (\<lambda>x. put_model_part x
       (map mk_field (model_fields m), map mk_dir (model_directives m))) (ms @ [?new]))"
    unfolding push_created_model_def
    by (rule models_part.emits_append [OF emits_create_model_step body]) (simp add: find_fresh model_part_def)
  then show ?thesis
    by (rule models_part.emits_weaken) (simp_all add: update_first_fresh mk_model_def put_model_part_def)
qed

definition merge_models :: "ast_model list \<Rightarrow> ast_model list \<Rightarrow> ast_model list" where
  "merge_models ps ns = merge_by mname mk_model upd_model ps ns"

lemma emits_model_changes:
  assumes p: "distinct (map mname (models p))" "list_all wf_model (models p)"
    and n: "distinct (map mname (models n))" "list_all wf_model (models n)"
    and plain: "new_models_plain p n"
  shows "models_emits (push_models p n) (\<lambda>ms. ms = models p) (\<lambda>_. merge_models (models p) (models n))"
proof -
  have del: "Some (push_deleted_models ds) = concat_map_opt (\<lambda>m. Some [DeleteModel (mname m)]) ds" for ds
    by (simp add: concat_map_opt_pure push_deleted_models_def)
  show ?thesis
    unfolding push_models_def differ_lists push_created_models_def push_updated_models_def del merge_models_def
  proof (rule mods_run.emits_merge_cdu, goal_cases)
    case (3 m)
    then have "m \<in> set (created_models p n)" by (simp add: differ_lists set_created_by)
    with 3 n(2) plain show ?case
      by (intro emits_created_model) (simp_all add: new_models_plain_def list_all_iff)
  next
    case (4 x y)
    with p(2) n(2) have "models_emits (push_updated_model (x, y))
        (\<lambda>ms. find (\<lambda>m. mname m = mname x) ms = Some x) (update_first (\<lambda>m. mname m = mname x) (upd_model x y))"
      by (intro emits_updated_model) (simp_all add: list_all_iff)
    then show ?case by (rule models_part.emits_weaken) simp_all
  next
    case (5 m)
    show ?case by (rule emits_delete_model_step)
  qed (use p n in simp_all)
qed

end
