(* ===== verification/Diff_Apply.thy ===== *)
theory Diff_Apply
  imports Enum_Steps Model_Steps
begin

section \<open>Applying a diff\<close>

text \<open>
  The differ and the calculator together: on well-formed schemas the steps from one schema to
  another apply to the first without failure and give a schema that says what the second says,
  and the entries that are neither enums nor models stay as they are.
\<close>

definition merged_content :: "schema_ast \<Rightarrow> schema_ast \<Rightarrow> schema_ast \<Rightarrow> bool" where
  "merged_content p n s \<longleftrightarrow>
     enums s = merge_enums (enums p) (enums n) \<and> models s = merge_models (models p) (models n) \<and>
     types s = types p \<and> sources s = sources p \<and> generators s = generators p"

lemma diff_applies:
  assumes "wf_schema p" "wf_schema n" "new_models_plain p n"
  obtains steps s where "diff p n = Some steps" "apply_steps p steps = Inr s" "merged_content p n s"
proof -
  have wf: "distinct (map ename (enums p))" "list_all wf_enum (enums p)"
    "distinct (map ename (enums n))" "list_all wf_enum (enums n)"
    "distinct (map mname (models p))" "list_all wf_model (models p)"
    "distinct (map mname (models n))" "list_all wf_model (models n)"
    using assms(1,2) by (simp_all add: wf_schema_def)
  obtain es s1 where es: "push_enums p n = Some es" "fold_result apply_step es p = Inr s1"
    and s1: "enums_changed (\<lambda>_. merge_enums (enums p) (enums n)) p s1"
    using emits_enum_changes [OF wf(1-4)] by (auto simp: emits_def)
  have "models s1 = models p" using enums_changed_frame [OF s1] by simp
  then obtain ms s2 where ms: "push_models p n = Some ms" "fold_result apply_step ms s1 = Inr s2"
    and s2: "models_changed (\<lambda>_. merge_models (models p) (models n)) s1 s2"
    using emits_model_changes [OF wf(5-8) assms(3)] by (auto simp: emits_def)
  have "merged_content p n s2"
    using enums_changed_frame [OF s1] models_changed_frame [OF s2] s1 s2
    by (simp add: merged_content_def enums_changed_def models_changed_def)
  with es ms show thesis
    by (intro that [of "es @ ms" s2]) (simp_all add: diff_def apply_steps_def fold_result_append)
qed

lemma merged_schema_content:
  assumes "wf_schema p" "wf_schema n" "merged_content p n s"
  shows "schema_content s = schema_content n"
proof -
  have "mset (map enum_content (merge_enums (enums p) (enums n))) = mset (map enum_content (enums n))"
    unfolding merge_enums_def using assms(1,2)
    by (intro enms.merge_content) (simp_all add: wf_schema_def list_all_iff enum_content_mk enum_content_upd)
  moreover have "mset (map model_content (merge_models (models p) (models n))) = mset (map model_content (models n))"
    unfolding merge_models_def using assms(1,2)
    by (intro mods.merge_content) (simp_all add: wf_schema_def list_all_iff model_content_mk model_content_upd)
  ultimately show ?thesis
    using assms(3) by (simp add: schema_content_def merged_content_def del: mset_map)
qed

lemma merged_wf_schema:
  assumes "wf_schema p" "wf_schema n" "merged_content p n s"
  shows "wf_schema s"
proof -
  have dist: "distinct (map ename (enums n))" "distinct (map mname (models n))"
    using assms(2) by (simp_all add: wf_schema_def)
  have "wf_enum e" if "e \<in> set (merge_enums (enums p) (enums n))" for e
    using dist(1) that unfolding merge_enums_def
    by (cases rule: enms.merge_elem)
      (use assms(1,2) wf_enum_upd wf_enum_mk in \<open>auto simp: wf_schema_def list_all_iff\<close>)
  moreover have "wf_model m" if "m \<in> set (merge_models (models p) (models n))" for m
    using dist(2) that unfolding merge_models_def
    by (cases rule: mods.merge_elem)
      (use assms(1,2) wf_model_upd wf_model_mk in \<open>auto simp: wf_schema_def list_all_iff\<close>)
  moreover have "distinct (map ename (merge_enums (enums p) (enums n)))"
      "distinct (map mname (merge_models (models p) (models n)))"
    using assms(1,2) by (simp_all add: wf_schema_def merge_enums_def merge_models_def
        enms.merge_distinct mods.merge_distinct)
  ultimately show ?thesis
    using assms(3) by (simp add: wf_schema_def merged_content_def list_all_iff)
qed

end
