(* ===== verification/Diff_Empty.thy ===== *)
theory Diff_Empty
  imports Diff_Apply
begin

section \<open>When there is nothing to do\<close>

text \<open>
  The differ decides equality of content: on well-formed schemas it emits no step exactly when the
  two schemas say the same. So a diff that was applied is not found again.
\<close>

subsection \<open>Equal content leaves nothing to create or delete\<close>

lemma same_content_lists:
  assumes eq: "mset (map c ps) = mset (map c ns)" and key: "\<And>x. kc (c x) = k x"
    and dist: "distinct (map k ns)"
  shows "created_by k ps ns = []" "deleted_by k ps ns = []"
    "\<And>p n. (p, n) \<in> set (pairs_by k ps ns) \<Longrightarrow> p \<in> set ps \<and> n \<in> set ns \<and> k n = k p \<and> c p = c n"
proof -
  have sets: "set (map c ps) = set (map c ns)" using eq by (rule mset_eq_setD)
  have k: "k ` set xs = kc ` set (map c xs)" for xs by (simp add: image_image key)
  have "k ` set ps = k ` set ns" unfolding k sets ..
  then show "created_by k ps ns = []" "deleted_by k ps ns = []"
    by (auto simp: created_by_def deleted_by_def filter_empty_conv)
  fix p n assume pn: "(p, n) \<in> set (pairs_by k ps ns)"
  then have mem: "p \<in> set ps" "n \<in> set ns" "k n = k p" by (simp_all add: set_pairs_by [OF dist])
  then have "c p \<in> set (map c ns)" unfolding sets [symmetric] by simp
  then obtain m where m: "m \<in> set ns" "c p = c m" by auto
  then have "k m = k n" using mem(3) key by metis
  with m(1) mem(2) dist have "m = n" by (metis find_distinct_key option.inject)
  with mem m show "p \<in> set ps \<and> n \<in> set ns \<and> k n = k p \<and> c p = c n" by simp
qed

lemma concat_map_opt_empty: "(\<And>x. x \<in> set xs \<Longrightarrow> f x = Some []) \<Longrightarrow> concat_map_opt f xs = Some []"
  by (induction xs) (simp_all add: concat_map_opt_Cons)

lemma updated_argument_empty:
  assumes "wf_argument p" "arg_content p = arg_content n"
  shows "push_updated_directive_argument l p n = Some []"
proof -
  obtain v where "from_ast_expression (arg_value p) = Some v"
    using wf_argument_renders [OF assms(1)] by blast
  moreover from this have "from_ast_expression (arg_value n) = Some v"
    using assms(2) by (simp add: arg_content_def)
  ultimately show ?thesis by (simp add: push_updated_directive_argument_def)
qed

lemma updated_directive_empty:
  assumes "wf_directive p" "wf_directive n" "dir_content p = dir_content n"
  shows "push_updated_directive loc (p, n) = Some []"
proof -
  let ?ps = "dir_arguments p" and ?ns = "dir_arguments n"
  have eq: "mset (map arg_content ?ps) = mset (map arg_content ?ns)"
    using assms(3) by (simp add: dir_content_def)
  have key: "fst (arg_content a) = aname a" for a by (simp add: arg_content_def)
  have dist: "distinct (map aname ?ns)" using assms(2) by (simp add: wf_directive_def)
  note same = same_content_lists [OF eq key dist]
  have "concat_map_opt (\<lambda>(p, n). push_updated_directive_argument l p n) (pairs_by aname ?ps ?ns) = Some []" for l
  proof (rule concat_map_opt_empty)
    fix x assume x: "x \<in> set (pairs_by aname ?ps ?ns)"
    obtain a b where ab: "x = (a, b)" by (cases x)
    from same(3) [OF x [unfolded ab]] have "a \<in> set ?ps" "arg_content a = arg_content b" by blast+
    with wf_dir_args [OF assms(1)] ab show "(case x of (p, n) \<Rightarrow> push_updated_directive_argument l p n) = Some []"
      by (simp add: updated_argument_empty)
  qed
  then show ?thesis
    by (simp add: push_updated_directive_def Let_def differ_lists same(1,2))
qed

lemma directive_changes_empty:
  assumes "wf_directives ps" "wf_directives ns" "mset (map dir_content ps) = mset (map dir_content ns)"
  shows "push_directive_changes loc ps ns = Some []"
proof -
  have key: "fst (dir_content d) = dname d" for d by (simp add: dir_content_def)
  have dist: "distinct (map dname ns)" using assms(2) by (simp add: wf_directives_def)
  note same = same_content_lists [OF assms(3) key dist]
  have "push_updated_directives loc (pairs_by dname ps ns) = Some []"
    unfolding push_updated_directives_def
  proof (rule concat_map_opt_empty)
    fix x assume x: "x \<in> set (pairs_by dname ps ns)"
    obtain p n where pn: "x = (p, n)" by (cases x)
    from same(3) [OF x [unfolded pn]] have "p \<in> set ps" "n \<in> set ns" "dir_content p = dir_content n"
      by blast+
    with assms(1,2) pn show "push_updated_directive loc x = Some []"
      by (simp add: updated_directive_empty wf_directives_def list_all_iff)
  qed
  then show ?thesis
    by (simp add: push_directive_changes_def push_created_directives_def push_deleted_directives_def
        same(1,2))
qed


lemma updated_field_empty:
  assumes "wf_field p" "wf_field n" "field_content p = field_content n"
  shows "push_updated_field m (p, n) = Some []"
proof -
  have eq: "fname p = fname n" "ident_name (field_type p) = ident_name (field_type n)"
      "field_arity p = field_arity n"
      "mset (map dir_content (field_directives p)) = mset (map dir_content (field_directives n))"
    using assms(3) by (simp_all add: field_content_def)
  then have "push_directive_changes (FieldLoc m (fname p)) (field_directives p) (field_directives n) = Some []"
    using assms(1,2) by (intro directive_changes_empty) (simp_all add: wf_field_def)
  with eq show ?thesis
    by (simp add: push_updated_field_def Let_def diff_value_def update_field_is_any_option_set_def
        differ_lists push_directive_changes_def)
qed

lemma updated_enum_empty:
  assumes "wf_enum p" "wf_enum n" "enum_content p = enum_content n"
  shows "push_updated_enum (p, n) = Some []"
proof -
  have eq: "ename p = ename n" "mset (map value_name (enum_values p)) = mset (map value_name (enum_values n))"
      "mset (map dir_content (enum_directives p)) = mset (map dir_content (enum_directives n))"
    using assms(3) by (simp_all add: enum_content_def)
  then have "push_directive_changes (EnumLoc (ename p)) (enum_directives p) (enum_directives n) = Some []"
    using assms(1,2) by (intro directive_changes_empty) (simp_all add: wf_enum_def)
  moreover have "created_by value_name (enum_values p) (enum_values n) = []"
      "deleted_by value_name (enum_values p) (enum_values n) = []"
    using same_content_lists(1,2) [OF eq(2), of "\<lambda>x. x"] assms(2) by (simp_all add: wf_enum_def)
  ultimately show ?thesis
    using eq(1) by (simp add: push_updated_enum_def Let_def diff_value_def update_enum_is_any_option_set_def
        differ_lists push_directive_changes_def)
qed

text \<open>On a model, equal content splits into the regular and the repeated directives.\<close>

lemma dir_content_split:
  assumes "mset (map dir_content ds) = mset (map dir_content es)"
  shows "mset (map dir_content (filter is_regular ds)) = mset (map dir_content (filter is_regular es))"
    "mset (map dir_content (filter is_repeated ds)) = mset (map dir_content (filter is_repeated es))"
proof -
  let ?r = "\<lambda>c. List.member REPEATED_MODEL_DIRECTIVES (fst c)"
  have "mset (map dir_content (filter is_repeated xs)) = filter_mset ?r (mset (map dir_content xs))"
    and "mset (map dir_content (filter is_regular xs)) = filter_mset (\<lambda>c. \<not> ?r c) (mset (map dir_content xs))" for xs
    by (induction xs) (simp_all add: is_repeated_def is_regular_def dir_content_def)
  then show "mset (map dir_content (filter is_regular ds)) = mset (map dir_content (filter is_regular es))"
    "mset (map dir_content (filter is_repeated ds)) = mset (map dir_content (filter is_repeated es))"
    using assms by simp_all
qed

lemma repeated_changes_empty:
  assumes "wf_model p" "wf_model n" "mset (map dir_content (repeated p)) = mset (map dir_content (repeated n))"
  shows "push_repeated_changes loc p n = Some []"
proof -
  note p = wf_model_directives(2) [OF assms(1)] and n = wf_model_directives(2,3) [OF assms(2)]
  have "created_by dir_content (repeated p) (repeated n) = []" "deleted_by dir_content (repeated p) (repeated n) = []"
    using same_content_lists(1,2) [OF assms(3), of "\<lambda>x. x" dir_content] n(2) by simp_all
  then show ?thesis
    by (simp add: push_repeated_changes_def created_repeated_eq [OF p n(1)] deleted_repeated_eq [OF p n(1)])
qed


lemma updated_model_empty:
  assumes "wf_model p" "wf_model n" "model_content p = model_content n"
  shows "push_updated_model (p, n) = Some []"
proof -
  let ?m = "mname p" and ?loc = "ModelLoc (mname p)"
  have eqf: "mset (map field_content (model_fields p)) = mset (map field_content (model_fields n))"
    and eqd: "mset (map dir_content (model_directives p)) = mset (map dir_content (model_directives n))"
    using assms(3) by (simp_all add: model_content_def)
  have key: "fst (field_content f) = fname f" for f by (simp add: field_content_def)
  note wfp = wf_model_fields [OF assms(1)] and wfn = wf_model_fields [OF assms(2)]
  note same = same_content_lists [OF eqf key wfn(1)]
  have fields: "push_updated_fields ?m (pairs_by fname (model_fields p) (model_fields n)) = Some []"
    unfolding push_updated_fields_def
  proof (rule concat_map_opt_empty)
    fix x assume x: "x \<in> set (pairs_by fname (model_fields p) (model_fields n))"
    obtain f g where fg: "x = (f, g)" by (cases x)
    from same(3) [OF x [unfolded fg]] have "f \<in> set (model_fields p)" "g \<in> set (model_fields n)"
      "field_content f = field_content g" by blast+
    with wfp(2) wfn(2) fg show "push_updated_field ?m x = Some []" by (simp add: updated_field_empty)
  qed
  have dirs: "push_directive_changes ?loc (regular p) (regular n) = Some []"
    using assms(1,2) by (intro directive_changes_empty wf_model_directives dir_content_split eqd)
  have rep: "push_repeated_changes ?loc p n = Some []"
    using assms(1,2) by (intro repeated_changes_empty dir_content_split eqd)
  have "push_updated_model (p, n) = append_opt
      (append_opt (push_created_fields ?m (created_fields p n))
        (append_opt (Some (push_deleted_fields ?m (deleted_fields p n)))
          (push_updated_fields ?m (field_pairs p n))))
      (append_opt (push_directive_changes ?loc (regular p) (regular n)) (push_repeated_changes ?loc p n))"
    by (rule push_updated_model_parts)
  then show ?thesis
    by (simp add: dirs rep differ_lists same(1,2) fields push_created_fields_def push_deleted_fields_def)
qed

lemma diff_empty:
  assumes wf: "wf_schema p" "wf_schema n" and eq: "schema_content p = schema_content n"
  shows "diff p n = Some []"
proof -
  have eqe: "mset (map enum_content (enums p)) = mset (map enum_content (enums n))"
    and eqm: "mset (map model_content (models p)) = mset (map model_content (models n))"
    using eq by (simp_all add: schema_content_def)
  have keys: "fst (enum_content e) = ename e" "fst (model_content m) = mname m" for e m
    by (simp_all add: enum_content_def model_content_def)
  have dist: "distinct (map ename (enums n))" "distinct (map mname (models n))"
    using wf(2) by (simp_all add: wf_schema_def)
  note es = same_content_lists [OF eqe keys(1) dist(1)]
    and ms = same_content_lists [OF eqm keys(2) dist(2)]
  have "push_updated_enums (pairs_by ename (enums p) (enums n)) = Some []"
    unfolding push_updated_enums_def
  proof (rule concat_map_opt_empty)
    fix x assume x: "x \<in> set (pairs_by ename (enums p) (enums n))"
    obtain a b where ab: "x = (a, b)" by (cases x)
    from es(3) [OF x [unfolded ab]] have "a \<in> set (enums p)" "b \<in> set (enums n)"
      "enum_content a = enum_content b" by blast+
    with wf ab show "push_updated_enum x = Some []"
      by (simp add: updated_enum_empty wf_schema_def list_all_iff)
  qed
  moreover have "push_updated_models (pairs_by mname (models p) (models n)) = Some []"
    unfolding push_updated_models_def
  proof (rule concat_map_opt_empty)
    fix x assume x: "x \<in> set (pairs_by mname (models p) (models n))"
    obtain a b where ab: "x = (a, b)" by (cases x)
    from ms(3) [OF x [unfolded ab]] have "a \<in> set (models p)" "b \<in> set (models n)"
      "model_content a = model_content b" by blast+
    with wf ab show "push_updated_model x = Some []"
      by (simp add: updated_model_empty wf_schema_def list_all_iff)
  qed
  ultimately show ?thesis
    by (simp add: diff_def push_enums_def push_models_def differ_lists es(1,2) ms(1,2)
        push_created_enums_def push_deleted_enums_def push_created_models_def push_deleted_models_def)
qed

text \<open>A diff without steps creates no model.\<close>

lemma empty_diff_plain:
  assumes "diff p n = Some []"
  shows "new_models_plain p n"
proof -
  have "push_created_models (created_models p n) = Some []"
    using assms by (auto simp: diff_def push_models_def append_opt_Some_iff)
  then have "created_models p n = []"
    by (cases "created_models p n")
      (auto simp: push_created_models_def concat_map_opt_Cons append_opt_Some_iff push_created_model_def)
  then show ?thesis by (simp add: new_models_plain_def)
qed


subsection \<open>Properties\<close>

text \<open>Two schemas: a field, a directive argument, an enum value and an index change.\<close>

definition example_arg :: "string \<Rightarrow> expression \<Rightarrow> argument" where
  "example_arg n e = \<lparr>arg_name = ident_new n, arg_value = e, arg_span = span_empty\<rparr>"

definition example_field :: "string \<Rightarrow> string \<Rightarrow> directive list \<Rightarrow> ast_field" where
  "example_field n t ds = \<lparr>field_type = ident_new t, field_name = ident_new n, field_arity = Required,
     field_default_value = None, field_directives = ds, field_documentation = None, field_span = span_empty\<rparr>"

definition example_model :: "string \<Rightarrow> ast_field list \<Rightarrow> directive list \<Rightarrow> ast_model" where
  "example_model n fs ds = \<lparr>model_name = ident_new n, model_fields = fs, model_directives = ds,
     model_documentation = None, model_span = span_empty\<rparr>"

definition example_enum :: "string \<Rightarrow> string list \<Rightarrow> ast_enum" where
  "example_enum n vs = \<lparr>enum_name = ident_new n,
     enum_values = map (\<lambda>v. \<lparr>value_name = v, value_span = span_empty\<rparr>) vs,
     enum_directives = [], enum_documentation = None, enum_span = span_empty\<rparr>"

definition example_unique :: "string list \<Rightarrow> directive" where
  "example_unique fs = directive_new ''unique''
     [example_arg [] (Array (map (\<lambda>f. ConstantValue f span_empty) fs) span_empty)]"

definition example_before :: schema_ast where
  "example_before = \<lparr>tops = [TopEnum (example_enum ''Mood'' [''Calm'', ''Angry'']),
     TopModel (example_model ''Cat'' [example_field ''id'' ''Int'' [directive_new ''id'' []],
        example_field ''name'' ''String'' [directive_new ''default'' [example_arg [] (StringValue ''Tom'' span_empty)]]]
      [example_unique [''name'']])]\<rparr>"

definition example_after :: schema_ast where
  "example_after = \<lparr>tops = [TopEnum (example_enum ''Mood'' [''Calm'', ''Happy'']),
     TopModel (example_model ''Cat'' [example_field ''id'' ''Int'' [directive_new ''id'' []],
        example_field ''name'' ''String'' [directive_new ''default'' [example_arg [] (StringValue ''Kit'' span_empty)]],
        example_field ''age'' ''Int'' []]
      [example_unique [''name''], example_unique [''name'', ''age'']]),
     TopModel (example_model ''Dog'' [example_field ''id'' ''Int'' []] [])]\<rparr>"

lemma example_wf: "wf_schema example_before" "wf_schema example_after"
    "new_models_plain example_before example_after"
  by code_simp+



text \<open>C2: The differ decides whether two schemas say the same: it emits no step exactly when they have
  the same content.\<close>

theorem diff_empty_iff:
  assumes "wf_schema previous" "wf_schema next"
  shows "diff previous next = Some [] \<longleftrightarrow> schema_content previous = schema_content next"
proof
  assume e: "diff previous next = Some []"
  obtain steps s where "diff previous next = Some steps" "apply_steps previous steps = Inr s"
    and m: "merged_content previous next s"
    using diff_applies [OF assms empty_diff_plain [OF e]] .
  with e have "s = previous" by (simp add: apply_steps_def)
  with merged_schema_content [OF assms m] show "schema_content previous = schema_content next" by simp
qed (rule diff_empty [OF assms])

theorem diff_empty_iff_witness: "diff example_before example_before = Some []"
  using diff_empty_iff [OF example_wf(1) example_wf(1)] by simp




subsection \<open>A new model with a repeated directive\<close>

text \<open>
  The steps for a new model create each directive and then its arguments, and name the directive
  by its name only. The second of two directives of one name is created empty, and its arguments
  go to the first.
\<close>

lemma emits_duplicate_directive:
  assumes "list_all wf_argument (dir_arguments d)"
  shows "dir_emits loc (push_created_directive loc d) (\<lambda>ds. ds = [e] \<and> dname e = dname d)
    (\<lambda>_. [e\<lparr>dir_arguments := dir_arguments e @ map mk_arg (dir_arguments d)\<rparr>,
          \<lparr>dir_name = new_ident (dname d), dir_arguments = [], dir_span = new_span\<rparr>])"
proof -
  let ?l = "plain_loc loc (dname d)"
  let ?new = "\<lparr>dir_name = new_ident (dname d), dir_arguments = [], dir_span = new_span\<rparr>"
  have C: "dir_emits loc (Some [CreateDirective ?l]) (\<lambda>ds. ds = [e] \<and> dname e = dname d) (\<lambda>ds. ds @ [?new])"
    by (rule emits_single) (simp add: apply_create_directive_def)
  have "arg_emits ?l (concat_map_opt (push_created_directive_argument ?l) (dir_arguments d))
      (\<lambda>_. True) (args.create_all (dir_arguments d))"
    using assms by (intro args_lens.emits_concat_map emits_created_argument) (simp_all add: list_all_iff)
  note A = emits_args_in_directives [OF this]
  have "dir_emits loc (push_created_directive loc d) (\<lambda>ds. ds = [e] \<and> dname e = dname d)
      (\<lambda>ds. update_first (\<lambda>x. dname x = dname d)
         (\<lambda>x. x\<lparr>dir_arguments := args.create_all (dir_arguments d) (dir_arguments x)\<rparr>) (ds @ [?new]))"
    unfolding push_created_directive_def Let_def
    by (rule directives_lens.emits_append [OF C A]) auto
  then show ?thesis
    by (rule directives_lens.emits_weaken) (auto simp: fold_append)
qed




end
