(* ===== verification/Step_Invariants.thy ===== *)
theory Step_Invariants
  imports Directive_Steps
begin

section \<open>What every step keeps\<close>

text \<open>
  Invariants of the calculator over arbitrary step sequences: entries that are neither enums nor
  models are never touched, and names stay unique as long as no step renames. The differ never
  emits a renaming step.
\<close>

subsection \<open>Other entries\<close>

definition other_tops :: "schema_ast \<Rightarrow> top list" where
  "other_tops s = filter (\<lambda>t. as_enum t = None \<and> as_model t = None) (tops s)"

lemma other_tops_modify [simp]:
  "other_tops (modify_enum n f s) = other_tops s"
  "other_tops (modify_model n g s) = other_tops s"
  by (auto simp: other_tops_def modify_enum_def modify_model_def intro!: filter_update_first_other
      elim!: is_enum_namedE is_model_namedE)

lemma other_tops_modify_field [simp]: "other_tops (modify_field m f g s) = other_tops s"
  by (simp add: modify_field_def)

lemma other_tops_modify_directives [simp]:
  "other_tops (modify_directives loc f s) = other_tops s"
  by (cases loc) simp_all

lemma other_tops_modify_directive [simp]: "other_tops (modify_directive l f s) = other_tops s"
  by (simp add: modify_directive_def)

lemma other_tops_filter:
  "other_tops (s\<lparr>tops := filter (\<lambda>t. case t of TopEnum e \<Rightarrow> P e | _ \<Rightarrow> True) (tops s)\<rparr>) = other_tops s"
  "other_tops (s\<lparr>tops := filter (\<lambda>t. case t of TopModel m \<Rightarrow> Q m | _ \<Rightarrow> True) (tops s)\<rparr>) = other_tops s"
proof -
  show "other_tops (s\<lparr>tops := filter (\<lambda>t. case t of TopEnum e \<Rightarrow> P e | _ \<Rightarrow> True) (tops s)\<rparr>) = other_tops s"
    unfolding other_tops_def by (simp del: filter_filter, rule filter_filter_implies) (auto split: top.splits)
  show "other_tops (s\<lparr>tops := filter (\<lambda>t. case t of TopModel m \<Rightarrow> Q m | _ \<Rightarrow> True) (tops s)\<rparr>) = other_tops s"
    unfolding other_tops_def by (simp del: filter_filter, rule filter_filter_implies) (auto split: top.splits)
qed

lemmas step_defs = apply_create_enum_def apply_update_enum_def apply_delete_enum_def
  apply_create_model_def apply_update_model_def apply_delete_model_def
  apply_create_field_def apply_update_field_def apply_delete_field_def
  apply_create_directive_def apply_delete_directive_def apply_create_directive_argument_def
  apply_update_directive_argument_def apply_delete_directive_argument_def

lemma other_tops_step: "apply_step x s = Inr s' \<Longrightarrow> other_tops s' = other_tops s"
proof (cases x)
  case (CreateEnum n vs)
  moreover assume "apply_step x s = Inr s'"
  ultimately show ?thesis
    by (auto simp: apply_create_enum_def other_tops_def split: option.splits)
next
  case (CreateModel n)
  moreover assume "apply_step x s = Inr s'"
  ultimately show ?thesis
    by (auto simp: apply_create_model_def other_tops_def split: option.splits)
next
  case (DeleteEnum n)
  moreover assume "apply_step x s = Inr s'"
  ultimately show ?thesis
    by (auto simp: apply_delete_enum_def and_then_Inr_iff other_tops_filter)
next
  case (DeleteModel n)
  moreover assume "apply_step x s = Inr s'"
  ultimately show ?thesis
    by (auto simp: apply_delete_model_def and_then_Inr_iff other_tops_filter)
qed (auto simp: step_defs and_then_Inr_iff split: option.splits)

lemma others_other_tops:
  assumes "other_tops s' = other_tops s"
  shows "types s' = types s" "sources s' = sources s" "generators s' = generators s"
proof -
  have "as_type t = None \<and> as_source t = None \<and> as_generator t = None"
    if "\<not> (as_enum t = None \<and> as_model t = None)" for t
    using that by (cases t) auto
  then show "types s' = types s" "sources s' = sources s" "generators s' = generators s"
    unfolding types_def sources_def generators_def
    by (blast intro: map_filter_frame [OF assms [unfolded other_tops_def]])+
qed

subsection \<open>Unique names\<close>

definition unique_names :: "schema_ast \<Rightarrow> bool" where
  "unique_names s \<longleftrightarrow> distinct (map ename (enums s)) \<and> distinct (map mname (models s)) \<and>
     list_all (\<lambda>m. distinct (map fname (model_fields m))) (models s)"

fun no_rename :: "migration_step \<Rightarrow> bool" where
  "no_rename (UpdateModel _ new_name) = (new_name = None)"
| "no_rename (UpdateField _ _ new_name _ _) = (new_name = None)"
| "no_rename (UpdateEnum _ new_name _ _) = (new_name = None)"
| "no_rename _ = True"

lemma unique_names_modify_enum:
  assumes "unique_names s" and "\<And>e. enum_name (f e) = enum_name e"
  shows "unique_names (modify_enum n f s)"
proof -
  have c: "enums_changed (update_first (\<lambda>e. ename e = n) f) s (modify_enum n f s)"
    by (rule modify_enum_changed)
  have "map ename (update_first (\<lambda>e. ename e = n) f (enums s)) = map ename (enums s)"
    by (rule map_update_first) (simp add: assms(2))
  with c assms(1) enums_changed_frame(1) [OF c] show ?thesis
    by (simp add: unique_names_def enums_changed_def)
qed

lemma set_update_first: "x \<in> set (update_first p f xs) \<Longrightarrow> x \<in> set xs \<or> (\<exists>y\<in>set xs. p y \<and> x = f y)"
  by (induction xs) (auto split: if_splits)

lemma unique_names_modify_model:
  assumes "unique_names s" and "\<And>m. model_name (f m) = model_name m"
    and "\<And>m. m \<in> set (models s) \<Longrightarrow> mname m = n \<Longrightarrow>
      distinct (map fname (model_fields m)) \<Longrightarrow> distinct (map fname (model_fields (f m)))"
  shows "unique_names (modify_model n f s)"
proof -
  let ?ms = "update_first (\<lambda>m. mname m = n) f (models s)"
  have c: "models_changed (update_first (\<lambda>m. mname m = n) f) s (modify_model n f s)"
    by (rule modify_model_changed)
  have "map mname ?ms = map mname (models s)"
    by (rule map_update_first) (simp add: assms(2))
  moreover have "distinct (map fname (model_fields m))" if "m \<in> set ?ms" for m
    using set_update_first [OF that] assms(1,3) by (auto simp: unique_names_def list_all_iff)
  ultimately show ?thesis
    using c assms(1) models_changed_frame(1) [OF c]
    by (simp add: unique_names_def models_changed_def list_all_iff)
qed

lemma unique_names_modify_field:
  assumes "unique_names s" and "\<And>x. field_name (g x) = field_name x"
  shows "unique_names (modify_field m f g s)"
  unfolding modify_field_def
  by (rule unique_names_modify_model) (simp_all add: assms map_update_first)

lemma unique_names_modify_directives:
  "unique_names s \<Longrightarrow> unique_names (modify_directives loc f s)"
  by (cases loc) (auto intro: unique_names_modify_enum unique_names_modify_model unique_names_modify_field)

lemma unique_names_modify_directive: "unique_names s \<Longrightarrow> unique_names (modify_directive l f s)"
  by (simp add: modify_directive_def unique_names_modify_directives)


lemma unique_names_delete:
  assumes "unique_names s"
  shows "unique_names (s\<lparr>tops := filter (\<lambda>t. case t of TopEnum e \<Rightarrow> P e | _ \<Rightarrow> True) (tops s)\<rparr>)"
    "unique_names (s\<lparr>tops := filter (\<lambda>t. case t of TopModel m \<Rightarrow> Q m | _ \<Rightarrow> True) (tops s)\<rparr>)"
proof -
  let ?e = "\<lambda>t. case t of TopEnum e \<Rightarrow> P e | _ \<Rightarrow> True" and ?m = "\<lambda>t. case t of TopModel m \<Rightarrow> Q m | _ \<Rightarrow> True"
  have "List.map_filter as_enum (filter ?e ts) = filter P (List.map_filter as_enum ts)"
    "List.map_filter as_model (filter ?e ts) = List.map_filter as_model ts"
    "List.map_filter as_enum (filter ?m ts) = List.map_filter as_enum ts"
    "List.map_filter as_model (filter ?m ts) = filter Q (List.map_filter as_model ts)" for ts
    by (induction ts) (auto simp: List.map_filter_simps split: top.split)
  with assms show "unique_names (s\<lparr>tops := filter ?e (tops s)\<rparr>)" "unique_names (s\<lparr>tops := filter ?m (tops s)\<rparr>)"
    by (auto simp: unique_names_def enums_def models_def list_all_iff distinct_map_filter)
qed

lemma unique_names_create:
  "unique_names s \<Longrightarrow> find_enum s (ename e) = None \<Longrightarrow> unique_names (s\<lparr>tops := tops s @ [TopEnum e]\<rparr>)"
  "unique_names s \<Longrightarrow> find_model s (mname m) = None \<Longrightarrow> distinct (map fname (model_fields m)) \<Longrightarrow>
     unique_names (s\<lparr>tops := tops s @ [TopModel m]\<rparr>)"
  by (auto simp: unique_names_def find_enum_def find_model_def find_None_iff enums_def models_def
      map_filter_append List.map_filter_simps image_iff)

lemma unique_names_step:
  assumes "apply_step x s = Inr s'" "no_rename x" "unique_names s"
  shows "unique_names s'"
proof (cases x)
  case (CreateEnum n vs)
  with assms show ?thesis
    by (auto simp: apply_create_enum_def intro!: unique_names_create split: option.splits)
next
  case (CreateModel n)
  with assms show ?thesis
    by (auto simp: apply_create_model_def intro!: unique_names_create split: option.splits)
next
  case (DeleteEnum n)
  with assms show ?thesis by (auto simp: apply_delete_enum_def and_then_Inr_iff unique_names_delete)
next
  case (DeleteModel n)
  with assms show ?thesis by (auto simp: apply_delete_model_def and_then_Inr_iff unique_names_delete)
next
  case (UpdateEnum n nn cs ds)
  with assms show ?thesis
    by (auto simp: apply_update_enum_def and_then_Inr_iff add_enum_values_def remove_enum_values_def
        intro!: unique_names_modify_enum)
next
  case (UpdateModel n nn)
  with assms show ?thesis
    by (auto simp: apply_update_model_def and_then_Inr_iff intro!: unique_names_modify_model)
next
  case (UpdateField m f nn t a)
  with assms show ?thesis
    by (cases t; cases a)
      (auto simp: apply_update_field_def and_then_Inr_iff update_field_arity_def update_field_type_def
        intro!: unique_names_modify_field split: option.splits)
next
  case (DeleteField m f)
  with assms show ?thesis
    by (auto simp: apply_delete_field_def and_then_Inr_iff distinct_map_filter
        intro!: unique_names_modify_model)
next
  case (CreateField m f t a)
  then have new: "find_field s m f = None" and s': "s' = modify_model m (\<lambda>md. md\<lparr>model_fields := model_fields md @
      [\<lparr>field_type = new_ident t, field_name = new_ident f, field_arity = a, field_default_value = None,
        field_directives = [], field_documentation = None, field_span = new_span\<rparr>]\<rparr>) s"
    using assms by (auto simp: apply_create_field_def and_then_Inr_iff split: option.splits)
  have "f \<notin> fname ` set (model_fields md)" if "md \<in> set (models s)" "mname md = m" for md
  proof -
    have "find_model s m = Some md"
      using find_distinct_key [of mname "models s" md] that assms(3)
      by (simp add: unique_names_def find_model_def)
    with new show ?thesis unfolding find_field_def by (simp add: find_None_iff) blast
  qed
  then show ?thesis
    unfolding s' by (intro unique_names_modify_model [OF assms(3)]) auto
qed (use assms in \<open>auto simp: step_defs and_then_Inr_iff
       intro!: unique_names_modify_directives unique_names_modify_directive\<close>)


subsection \<open>The differ never renames\<close>

definition all_steps :: "('a \<Rightarrow> bool) \<Rightarrow> 'a list option \<Rightarrow> bool" where
  "all_steps P r \<longleftrightarrow> (\<forall>st. r = Some st \<longrightarrow> list_all P st)"

named_theorems all_steps \<open>introduction rules for a property of all emitted steps\<close>

lemma all_steps_append [all_steps]: "all_steps P a \<Longrightarrow> all_steps P b \<Longrightarrow> all_steps P (append_opt a b)"
  by (auto simp: all_steps_def append_opt_Some_iff)

lemma all_steps_concat_map [all_steps]: "(\<And>x. all_steps P (f x)) \<Longrightarrow> all_steps P (concat_map_opt f xs)"
proof (induction xs)
  case (Cons x xs)
  then show ?case by (simp add: concat_map_opt_Cons all_steps_append)
qed (simp add: all_steps_def)

lemma all_steps_Some [all_steps]: "list_all P st \<Longrightarrow> all_steps P (Some st)"
  by (simp add: all_steps_def)

lemma all_steps_bind [all_steps]: "(\<And>x. all_steps P (f x)) \<Longrightarrow> all_steps P (Option.bind r f)"
  by (cases r) (simp_all add: all_steps_def)

lemma all_steps_map [all_steps]: "(\<And>x. list_all P (f x)) \<Longrightarrow> all_steps P (map_option f r)"
  by (cases r) (simp_all add: all_steps_def)

lemmas push_argument_defs = push_created_directive_argument_def push_updated_directive_argument_def
  push_deleted_directive_argument_def

lemmas push_directive_defs = push_created_directives_def push_created_directive_def
  push_updated_directives_def push_updated_directive_def push_deleted_directives_def
  push_deleted_directive_def push_created_directive_with_arguments_def
  push_deleted_directive_with_arguments_def

lemmas push_node_defs = push_created_fields_def push_created_field_def push_deleted_fields_def
  push_updated_fields_def push_updated_field_def push_created_enums_def push_created_enum_def
  push_deleted_enums_def push_updated_enums_def push_updated_enum_def push_created_models_def
  push_created_model_def push_deleted_models_def push_updated_models_def push_updated_model_def
  push_enums_def push_models_def diff_def

lemma no_rename_arguments:
  "all_steps no_rename (push_created_directive_argument l a)"
  "all_steps no_rename (push_updated_directive_argument l a b)"
  by (auto simp: push_argument_defs intro!: all_steps)

lemma no_rename_directives:
  "all_steps no_rename (push_created_directives loc ds)"
  "all_steps no_rename (push_updated_directives loc prs)"
  "all_steps no_rename (Some (push_deleted_directives loc ds))"
  "all_steps no_rename (push_created_directive_with_arguments loc d)"
  "all_steps no_rename (push_deleted_directive_with_arguments loc d)"
  by (auto simp: push_directive_defs Let_def push_deleted_directive_argument_def list_all_iff
      intro!: all_steps no_rename_arguments)


lemma all_steps_pairs:
  assumes "\<And>p n. k n = k p \<Longrightarrow> all_steps P (f (p, n))"
  shows "all_steps P (concat_map_opt f (pairs_by k ps ns))"
proof -
  have "k n = k p" if "(p, n) \<in> set (pairs_by k ps ns)" for p n
    using that by (auto simp: pairs_by_def set_map_filter dest: find_Some_mem)
  then have "\<forall>x\<in>set (pairs_by k ps ns). all_steps P (f x)" using assms by auto
  moreover have "(\<forall>x\<in>set xs. all_steps P (f x)) \<Longrightarrow> all_steps P (concat_map_opt f xs)" for xs
    by (induction xs) (simp_all add: concat_map_opt_Cons all_steps_append all_steps_Some)
  ultimately show ?thesis by blast
qed

lemma no_rename_field: "fname n = fname p \<Longrightarrow> all_steps no_rename (push_updated_field m (p, n))"
  by (auto simp: push_updated_field_def Let_def diff_value_def
      intro!: all_steps no_rename_directives)

lemma no_rename_enum: "ename n = ename p \<Longrightarrow> all_steps no_rename (push_updated_enum (p, n))"
  by (auto simp: push_updated_enum_def Let_def diff_value_def
      intro!: all_steps no_rename_directives)

lemma no_rename_fields:
  "all_steps no_rename (push_created_fields m fs)"
  "all_steps no_rename (Some (push_deleted_fields m fs))"
  "all_steps no_rename (push_updated_fields m (pairs_by fname ps ns))"
  by (auto simp: push_created_fields_def push_created_field_def push_deleted_fields_def
      push_updated_fields_def list_all_iff
      intro!: all_steps_append all_steps_concat_map all_steps_Some no_rename_directives all_steps_pairs no_rename_field)

lemma no_rename_model: "all_steps no_rename (push_updated_model pn)"
  by (cases pn) (auto simp: push_updated_model_def Let_def differ_lists
      intro!: all_steps_append all_steps_bind all_steps_concat_map no_rename_fields no_rename_directives)

lemma no_rename_diff: "all_steps no_rename (diff p n)"
  by (auto simp: diff_def push_enums_def push_models_def differ_lists push_created_enums_def
      push_created_enum_def push_deleted_enums_def push_updated_enums_def push_created_models_def
      push_created_model_def push_deleted_models_def push_updated_models_def list_all_iff
      intro!: all_steps_append all_steps_concat_map all_steps_Some all_steps_pairs no_rename_enum
        no_rename_model no_rename_fields no_rename_directives)


subsection \<open>When a step applies\<close>

text \<open>The condition on the schema under which a step is applied.\<close>

fun step_enabled :: "migration_step \<Rightarrow> schema_ast \<Rightarrow> bool" where
  "step_enabled (CreateEnum n _) s = (find_enum s n = None)"
| "step_enabled (UpdateEnum n _ _ _) s = (find_enum s n \<noteq> None)"
| "step_enabled (DeleteEnum n) s = (find_enum s n \<noteq> None)"
| "step_enabled (CreateModel n) s = (find_model s n = None)"
| "step_enabled (UpdateModel n _) s = (find_model s n \<noteq> None)"
| "step_enabled (DeleteModel n) s = (find_model s n \<noteq> None)"
| "step_enabled (CreateField m f _ _) s = (find_model s m \<noteq> None \<and> find_field s m f = None)"
| "step_enabled (UpdateField m f _ _ _) s = (find_field s m f \<noteq> None)"
| "step_enabled (DeleteField m f) s = (find_field s m f \<noteq> None)"
| "step_enabled (CreateDirective l) s =
     (find_directives_mut (loc_location l) s \<noteq> None \<and>
      (case loc_arguments l of None \<Rightarrow> True
       | Some args \<Rightarrow> list_all (\<lambda>a. to_ast_expression (sarg_value a) \<noteq> None) args))"
| "step_enabled (DeleteDirective l) s =
     (case find_directives_mut (loc_location l) s of None \<Rightarrow> False
      | Some ds \<Rightarrow> list_all (\<lambda>d. matches_ast_directive l d \<noteq> None) ds)"
| "step_enabled (CreateDirectiveArgument l _ v) s =
     (find_directive_mut l s \<noteq> None \<and> to_ast_expression v \<noteq> None)"
| "step_enabled (UpdateDirectiveArgument l n v) s =
     (case find_directive_mut l s of None \<Rightarrow> False
      | Some d \<Rightarrow> n \<in> aname ` set (dir_arguments d) \<longrightarrow> to_ast_expression v \<noteq> None)"
| "step_enabled (DeleteDirectiveArgument l _) s = (find_directive_mut l s \<noteq> None)"

lemma map_opt_Some_iff: "(\<exists>ys. map_opt f xs = Some ys) \<longleftrightarrow> list_all (\<lambda>x. f x \<noteq> None) xs"
  by (induction xs) (auto simp: bind_eq_Some_conv)

lemma filter_opt_Some_iff: "(\<exists>ys. filter_opt f xs = Some ys) \<longleftrightarrow> list_all (\<lambda>x. f x \<noteq> None) xs"
proof (induction xs)
  case (Cons x xs)
  then show ?case by (cases "f x"; cases "filter_opt f xs") auto
qed simp

lemma find_field_no_model: "find_model s m = None \<Longrightarrow> find_field s m f = None"
  by (simp add: find_field_def)

lemma step_enabled_iff: "(\<exists>s'. apply_step x s = Inr s') \<longleftrightarrow> step_enabled x s"
proof (cases x)
  case (CreateDirective l)
  then show ?thesis
    using map_opt_Some_iff [of step_argument_into]
    by (auto simp: apply_create_directive_def and_then_Inr_iff step_argument_into_def split: option.split)
next
  case (DeleteDirective l)
  then show ?thesis
    using filter_opt_Some_iff [of "\<lambda>d. map_option Not (matches_ast_directive l d)"]
    by (auto simp: apply_delete_directive_def and_then_Inr_iff split: option.split)
next
  case (UpdateDirectiveArgument l n v)
  have "(\<exists>ys. map_opt (\<lambda>a. if aname a = n then map_option (\<lambda>e. a\<lparr>arg_value := e\<rparr>) (to_ast_expression v) else Some a) as
      = Some ys) \<longleftrightarrow> (n \<in> aname ` set as \<longrightarrow> to_ast_expression v \<noteq> None)" for as
    unfolding map_opt_Some_iff by (auto simp: list_all_iff)
  with UpdateDirectiveArgument show ?thesis
    by (auto simp: apply_update_directive_argument_def and_then_Inr_iff split: option.split)
next
  case (UpdateField m f nn t a)
  then show ?thesis
    by (cases "find_model s m") (simp_all add: apply_update_field_def and_then_Inr_iff find_mut_eq find_field_no_model)
next
  case (DeleteField m f)
  then show ?thesis
    by (cases "find_model s m") (simp_all add: apply_delete_field_def and_then_Inr_iff find_mut_eq find_field_no_model)
qed (auto simp: step_defs and_then_Inr_iff find_mut_eq split: option.split)


lemma rename_duplicates:
  assumes "new \<in> k ` set xs" "find (\<lambda>x. k x = old) xs = Some a" "old \<noteq> new" "\<And>x. k (f x) = new"
  shows "\<not> distinct (map k (update_first (\<lambda>x. k x = old) f xs))"
  using assms
proof (induction xs)
  case (Cons x xs)
  have "new \<in> k ` set (update_first p f ys)" if "find p ys = Some b" for p ys b
    using that Cons.prems(4) by (induction ys) (auto split: if_splits intro: rev_image_eqI)
  with Cons show ?case by (auto split: if_splits)
qed simp

subsection \<open>Properties\<close>

definition sample_schema :: schema_ast where
  "sample_schema = \<lparr>tops =
     [TopSource \<lparr>source_name = ident_new ''db'', source_properties = [], source_documentation = None,
        source_span = span_empty\<rparr>,
      TopModel \<lparr>model_name = ident_new ''Cat'', model_fields = [], model_directives = [],
        model_documentation = None, model_span = span_empty\<rparr>,
      TopModel \<lparr>model_name = ident_new ''Dog'', model_fields = [], model_directives = [],
        model_documentation = None, model_span = span_empty\<rparr>]\<rparr>"

text \<open>C9: Whatever steps are applied, the custom types, source blocks and generator blocks of a schema
  stay as they are: no migration step concerns them.\<close>

theorem steps_keep_other_entries:
  assumes "apply_steps s steps = Inr s'"
  shows "types s' = types s \<and> sources s' = sources s \<and> generators s' = generators s"
proof -
  have "other_tops s' = other_tops s"
  proof (rule fold_result_invariant [where P = "\<lambda>t. other_tops t = other_tops s",
          OF assms [unfolded apply_steps_def]])
    fix x t t' assume "other_tops t = other_tops s" "apply_step x t = Inr t'"
    with other_tops_step [OF this(2)] show "other_tops t' = other_tops s" by simp
  qed simp
  from others_other_tops [OF this] show ?thesis by blast
qed

theorem steps_keep_other_entries_witness:
  "\<exists>s'. apply_steps sample_schema [DeleteModel ''Cat'', CreateEnum ''Mood'' []] = Inr s'
     \<and> length (sources s') = 1"
proof -
  obtain s' where s': "apply_steps sample_schema [DeleteModel ''Cat'', CreateEnum ''Mood'' []] = Inr s'"
    by (simp add: apply_steps_def apply_delete_model_def apply_create_enum_def sample_schema_def
        find_model_def find_enum_def models_def enums_def List.map_filter_simps)
  moreover have "length (sources sample_schema) = 1" by code_simp
  ultimately show ?thesis using steps_keep_other_entries [OF s'] by auto
qed

text \<open>C6: Steps that do not rename keep names unique: if no two enums, no two models and no two fields
  of a model share a name, the same holds after any sequence of such steps.\<close>

theorem steps_keep_unique_names:
  assumes "apply_steps s steps = Inr s'" "list_all no_rename steps" "unique_names s"
  shows "unique_names s'"
  by (rule fold_result_invariant [where P = unique_names, OF assms(1) [unfolded apply_steps_def] assms(3)])
    (use assms(2) unique_names_step in \<open>auto simp: list_all_iff\<close>)

theorem steps_keep_unique_names_witness:
  "\<exists>s'. apply_steps sample_schema [DeleteModel ''Cat'', CreateEnum ''Mood'' []] = Inr s' \<and> unique_names s'"
proof -
  obtain s' where s': "apply_steps sample_schema [DeleteModel ''Cat'', CreateEnum ''Mood'' []] = Inr s'"
    by (simp add: apply_steps_def apply_delete_model_def apply_create_enum_def sample_schema_def
        find_model_def find_enum_def models_def enums_def List.map_filter_simps)
  moreover have "unique_names sample_schema" by code_simp
  ultimately show ?thesis using steps_keep_unique_names [OF s'] by simp
qed

text \<open>C7: The differ never renames: no step it emits carries a new name, whatever the schemas are.\<close>

theorem diff_never_renames:
  assumes "diff previous next = Some steps"
  shows "list_all no_rename steps"
  using no_rename_diff [of previous "next"] assms by (simp add: all_steps_def)

theorem diff_never_renames_witness:
  "\<exists>steps. diff schema_empty sample_schema = Some steps \<and> steps \<noteq> [] \<and> list_all no_rename steps"
proof -
  have "diff schema_empty sample_schema = Some [CreateModel ''Cat'', CreateModel ''Dog'']" by code_simp
  with diff_never_renames [OF this] show ?thesis by blast
qed

text \<open>C11: A renaming step does not look whether the new name is taken: renaming a model to the name of
  another one succeeds and leaves two models of that name, of which lookups find only the first.\<close>

theorem rename_may_collide:
  assumes "find_model s old = Some a" "find_model s new = Some b" "old \<noteq> new"
  shows "\<exists>s'. apply_step (UpdateModel old (Some new)) s = Inr s' \<and> \<not> distinct (map mname (models s'))"
proof -
  let ?f = "\<lambda>m. update_model_name m new"
  have "models_changed (update_first (\<lambda>m. mname m = old) ?f) s (modify_model old ?f s)"
    by (rule modify_model_changed)
  then have ms: "models (modify_model old ?f s) = update_first (\<lambda>m. mname m = old) ?f (models s)"
    by (simp add: models_changed_def)
  have "new \<in> mname ` set (models s)" "find (\<lambda>m. mname m = old) (models s) = Some a"
    using assms(1,2) by (auto simp: find_model_def dest: find_key_Some)
  then have "\<not> distinct (map mname (update_first (\<lambda>m. mname m = old) ?f (models s)))"
    using assms(3) by (intro rename_duplicates) (simp_all add: update_model_name_def)
  with ms assms(1) show ?thesis
    by (simp add: apply_update_model_def find_mut_eq apply_model_update.simps [abs_def])
qed


theorem rename_may_collide_witness:
  "\<exists>s'. apply_step (UpdateModel ''Cat'' (Some ''Dog'')) sample_schema = Inr s'
     \<and> \<not> distinct (map mname (models s'))"
proof -
  have "find_model sample_schema ''Cat'' \<noteq> None" by code_simp
  then obtain a where a: "find_model sample_schema ''Cat'' = Some a" by blast
  have "find_model sample_schema ''Dog'' \<noteq> None" by code_simp
  then obtain b where b: "find_model sample_schema ''Dog'' = Some b" by blast
  show ?thesis using rename_may_collide [OF a b] by simp
qed


end
