(* ===== verification/Sql_Schema.thy ===== *)
theory Sql_Schema
  imports Prisma_Prelude "HOL-Library.Word"
begin

section \<open>SQL schemas\<close>

text \<open>
  \<open>libs/sql-schema-describer/src/lib.rs\<close>: the description of a database schema that the SQL
  connector compares and migrates, with its lookups, and \<open>libs/sql-connection/src/sql_family.rs\<close>:
  the supported databases. The methods that unwrap a lookup return \<open>None\<close> where the code panics.
\<close>

subsection \<open>Supported databases\<close>

datatype sql_family = Postgres | Mysql | Sqlite

fun connector_type_string :: "sql_family \<Rightarrow> string" where
  "connector_type_string Postgres = ''postgresql''"
| "connector_type_string Mysql = ''mysql''"
| "connector_type_string Sqlite = ''sqlite''"

definition from_scheme :: "string \<Rightarrow> sql_family option" where
  "from_scheme url_scheme =
     (if url_scheme = ''sqlite'' \<or> url_scheme = ''file'' then Some Sqlite
      else if url_scheme = ''postgres'' \<or> url_scheme = ''postgresql'' then Some Postgres
      else if url_scheme = ''mysql'' then Some Mysql
      else None)"

definition scheme_is_supported :: "string \<Rightarrow> bool" where
  "scheme_is_supported url_scheme \<longleftrightarrow> from_scheme url_scheme \<noteq> None"

lemma from_scheme_connector_type [simp]: "from_scheme (connector_type_string f) = Some f"
  by (cases f) (simp_all add: from_scheme_def)

subsection \<open>Columns\<close>

datatype column_type_family =
    TInt
  | TFloat
  | TBoolean
  | TString
  | TDateTime
  | TBinary
  | TJson
  | TUuid
  | TGeometric
  | TLogSequenceNumber
  | TTextSearch
  | TTransactionId
  | TUnknown

fun column_type_family_display :: "column_type_family \<Rightarrow> string" where
  "column_type_family_display TInt = ''int''"
| "column_type_family_display TFloat = ''float''"
| "column_type_family_display TBoolean = ''boolean''"
| "column_type_family_display TString = ''string''"
| "column_type_family_display TDateTime = ''dateTime''"
| "column_type_family_display TBinary = ''binary''"
| "column_type_family_display TJson = ''json''"
| "column_type_family_display TUuid = ''uuid''"
| "column_type_family_display TGeometric = ''geometric''"
| "column_type_family_display TLogSequenceNumber = ''logSequenceNumber''"
| "column_type_family_display TTextSearch = ''textSearch''"
| "column_type_family_display TTransactionId = ''transactionId''"
| "column_type_family_display TUnknown = ''unknown''"

record column_type =
  type_raw :: string
  type_family :: column_type_family

definition column_type_pure :: "column_type_family \<Rightarrow> column_type" where
  "column_type_pure f = \<lparr>type_raw = [], type_family = f\<rparr>"

datatype column_arity = RequiredColumn | NullableColumn | ListColumn

record column =
  column_name :: string
  column_tpe :: column_type
  column_arity :: column_arity
  column_default :: "string option"
  column_auto_increment :: bool

definition is_required :: "column \<Rightarrow> bool" where
  "is_required c \<longleftrightarrow> column_arity c = RequiredColumn"

definition differs_in_something_except_default :: "column \<Rightarrow> column \<Rightarrow> bool" where
  "differs_in_something_except_default c other \<longleftrightarrow>
     column_name c \<noteq> column_name other
     \<or> type_family (column_tpe c) \<noteq> type_family (column_tpe other)
     \<or> column_arity c \<noteq> column_arity other"

subsection \<open>Indexes, keys, enums and sequences\<close>

datatype index_type = Unique | Normal

record index =
  index_name :: string
  index_columns :: "string list"
  index_tpe :: index_type

record sql_sequence =
  seq_name :: string
  seq_initial_value :: "32 word"
  seq_allocation_size :: "32 word"

record primary_key =
  pk_columns :: "string list"
  pk_sequence :: "sql_sequence option"

definition is_single_primary_key :: "primary_key \<Rightarrow> string \<Rightarrow> bool" where
  "is_single_primary_key pk c \<longleftrightarrow> length (pk_columns pk) = 1 \<and> c \<in> set (pk_columns pk)"

datatype foreign_key_action = NoAction | Restrict | Cascade | SetNull | SetDefault

record foreign_key =
  fk_constraint_name :: "string option"
  fk_columns :: "string list"
  fk_referenced_table :: string
  fk_referenced_columns :: "string list"
  fk_on_delete_action :: foreign_key_action

record sql_enum =
  sql_enum_name :: string
  sql_enum_values :: "string set"

subsection \<open>Tables\<close>

record sql_table =
  table_name :: string
  table_columns :: "column list"
  table_indices :: "index list"
  table_primary_key :: "primary_key option"
  table_foreign_keys :: "foreign_key list"

definition table_column :: "sql_table \<Rightarrow> string \<Rightarrow> column option" where
  "table_column t name = find (\<lambda>c. column_name c = name) (table_columns t)"

text \<open>\<open>expect\<close> panics on an absent column.\<close>

definition column_bang :: "sql_table \<Rightarrow> string \<Rightarrow> column option" where
  "column_bang t name = table_column t name"

definition has_column :: "sql_table \<Rightarrow> string \<Rightarrow> bool" where
  "has_column t name \<longleftrightarrow> table_column t name \<noteq> None"

definition foreign_key_for_column :: "sql_table \<Rightarrow> string \<Rightarrow> foreign_key option" where
  "foreign_key_for_column t c = find (\<lambda>fk. c \<in> set (fk_columns fk)) (table_foreign_keys t)"

definition is_part_of_foreign_key :: "sql_table \<Rightarrow> string \<Rightarrow> bool" where
  "is_part_of_foreign_key t c \<longleftrightarrow> foreign_key_for_column t c \<noteq> None"

definition is_part_of_primary_key :: "sql_table \<Rightarrow> string \<Rightarrow> bool" where
  "is_part_of_primary_key t c \<longleftrightarrow>
     (case table_primary_key t of Some pk \<Rightarrow> c \<in> set (pk_columns pk) | None \<Rightarrow> False)"

definition primary_key_columns :: "sql_table \<Rightarrow> string list" where
  "primary_key_columns t =
     (case table_primary_key t of Some pk \<Rightarrow> pk_columns pk | None \<Rightarrow> [])"

definition is_column_unique :: "sql_table \<Rightarrow> string \<Rightarrow> bool" where
  "is_column_unique t c \<longleftrightarrow>
     (\<exists>i\<in>set (table_indices t).
        index_tpe i = Unique \<and> length (index_columns i) = 1 \<and> c \<in> set (index_columns i))"

subsection \<open>Schemas\<close>

record sql_schema =
  sql_tables :: "sql_table list"
  sql_enums :: "sql_enum list"
  sql_sequences :: "sql_sequence list"

definition get_table :: "sql_schema \<Rightarrow> string \<Rightarrow> sql_table option" where
  "get_table s name = find (\<lambda>x. table_name x = name) (sql_tables s)"

definition has_table :: "sql_schema \<Rightarrow> string \<Rightarrow> bool" where
  "has_table s name \<longleftrightarrow> get_table s name \<noteq> None"

definition get_enum :: "sql_schema \<Rightarrow> string \<Rightarrow> sql_enum option" where
  "get_enum s name = find (\<lambda>x. sql_enum_name x = name) (sql_enums s)"

definition get_sequence :: "sql_schema \<Rightarrow> string \<Rightarrow> sql_sequence option" where
  "get_sequence s name = find (\<lambda>x. seq_name x = name) (sql_sequences s)"

definition schema_table :: "sql_schema \<Rightarrow> string \<Rightarrow> string + sql_table" where
  "schema_table s name =
     (case find (\<lambda>t. table_name t = name) (sql_tables s) of
        Some t \<Rightarrow> Inr t
      | None \<Rightarrow> Inl (''Table '' @ name @ '' not found''))"

definition table_bang :: "sql_schema \<Rightarrow> string \<Rightarrow> sql_table option" where
  "table_bang s name = (case schema_table s name of Inr t \<Rightarrow> Some t | Inl _ \<Rightarrow> None)"

definition sql_schema_empty :: sql_schema where
  "sql_schema_empty = \<lparr>sql_tables = [], sql_enums = [], sql_sequences = []\<rparr>"

subsection \<open>Lookups by name\<close>

definition table_names :: "sql_schema \<Rightarrow> string set" where
  "table_names s = table_name ` set (sql_tables s)"

definition column_names :: "sql_table \<Rightarrow> string set" where
  "column_names t = column_name ` set (table_columns t)"

lemma table_names_empty [simp]: "table_names sql_schema_empty = {}"
  by (simp add: table_names_def sql_schema_empty_def)

lemma sql_tables_empty [simp]: "sql_tables sql_schema_empty = []"
  by (simp add: sql_schema_empty_def)

lemma has_table_iff: "has_table s n \<longleftrightarrow> n \<in> table_names s"
  by (auto simp: has_table_def get_table_def table_names_def find_None_iff)

lemma has_column_iff: "has_column t n \<longleftrightarrow> n \<in> column_names t"
  by (auto simp: has_column_def table_column_def column_names_def find_None_iff)

lemma get_table_Some: "get_table s n = Some t \<Longrightarrow> t \<in> set (sql_tables s) \<and> table_name t = n"
  by (auto simp: get_table_def dest: find_Some_mem)

lemma table_column_Some: "table_column t n = Some c \<Longrightarrow> c \<in> set (table_columns t) \<and> column_name c = n"
  by (auto simp: table_column_def dest: find_Some_mem)

lemma foreign_key_for_column_Some:
  "foreign_key_for_column t c = Some fk \<Longrightarrow> fk \<in> set (table_foreign_keys t) \<and> c \<in> set (fk_columns fk)"
  by (auto simp: foreign_key_for_column_def dest: find_Some_mem)

lemma schema_table_eq:
  "schema_table s n = (case get_table s n of Some t \<Rightarrow> Inr t | None \<Rightarrow> Inl (''Table '' @ n @ '' not found''))"
  by (simp add: schema_table_def get_table_def)

lemma table_bang_eq [simp]: "table_bang s n = get_table s n"
  by (simp add: table_bang_def schema_table_eq split: option.split)

lemma get_table_mem:
  "distinct (map table_name (sql_tables s)) \<Longrightarrow> t \<in> set (sql_tables s) \<Longrightarrow> get_table s (table_name t) = Some t"
  by (simp add: get_table_def find_distinct_key)

lemma get_table_exists: "n \<in> table_names s \<Longrightarrow> \<exists>t. get_table s n = Some t"
  using has_table_iff [of s n] by (auto simp: has_table_def)

lemma get_table_None: "get_table s n = None \<longleftrightarrow> n \<notin> table_names s"
  using has_table_iff [of s n] by (auto simp: has_table_def)

lemma get_table_names: "get_table s n = Some t \<Longrightarrow> n \<in> table_names s"
  by (metis get_table_None option.distinct(1))

lemma table_column_mem:
  "distinct (map column_name (table_columns t)) \<Longrightarrow> c \<in> set (table_columns t)
     \<Longrightarrow> table_column t (column_name c) = Some c"
  by (simp add: table_column_def find_distinct_key)

lemma table_column_None: "table_column t n = None \<longleftrightarrow> n \<notin> column_names t"
  using has_column_iff [of t n] by (auto simp: has_column_def)

end
