(* ===== verification/Sql_Steps.thy ===== *)
theory Sql_Steps
  imports Sql_Schema
begin

section \<open>SQL migration steps\<close>

text \<open>
  \<open>sql-migration-connector/src/sql_migration.rs\<close>: the steps of a database migration and the
  migration itself, with the steps the differ found, their corrected form that is executed, and
  the steps that undo them.
\<close>

record create_table_step =
  ct_table :: sql_table

record drop_table_step =
  dt_name :: string

record drop_tables_step =
  dts_names :: "string list"

record add_column =
  add_col :: column

record drop_column =
  dc_name :: string

record alter_column =
  alter_name :: string
  alter_col :: column

record drop_foreign_key =
  dfk_constraint_name :: string

datatype table_change =
    AddColumn add_column
  | AlterColumn alter_column
  | DropColumn drop_column
  | DropForeignKey drop_foreign_key

record alter_table_step =
  at_table :: sql_table
  at_changes :: "table_change list"

record create_index_step =
  ci_table :: string
  ci_index :: index

record drop_index_step =
  di_table :: string
  di_name :: string

record alter_index_step =
  ai_table :: string
  ai_index_name :: string
  ai_index_new_name :: string

datatype sql_migration_step =
    CreateTable create_table_step
  | AlterTable alter_table_step
  | DropTable drop_table_step
  | DropTables drop_tables_step
  | RenameTable string string
  | RawSql string
  | CreateIndex create_index_step
  | DropIndex drop_index_step
  | AlterIndex alter_index_step

record pretty_sql_migration_step =
  pretty_step :: sql_migration_step
  pretty_raw :: string

record sql_migration =
  mig_before :: sql_schema
  mig_after :: sql_schema
  mig_original_steps :: "sql_migration_step list"
  mig_corrected_steps :: "sql_migration_step list"
  mig_rollback :: "sql_migration_step list"

definition sql_migration_empty :: sql_migration where
  "sql_migration_empty =
     \<lparr>mig_before = sql_schema_empty, mig_after = sql_schema_empty,
      mig_original_steps = [], mig_corrected_steps = [], mig_rollback = []\<rparr>"

end
