(* ===== verification/Sql_Differ.thy ===== *)
theory Sql_Differ
  imports Sql_Steps
begin

section \<open>The SQL schema differ\<close>

text \<open>
  \<open>sql-migration-connector/src/sql_schema_differ.rs\<close>: the difference of two SQL schemas as six
  lists of changes and the order in which they become steps. Log output is left out.
\<close>

definition MIGRATION_TABLE_NAME :: string where
  "MIGRATION_TABLE_NAME = ''_Migration''"

record sql_schema_diff =
  diff_drop_tables :: "drop_table_step list"
  diff_create_tables :: "create_table_step list"
  diff_alter_tables :: "alter_table_step list"
  diff_create_indexes :: "create_index_step list"
  diff_drop_indexes :: "drop_index_step list"
  diff_alter_indexes :: "alter_index_step list"

definition wrap_as_step :: "'a list \<Rightarrow> ('a \<Rightarrow> sql_migration_step) \<Rightarrow> sql_migration_step list" where
  "wrap_as_step steps wrap_fn = map wrap_fn steps"

definition into_steps :: "sql_schema_diff \<Rightarrow> sql_migration_step list" where
  "into_steps d =
     wrap_as_step (diff_drop_indexes d) DropIndex
     @ wrap_as_step (diff_drop_tables d) DropTable
     @ wrap_as_step (diff_create_tables d) CreateTable
     @ wrap_as_step (diff_alter_tables d) AlterTable
     @ wrap_as_step (diff_create_indexes d) CreateIndex
     @ wrap_as_step (diff_alter_indexes d) AlterIndex"

subsection \<open>Comparing parts\<close>

definition indexes_are_equivalent :: "index \<Rightarrow> index \<Rightarrow> bool" where
  "indexes_are_equivalent first second \<longleftrightarrow>
     index_columns first = index_columns second \<and> index_tpe first = index_tpe second"

definition foreign_keys_match :: "foreign_key \<Rightarrow> foreign_key \<Rightarrow> bool" where
  "foreign_keys_match previous next \<longleftrightarrow>
     fk_referenced_table previous = fk_referenced_table next
     \<and> fk_referenced_columns previous = fk_referenced_columns next
     \<and> fk_columns previous = fk_columns next
     \<and> fk_on_delete_action previous = fk_on_delete_action next"

fun foreign_key_changed :: "foreign_key option \<Rightarrow> foreign_key option \<Rightarrow> bool" where
  "foreign_key_changed None None = False"
| "foreign_key_changed (Some previous) (Some next) = (\<not> foreign_keys_match previous next)"
| "foreign_key_changed _ _ = True"

subsection \<open>Tables\<close>

definition create_tables :: "sql_schema \<Rightarrow> sql_schema \<Rightarrow> create_table_step list" where
  "create_tables previous next =
     map (\<lambda>t. \<lparr>ct_table = t\<rparr>)
       (filter (\<lambda>t. \<not> has_table previous (table_name t) \<and> table_name t \<noteq> MIGRATION_TABLE_NAME)
          (sql_tables next))"

definition drop_tables :: "sql_schema \<Rightarrow> sql_schema \<Rightarrow> drop_table_step list" where
  "drop_tables previous next =
     map (\<lambda>t. \<lparr>dt_name = table_name t\<rparr>)
       (filter (\<lambda>t. \<not> has_table next (table_name t) \<and> table_name t \<noteq> MIGRATION_TABLE_NAME)
          (sql_tables previous))"

definition drop_columns :: "sql_table \<Rightarrow> sql_table \<Rightarrow> table_change list" where
  "drop_columns previous next =
     map (\<lambda>c. DropColumn \<lparr>dc_name = column_name c\<rparr>)
       (filter (\<lambda>c. \<not> has_column next (column_name c)) (table_columns previous))"

definition add_columns :: "sql_table \<Rightarrow> sql_table \<Rightarrow> table_change list" where
  "add_columns previous next =
     map (\<lambda>c. AddColumn \<lparr>add_col = c\<rparr>)
       (filter (\<lambda>c. \<not> has_column previous (column_name c)) (table_columns next))"

text \<open>The comparison of one column inside the loop of \<open>alter_columns\<close>.\<close>

definition column_altered :: "sql_table \<Rightarrow> sql_table \<Rightarrow> column \<Rightarrow> column \<Rightarrow> bool" where
  "column_altered previous next previous_column next_column =
     (let previous_fk = foreign_key_for_column previous (column_name previous_column);
          next_fk = foreign_key_for_column next (column_name next_column);
          is_fk_case = previous_fk \<noteq> None \<and> next_fk \<noteq> None;
          differs_in_something =
            column_name previous_column \<noteq> column_name next_column
            \<or> type_family (column_tpe previous_column) \<noteq> type_family (column_tpe next_column)
            \<or> (column_arity previous_column \<noteq> column_arity next_column \<and> \<not> is_fk_case)
      in differs_in_something \<or> foreign_key_changed previous_fk next_fk)"

definition alter_columns :: "sql_table \<Rightarrow> sql_table \<Rightarrow> table_change list" where
  "alter_columns previous next =
     List.map_filter
       (\<lambda>next_column.
          case table_column previous (column_name next_column) of
            None \<Rightarrow> None
          | Some previous_column \<Rightarrow>
              if column_altered previous next previous_column next_column
              then Some (AlterColumn \<lparr>alter_name = column_name previous_column, alter_col = next_column\<rparr>)
              else None)
       (table_columns next)"

definition drop_foreign_keys :: "sql_table \<Rightarrow> sql_table \<Rightarrow> table_change list" where
  "drop_foreign_keys previous next =
     map (\<lambda>n. DropForeignKey \<lparr>dfk_constraint_name = n\<rparr>)
       (List.map_filter fk_constraint_name
          (filter (\<lambda>previous_fk.
              find (\<lambda>next_fk. foreign_keys_match previous_fk next_fk) (table_foreign_keys next) = None)
             (table_foreign_keys previous)))"

definition table_changes :: "sql_table \<Rightarrow> sql_table \<Rightarrow> table_change list" where
  "table_changes previous next =
     drop_foreign_keys previous next @ drop_columns previous next
     @ add_columns previous next @ alter_columns previous next"

definition alter_tables :: "sql_schema \<Rightarrow> sql_schema \<Rightarrow> alter_table_step list" where
  "alter_tables previous next =
     List.map_filter
       (\<lambda>previous_table.
          case schema_table next (table_name previous_table) of
            Inl _ \<Rightarrow> None
          | Inr next_table \<Rightarrow>
              let changes = table_changes previous_table next_table
              in if changes \<noteq> [] then Some \<lparr>at_table = next_table, at_changes = changes\<rparr> else None)
       (sql_tables previous)"

subsection \<open>Indexes\<close>

definition table_index :: "sql_table \<Rightarrow> string \<Rightarrow> index option" where
  "table_index t name = find (\<lambda>i. index_name i = name) (table_indices t)"

definition index_in :: "sql_schema \<Rightarrow> string \<Rightarrow> string \<Rightarrow> index option" where
  "index_in s tname iname =
     (case schema_table s tname of Inl _ \<Rightarrow> None | Inr t \<Rightarrow> table_index t iname)"

definition create_indexes :: "sql_schema \<Rightarrow> sql_schema \<Rightarrow> alter_index_step list \<Rightarrow> create_index_step list" where
  "create_indexes previous next altered =
     concat (map (\<lambda>next_table.
       map (\<lambda>i. \<lparr>ci_table = table_name next_table, ci_index = i\<rparr>)
         (filter (\<lambda>i. index_in previous (table_name next_table) (index_name i) = None
                    \<and> \<not> (\<exists>a\<in>set altered. ai_index_new_name a = index_name i))
            (table_indices next_table)))
       (sql_tables next))"

definition index_covers_pk :: "sql_table \<Rightarrow> index \<Rightarrow> bool" where
  "index_covers_pk t i =
     (case table_primary_key t of None \<Rightarrow> False | Some pk \<Rightarrow> pk_columns pk = index_columns i)"

definition drop_indexes :: "sql_schema \<Rightarrow> sql_schema \<Rightarrow> alter_index_step list \<Rightarrow> drop_index_step list" where
  "drop_indexes previous next altered =
     concat (map (\<lambda>previous_table.
       map (\<lambda>i. \<lparr>di_table = table_name previous_table, di_name = index_name i\<rparr>)
         (filter (\<lambda>i. index_in next (table_name previous_table) (index_name i) = None
                    \<and> \<not> (\<exists>a\<in>set altered. ai_index_name a = index_name i)
                    \<and> \<not> index_covers_pk previous_table i)
            (table_indices previous_table)))
       (sql_tables previous))"

definition table_pairs :: "sql_schema \<Rightarrow> sql_schema \<Rightarrow> (sql_table \<times> sql_table) list" where
  "table_pairs previous next =
     List.map_filter
       (\<lambda>previous_table.
          map_option (\<lambda>next_table. (previous_table, next_table))
            (find (\<lambda>next_table. table_name next_table = table_name previous_table) (sql_tables next)))
       (sql_tables previous)"

definition alter_indexes :: "sql_schema \<Rightarrow> sql_schema \<Rightarrow> alter_index_step list" where
  "alter_indexes previous next =
     concat (map (\<lambda>(previous_table, next_table).
       map (\<lambda>(previous_index, renamed_index).
              \<lparr>ai_table = table_name next_table, ai_index_name = index_name previous_index,
               ai_index_new_name = index_name renamed_index\<rparr>)
         (List.map_filter
            (\<lambda>previous_index.
               map_option (\<lambda>renamed_index. (previous_index, renamed_index))
                 (find (\<lambda>next_index.
                     indexes_are_equivalent previous_index next_index
                     \<and> index_name previous_index \<noteq> index_name next_index)
                    (table_indices next_table)))
            (table_indices previous_table)))
       (table_pairs previous next))"

subsection \<open>The whole difference\<close>

definition diff_internal :: "sql_schema \<Rightarrow> sql_schema \<Rightarrow> sql_schema_diff" where
  "diff_internal previous next =
     (let altered = alter_indexes previous next
      in \<lparr>diff_drop_tables = drop_tables previous next,
          diff_create_tables = create_tables previous next,
          diff_alter_tables = alter_tables previous next,
          diff_create_indexes = create_indexes previous next altered,
          diff_drop_indexes = drop_indexes previous next altered,
          diff_alter_indexes = altered\<rparr>)"

definition sql_diff :: "sql_schema \<Rightarrow> sql_schema \<Rightarrow> sql_schema_diff" where
  "sql_diff previous next = diff_internal previous next"

end
