(* ===== verification/Sql_Error.thy ===== *)
theory Sql_Error
  imports Prisma_Prelude
begin

section \<open>Errors of the SQL connector\<close>

text \<open>
  \<open>sql-migration-connector/src/error.rs\<close> and \<open>migration-connector/src/error.rs\<close>: the error types
  and the conversions the \<open>?\<close> operator applies. The errors of the \<open>quaint\<close> database layer are
  those the conversions name and one constructor for all others; a boxed \<open>failure::Error\<close> is the
  error it was made from. A call that can fail in two ways, by an error or by a panic, returns an
  \<open>abort\<close> on the left.
\<close>

datatype quaint_error =
    QDatabaseDoesNotExist string
  | QDatabaseAccessDenied string
  | QDatabaseAlreadyExists string
  | QAuthenticationFailed string
  | QConnectTimeout
  | QTimeout
  | QTlsError string
  | QOther string

datatype sql_schema_describer_error = UnknownError

datatype sql_error =
    SqlGeneric string
  | SqlConnectionError string
  | SqlQueryError boxed_error
  | SqlDatabaseDoesNotExist string
  | SqlDatabaseAccessDenied string
  | SqlDatabaseAlreadyExists string
  | SqlAuthenticationFailed string
  | SqlConnectTimeout
  | SqlTimeout
  | SqlTlsError string
and boxed_error =
    BoxedQuaint quaint_error
  | BoxedDescriber sql_schema_describer_error
  | BoxedSql sql_error

datatype connector_error =
    ConnectorGeneric boxed_error
  | ConnectorQueryError boxed_error
  | ConnectorDatabaseDoesNotExist string
  | ConnectorDatabaseAccessDenied string
  | ConnectorDatabaseAlreadyExists string
  | ConnectorDatabaseCreationFailed string
  | ConnectorAuthenticationFailed string
  | ConnectorConnectTimeout
  | ConnectorTimeout
  | ConnectorTlsError string

fun connector_error_from_sql :: "sql_error \<Rightarrow> connector_error" where
  "connector_error_from_sql (SqlDatabaseDoesNotExist n) = ConnectorDatabaseDoesNotExist n"
| "connector_error_from_sql (SqlDatabaseAccessDenied n) = ConnectorDatabaseAccessDenied n"
| "connector_error_from_sql (SqlDatabaseAlreadyExists n) = ConnectorDatabaseAlreadyExists n"
| "connector_error_from_sql (SqlAuthenticationFailed u) = ConnectorAuthenticationFailed u"
| "connector_error_from_sql SqlConnectTimeout = ConnectorConnectTimeout"
| "connector_error_from_sql SqlTimeout = ConnectorTimeout"
| "connector_error_from_sql (SqlTlsError m) = ConnectorTlsError m"
| "connector_error_from_sql e = ConnectorQueryError (BoxedSql e)"

fun sql_error_from_quaint :: "quaint_error \<Rightarrow> sql_error" where
  "sql_error_from_quaint (QDatabaseDoesNotExist n) = SqlDatabaseDoesNotExist n"
| "sql_error_from_quaint (QDatabaseAccessDenied n) = SqlDatabaseAccessDenied n"
| "sql_error_from_quaint (QAuthenticationFailed u) = SqlAuthenticationFailed u"
| "sql_error_from_quaint QConnectTimeout = SqlConnectTimeout"
| "sql_error_from_quaint QTimeout = SqlTimeout"
| "sql_error_from_quaint (QTlsError m) = SqlTlsError m"
| "sql_error_from_quaint e = SqlQueryError (BoxedQuaint e)"

definition sql_error_from_describer :: "sql_schema_describer_error \<Rightarrow> sql_error" where
  "sql_error_from_describer e = SqlQueryError (BoxedDescriber e)"

definition sql_error_from_string :: "string \<Rightarrow> sql_error" where
  "sql_error_from_string e = SqlGeneric e"

definition sql_error_from_parse_error :: "'e \<Rightarrow> sql_error" where
  "sql_error_from_parse_error e = SqlConnectionError ''Couldn't parse the connection string.''"

fun connector_error_from_quaint :: "quaint_error \<Rightarrow> connector_error" where
  "connector_error_from_quaint (QDatabaseDoesNotExist n) = ConnectorDatabaseDoesNotExist n"
| "connector_error_from_quaint (QDatabaseAccessDenied n) = ConnectorDatabaseAccessDenied n"
| "connector_error_from_quaint (QDatabaseAlreadyExists n) = ConnectorDatabaseAlreadyExists n"
| "connector_error_from_quaint (QAuthenticationFailed u) = ConnectorAuthenticationFailed u"
| "connector_error_from_quaint QConnectTimeout = ConnectorConnectTimeout"
| "connector_error_from_quaint QTimeout = ConnectorTimeout"
| "connector_error_from_quaint (QTlsError m) = ConnectorTlsError m"
| "connector_error_from_quaint e = ConnectorQueryError (BoxedQuaint e)"

end
