(* ===== verification/Sql_Inferrer.thy ===== *)
theory Sql_Inferrer
  imports Sql_Differ Sql_Error
begin

section \<open>The database migration inferrer\<close>

text \<open>
  \<open>sql-migration-connector/src/sql_database_migration_inferrer.rs\<close>: from the difference of two SQL
  schemas to the steps that are executed. On PostgreSQL and MySQL columns with a foreign key to a
  table that is still to be created are added afterwards, and a change of the type of an id column
  makes the migration start from nothing; on SQLite a table with a change that \<open>ALTER TABLE\<close> does
  not support is rebuilt under a temporary name.
\<close>

type_synonym 'a sql_result = "sql_error abort + 'a"

subsection \<open>PostgreSQL and MySQL\<close>

definition delayed_columns :: "string list \<Rightarrow> sql_table \<Rightarrow> column list" where
  "delayed_columns names_of_tables_that_get_created t =
     filter (\<lambda>c. case foreign_key_for_column t (column_name c) of
                   None \<Rightarrow> False
                 | Some fk \<Rightarrow>
                     fk_referenced_table fk \<in> set names_of_tables_that_get_created
                     \<and> \<not> is_part_of_primary_key t (column_name c)
                     \<and> take 1 (table_name t) \<noteq> ''_'')
       (table_columns t)"

definition delay_create_table :: "string list \<Rightarrow> create_table_step \<Rightarrow> create_table_step" where
  "delay_create_table names ct =
     (let t = ct_table ct; later = delayed_columns names t
      in \<lparr>ct_table = t\<lparr>table_columns := filter (\<lambda>c. c \<notin> set later) (table_columns t)\<rparr>\<rparr>)"

definition extra_alter_table :: "string list \<Rightarrow> create_table_step \<Rightarrow> alter_table_step" where
  "extra_alter_table names ct =
     \<lparr>at_table = ct_table (delay_create_table names ct),
      at_changes = map (\<lambda>c. AddColumn \<lparr>add_col = c\<rparr>) (delayed_columns names (ct_table ct))\<rparr>"

definition delay_foreign_key_creation :: "sql_schema_diff \<Rightarrow> sql_migration_step list" where
  "delay_foreign_key_creation d =
     (let names = map (\<lambda>ct. table_name (ct_table ct)) (diff_create_tables d);
          extra_alter_tables =
            filter (\<lambda>a. at_changes a \<noteq> []) (map (extra_alter_table names) (diff_create_tables d))
      in into_steps (d\<lparr>diff_create_tables := map (delay_create_table names) (diff_create_tables d),
                       diff_alter_tables := diff_alter_tables d @ extra_alter_tables\<rparr>))"

fun changes_id_type :: "sql_table \<Rightarrow> table_change \<Rightarrow> bool option" where
  "changes_id_type current_table (AlterColumn a) =
     map_option
       (\<lambda>current_column.
          alter_name a \<in> set (primary_key_columns current_table)
          \<and> type_family (column_tpe current_column) \<noteq> type_family (column_tpe (alter_col a)))
       (column_bang current_table (alter_name a))"
| "changes_id_type current_table _ = Some False"

fun step_changes_id_type :: "sql_schema \<Rightarrow> sql_migration_step \<Rightarrow> bool option" where
  "step_changes_id_type from (AlterTable a) =
     (case schema_table from (table_name (at_table a)) of
        Inr current_table \<Rightarrow> any_opt (changes_id_type current_table) (at_changes a)
      | Inl _ \<Rightarrow> Some False)"
| "step_changes_id_type from _ = Some False"

definition radical_steps :: "sql_schema \<Rightarrow> sql_schema \<Rightarrow> sql_migration_step list" where
  "radical_steps from to =
     DropTables \<lparr>dts_names = map table_name (filter (\<lambda>t. table_name t \<noteq> ''_Migration'') (sql_tables from))\<rparr>
     # delay_foreign_key_creation (sql_diff sql_schema_empty to)"

definition fix_id_column_type_change ::
    "sql_schema \<Rightarrow> sql_schema \<Rightarrow> sql_migration_step list \<Rightarrow> sql_migration_step list sql_result" where
  "fix_id_column_type_change from to steps =
     and_then (unwrap (any_opt (step_changes_id_type from) steps))
       (\<lambda>has_id_type_change. if has_id_type_change then Inr (radical_steps from to) else Inr steps)"

subsection \<open>SQLite\<close>

fun change_needs_fix :: "table_change \<Rightarrow> bool" where
  "change_needs_fix (AddColumn a) = (column_arity (add_col a) = RequiredColumn)"
| "change_needs_fix (DropColumn _) = True"
| "change_needs_fix (AlterColumn _) = True"
| "change_needs_fix (DropForeignKey _) = True"

definition needs_fix :: "alter_table_step \<Rightarrow> bool" where
  "needs_fix a \<longleftrightarrow> find change_needs_fix (at_changes a) \<noteq> None"

definition quote_with :: "char \<Rightarrow> string \<Rightarrow> string" where
  "quote_with q name = [q] @ name @ [q]"

definition fix_insert_sql :: "sql_table \<Rightarrow> sql_table \<Rightarrow> string" where
  "fix_insert_sql current next =
     (let intersection_columns =
            filter (\<lambda>c. c \<in> set (map column_name (table_columns next)))
              (map column_name (table_columns current));
          columns_string = join '','' (map (quote_with CHR 0x22) intersection_columns)
      in ''INSERT INTO '' @ quote_with CHR 0x22 (''new_'' @ table_name next) @ '' ('' @ columns_string
         @ '') SELECT '' @ columns_string @ '' from '' @ quote_with CHR 0x22 (table_name next))"

definition fix_table :: "sql_table \<Rightarrow> sql_table \<Rightarrow> string \<Rightarrow> sql_migration_step list" where
  "fix_table current next schema_name =
     (let name_of_temporary_table = ''new_'' @ table_name next
      in [RawSql ''PRAGMA foreign_keys=OFF;'',
          CreateTable \<lparr>ct_table = next\<lparr>table_name := name_of_temporary_table\<rparr>\<rparr>,
          RawSql (fix_insert_sql current next),
          DropTable \<lparr>dt_name = table_name current\<rparr>,
          RenameTable name_of_temporary_table (table_name next)]
         @ map (\<lambda>i. CreateIndex \<lparr>ci_table = table_name next, ci_index = i\<rparr>) (table_indices next)
         @ [RawSql (''PRAGMA '' @ quote_with CHR 0x22 schema_name @ ''.foreign_key_check;''),
            RawSql ''PRAGMA foreign_keys=ON;''])"

definition sqlite_fix_table ::
    "sql_schema \<Rightarrow> sql_schema \<Rightarrow> string \<Rightarrow> string \<Rightarrow> sql_migration_step list sql_result" where
  "sqlite_fix_table current_database_schema next_database_schema tname schema_name =
     and_then (map_err (Err \<circ> sql_error_from_string) (schema_table current_database_schema tname))
       (\<lambda>current_table.
          and_then (map_err (Err \<circ> sql_error_from_string) (schema_table next_database_schema tname))
            (\<lambda>next_table. Inr (fix_table current_table next_table schema_name)))"

text \<open>The body of the loop of \<open>fix_stupid_sqlite\<close>; the state is \<open>result\<close> and \<open>fixed_tables\<close>.\<close>

fun fix_sqlite_step ::
    "sql_schema \<Rightarrow> sql_schema \<Rightarrow> string \<Rightarrow> sql_migration_step
       \<Rightarrow> sql_migration_step list \<times> string list \<Rightarrow> (sql_migration_step list \<times> string list) sql_result" where
  "fix_sqlite_step current next schema_name (AlterTable a) (result, fixed_tables) =
     (if needs_fix a
      then and_then (sqlite_fix_table current next (table_name (at_table a)) schema_name)
             (\<lambda>steps. Inr (result @ steps, fixed_tables @ [table_name (at_table a)]))
      else Inr (result @ [AlterTable a], fixed_tables))"
| "fix_sqlite_step current next schema_name (CreateIndex c) (result, fixed_tables) =
     (if ci_table c \<in> set fixed_tables then Inr (result, fixed_tables)
      else Inr (result @ [CreateIndex c], fixed_tables))"
| "fix_sqlite_step current next schema_name (AlterIndex a) (result, fixed_tables) =
     and_then (sqlite_fix_table current next (ai_table a) schema_name)
       (\<lambda>steps. Inr (result @ steps, fixed_tables @ [ai_table a]))"
| "fix_sqlite_step current next schema_name x (result, fixed_tables) = Inr (result @ [x], fixed_tables)"

definition fix_stupid_sqlite ::
    "sql_schema_diff \<Rightarrow> sql_schema \<Rightarrow> sql_schema \<Rightarrow> string \<Rightarrow> sql_migration_step list sql_result" where
  "fix_stupid_sqlite d current_database_schema next_database_schema schema_name =
     and_then
       (fold_result (fix_sqlite_step current_database_schema next_database_schema schema_name)
          (into_steps d) ([], []))
       (\<lambda>(result, fixed_tables). Inr result)"

subsection \<open>Inferring a migration\<close>

definition infer_database_migration_steps_and_fix ::
    "sql_schema \<Rightarrow> sql_schema \<Rightarrow> string \<Rightarrow> sql_family
       \<Rightarrow> (sql_migration_step list \<times> sql_migration_step list) sql_result" where
  "infer_database_migration_steps_and_fix from to schema_name sql_family =
     (let d = sql_diff from to
      in and_then
           (if sql_family = Sqlite then fix_stupid_sqlite d from to schema_name
            else fix_id_column_type_change from to (delay_foreign_key_creation d))
           (\<lambda>corrected_steps. Inr (into_steps (sql_diff from to), corrected_steps)))"

definition sql_infer :: "sql_schema \<Rightarrow> sql_schema \<Rightarrow> string \<Rightarrow> sql_family \<Rightarrow> sql_migration sql_result" where
  "sql_infer current expected schema_name sql_family =
     and_then (infer_database_migration_steps_and_fix current expected schema_name sql_family)
       (\<lambda>(original_steps, corrected_steps).
          and_then (infer_database_migration_steps_and_fix expected current schema_name sql_family)
            (\<lambda>(_, rollback).
               Inr \<lparr>mig_before = current, mig_after = expected, mig_original_steps = original_steps,
                    mig_corrected_steps = corrected_steps, mig_rollback = rollback\<rparr>))"

text \<open>
  The two entry points. The SQL schema of a datamodel is computed by \<open>SqlSchemaCalculator\<close> and the
  current schema comes from the introspection of the database; both are arguments here.
\<close>

definition inferrer_introspect ::
    "(string \<Rightarrow> sql_schema_describer_error + sql_schema) \<Rightarrow> string \<Rightarrow> sql_schema sql_result" where
  "inferrer_introspect describe schema = map_err (Err \<circ> sql_error_from_describer) (describe schema)"

definition inferrer_infer ::
    "(string \<Rightarrow> sql_schema_describer_error + sql_schema) \<Rightarrow> ('dm \<Rightarrow> sql_error + sql_schema)
       \<Rightarrow> sql_family \<Rightarrow> string \<Rightarrow> 'dm \<Rightarrow> 'dm \<Rightarrow> connector_error abort + sql_migration" where
  "inferrer_infer describe calculate sql_family schema_name previous next =
     map_err (map_abort connector_error_from_sql)
       (and_then (inferrer_introspect describe schema_name)
          (\<lambda>current. and_then (map_err Err (calculate next))
             (\<lambda>expected. sql_infer current expected schema_name sql_family)))"

definition infer_from_datamodels ::
    "('dm \<Rightarrow> sql_error + sql_schema) \<Rightarrow> sql_family \<Rightarrow> string \<Rightarrow> 'dm \<Rightarrow> 'dm
       \<Rightarrow> connector_error abort + sql_migration" where
  "infer_from_datamodels calculate sql_family schema_name previous next =
     map_err (map_abort connector_error_from_sql)
       (and_then (map_err Err (calculate previous))
          (\<lambda>current. and_then (map_err Err (calculate next))
             (\<lambda>expected. sql_infer current expected schema_name sql_family)))"

end
