(* ===== verification/Sql_Catalog.thy ===== *)
theory Sql_Catalog
  imports Sql_Inferrer
begin

section \<open>What SQL steps mean for tables and columns\<close>

text \<open>
  The specification the inferrer is measured against. A catalogue says which tables exist and
  which columns they have. Each step is given the effect its SQL statement is documented to have on
  the catalogue, together with the reason for which a database refuses it: a table or column that
  is created must not exist, one that is dropped, altered or renamed must exist. Indexes and raw
  statements leave tables and columns as they are.
\<close>

type_synonym columns = "string \<Rightarrow> column option"
type_synonym catalog = "string \<Rightarrow> columns option"

datatype catalog_error =
    NoSuchTable string
  | TableExists string
  | NoSuchColumn string string
  | ColumnExists string string

definition catalog_of :: "sql_schema \<Rightarrow> catalog" where
  "catalog_of s n = map_option table_column (get_table s n)"

definition cat_drop_column :: "string \<Rightarrow> string \<Rightarrow> columns \<Rightarrow> catalog_error + columns" where
  "cat_drop_column t n cols = (if cols n = None then Inl (NoSuchColumn t n) else Inr (cols(n := None)))"

definition cat_add_column :: "string \<Rightarrow> column \<Rightarrow> columns \<Rightarrow> catalog_error + columns" where
  "cat_add_column t c cols =
     (if cols (column_name c) = None then Inr (cols(column_name c \<mapsto> c))
      else Inl (ColumnExists t (column_name c)))"

fun run_change :: "string \<Rightarrow> table_change \<Rightarrow> columns \<Rightarrow> catalog_error + columns" where
  "run_change t (AddColumn a) cols = cat_add_column t (add_col a) cols"
| "run_change t (DropColumn d) cols = cat_drop_column t (dc_name d) cols"
| "run_change t (AlterColumn a) cols =
     and_then (cat_drop_column t (alter_name a) cols) (cat_add_column t (alter_col a))"
| "run_change t (DropForeignKey _) cols = Inr cols"

definition cat_with_table ::
    "string \<Rightarrow> (columns \<Rightarrow> catalog_error + columns option) \<Rightarrow> catalog \<Rightarrow> catalog_error + catalog" where
  "cat_with_table n f c =
     (case c n of None \<Rightarrow> Inl (NoSuchTable n) | Some cols \<Rightarrow> and_then (f cols) (\<lambda>v. Inr (c(n := v))))"

definition cat_drop_table :: "string \<Rightarrow> catalog \<Rightarrow> catalog_error + catalog" where
  "cat_drop_table n = cat_with_table n (\<lambda>_. Inr None)"

fun run_step :: "sql_migration_step \<Rightarrow> catalog \<Rightarrow> catalog_error + catalog" where
  "run_step (CreateTable s) c =
     (let t = ct_table s
      in if c (table_name t) = None then Inr (c(table_name t \<mapsto> table_column t))
         else Inl (TableExists (table_name t)))"
| "run_step (AlterTable a) c =
     cat_with_table (table_name (at_table a))
       (\<lambda>cols. map_sum (\<lambda>e. e) Some (fold_result (run_change (table_name (at_table a))) (at_changes a) cols)) c"
| "run_step (DropTable d) c = cat_drop_table (dt_name d) c"
| "run_step (DropTables d) c = fold_result cat_drop_table (dts_names d) c"
| "run_step (RenameTable n new_n) c =
     (if c new_n \<noteq> None then Inl (TableExists new_n)
      else case c n of None \<Rightarrow> Inl (NoSuchTable n) | Some cols \<Rightarrow> Inr (c(n := None, new_n \<mapsto> cols)))"
| "run_step (RawSql _) c = Inr c"
| "run_step (CreateIndex i) c = cat_with_table (ci_table i) (\<lambda>cols. Inr (Some cols)) c"
| "run_step (DropIndex i) c = cat_with_table (di_table i) (\<lambda>cols. Inr (Some cols)) c"
| "run_step (AlterIndex i) c = cat_with_table (ai_table i) (\<lambda>cols. Inr (Some cols)) c"

subsection \<open>Runs of steps that each change their own entry\<close>

text \<open>
  The interface of a group of steps: step \<open>x\<close> succeeds when the entry at \<open>key x\<close> satisfies
  \<open>pre x\<close>, and changes that entry only, as long as the state is \<open>safe\<close>. A run of such steps with
  different keys changes every one of these entries and no other.
\<close>

locale keyed_run =
  fixes run :: "'x \<Rightarrow> ('k \<Rightarrow> 'v option) \<Rightarrow> 'e + ('k \<Rightarrow> 'v option)"
    and key :: "'x \<Rightarrow> 'k"
    and pre :: "'x \<Rightarrow> 'v option \<Rightarrow> bool"
    and val :: "'x \<Rightarrow> 'v option \<Rightarrow> 'v option"
    and safe :: "('k \<Rightarrow> 'v option) \<Rightarrow> bool"
  assumes run_pre: "safe c \<Longrightarrow> pre x (c (key x)) \<Longrightarrow> run x c = Inr (c(key x := val x (c (key x))))"
    and run_safe: "safe c \<Longrightarrow> pre x (c (key x)) \<Longrightarrow> safe (c(key x := val x (c (key x))))"
begin

lemma run_all:
  assumes "distinct (map key xs)" "safe c" "\<And>x. x \<in> set xs \<Longrightarrow> pre x (c (key x))"
  shows "fold_result run xs c = Inr (\<lambda>k. case find (\<lambda>x. key x = k) xs of None \<Rightarrow> c k | Some x \<Rightarrow> val x (c k))
    \<and> safe (\<lambda>k. case find (\<lambda>x. key x = k) xs of None \<Rightarrow> c k | Some x \<Rightarrow> val x (c k))"
  using assms
proof (induction xs arbitrary: c)
  case Nil
  then show ?case by simp
next
  case (Cons x xs)
  let ?c = "c(key x := val x (c (key x)))"
  have x: "run x c = Inr ?c" "safe ?c"
    using Cons.prems run_pre run_safe by auto
  have other: "?c (key y) = c (key y)" if "y \<in> set xs" for y
    using that Cons.prems(1) by (auto simp: image_iff)
  have IH: "fold_result run xs ?c = Inr (\<lambda>k. case find (\<lambda>x. key x = k) xs of None \<Rightarrow> ?c k | Some x \<Rightarrow> val x (?c k))
    \<and> safe (\<lambda>k. case find (\<lambda>x. key x = k) xs of None \<Rightarrow> ?c k | Some x \<Rightarrow> val x (?c k))"
    by (rule Cons.IH) (use Cons.prems x(2) other in \<open>simp_all del: fun_upd_apply\<close>)
  have "(case find (\<lambda>x. key x = k) xs of None \<Rightarrow> ?c k | Some x \<Rightarrow> val x (?c k))
    = (case find (\<lambda>x. key x = k) (x # xs) of None \<Rightarrow> c k | Some x \<Rightarrow> val x (c k))" for k
  proof (cases "key x = k")
    case True
    then have "find (\<lambda>x. key x = k) xs = None"
      using Cons.prems(1) by (auto simp: find_None_iff image_iff)
    with True show ?thesis by auto
  next
    case False
    then show ?thesis by (simp split: option.split)
  qed
  with IH x(1) show ?case by simp
qed

lemmas run_all_eq = run_all [THEN conjunct1]
lemmas run_all_safe = run_all [THEN conjunct2]

end

interpretation drop_cols: keyed_run "\<lambda>d. run_change t (DropColumn d)" dc_name
    "\<lambda>_ v. v \<noteq> None" "\<lambda>_ _. None" "\<lambda>_. True" for t
  by unfold_locales (auto simp: cat_drop_column_def)

interpretation add_cols: keyed_run "\<lambda>a. run_change t (AddColumn a)" "\<lambda>a. column_name (add_col a)"
    "\<lambda>_ v. v = None" "\<lambda>a _. Some (add_col a)" "\<lambda>_. True" for t
  by unfold_locales (auto simp: cat_add_column_def)

interpretation alter_cols: keyed_run "\<lambda>a. run_change t (AlterColumn a)" alter_name
    "\<lambda>a v. v \<noteq> None \<and> alter_name a = column_name (alter_col a)" "\<lambda>a _. Some (alter_col a)" "\<lambda>_. True" for t
  by unfold_locales (auto simp: cat_drop_column_def cat_add_column_def)

interpretation drop_tabs: keyed_run "\<lambda>d. run_step (DropTable d)" dt_name
    "\<lambda>_ v. v \<noteq> None" "\<lambda>_ _. None" "\<lambda>_. True"
  by unfold_locales (auto simp: cat_drop_table_def cat_with_table_def)

interpretation drop_names: keyed_run cat_drop_table "\<lambda>n. n" "\<lambda>_ v. v \<noteq> None" "\<lambda>_ _. None" "\<lambda>_. True"
  by unfold_locales (auto simp: cat_drop_table_def cat_with_table_def)

interpretation create_tabs: keyed_run "\<lambda>s. run_step (CreateTable s)" "\<lambda>s. table_name (ct_table s)"
    "\<lambda>_ v. v = None" "\<lambda>s _. Some (table_column (ct_table s))" "\<lambda>_. True"
  by unfold_locales (auto simp: Let_def)

definition changed_columns :: "alter_table_step \<Rightarrow> columns \<Rightarrow> catalog_error + columns" where
  "changed_columns a cols = fold_result (run_change (table_name (at_table a))) (at_changes a) cols"

interpretation alter_tabs: keyed_run "\<lambda>a. run_step (AlterTable a)" "\<lambda>a. table_name (at_table a)"
    "\<lambda>a v. \<exists>cols cols'. v = Some cols \<and> changed_columns a cols = Inr cols'"
    "\<lambda>a v. (case v of None \<Rightarrow> None | Some cols \<Rightarrow> (case changed_columns a cols of Inl _ \<Rightarrow> None | Inr cols' \<Rightarrow> Some cols'))"
    "\<lambda>_. True"
  by unfold_locales (auto simp: cat_with_table_def changed_columns_def)

text \<open>Index steps need their table and change nothing here.\<close>

fun index_step_table :: "sql_migration_step \<Rightarrow> string option" where
  "index_step_table (CreateIndex i) = Some (ci_table i)"
| "index_step_table (DropIndex i) = Some (di_table i)"
| "index_step_table (AlterIndex i) = Some (ai_table i)"
| "index_step_table _ = None"

lemma run_index_step:
  "index_step_table s = Some n \<Longrightarrow> c n \<noteq> None \<Longrightarrow> run_step s c = Inr c"
  by (cases s) (auto simp: cat_with_table_def fun_upd_idem)

lemma run_index_steps:
  "(\<And>s. s \<in> set xs \<Longrightarrow> \<exists>n. index_step_table s = Some n \<and> c n \<noteq> None) \<Longrightarrow> fold_result run_step xs c = Inr c"
proof (induction xs)
  case (Cons s xs)
  obtain n where "index_step_table s = Some n" "c n \<noteq> None"
    using Cons.prems [of s] by auto
  with Cons show ?case by (simp add: run_index_step)
qed simp

lemma fold_result_map: "fold_result f (map g xs) s = fold_result (\<lambda>x. f (g x)) xs s"
proof (induction xs arbitrary: s)
  case (Cons x xs)
  then show ?case by (cases "f (g x) s") simp_all
qed simp

end
