(* ===== verification/Sql_Migrate.thy ===== *)
theory Sql_Migrate
  imports Sql_Catalog
begin

section \<open>The inferred steps reach the expected schema\<close>

text \<open>
  Running the steps of a difference on a catalogue that fits the previous schema, with the same
  tables and column names: no step is refused, and the catalogue that results is \<open>migrated\<close>. It
  has the tables of the next schema, the migration table as it was, and in every table the columns
  of the next schema, each in its new form or, where the differ saw no difference, as it was.
\<close>

definition wf_sql_table :: "sql_table \<Rightarrow> bool" where
  "wf_sql_table t \<longleftrightarrow> distinct (map column_name (table_columns t))
     \<and> (table_name t = MIGRATION_TABLE_NAME \<longrightarrow> table_indices t = [])"

definition wf_sql_schema :: "sql_schema \<Rightarrow> bool" where
  "wf_sql_schema s \<longleftrightarrow>
     distinct (map table_name (sql_tables s)) \<and> (\<forall>t\<in>set (sql_tables s). wf_sql_table t)"

text \<open>The schema of a datamodel does not contain the migration table, the schema of a database does.\<close>

definition one_migration_table :: "sql_schema \<Rightarrow> sql_schema \<Rightarrow> bool" where
  "one_migration_table p n \<longleftrightarrow> \<not> (has_table p MIGRATION_TABLE_NAME \<and> has_table n MIGRATION_TABLE_NAME)"

definition fits :: "catalog \<Rightarrow> sql_schema \<Rightarrow> bool" where
  "fits c s \<longleftrightarrow>
     (\<forall>tn. tn \<noteq> MIGRATION_TABLE_NAME \<longrightarrow> map_option dom (c tn) = map_option column_names (get_table s tn))"

definition migrated_columns :: "sql_table \<Rightarrow> sql_table \<Rightarrow> columns \<Rightarrow> columns" where
  "migrated_columns p n cols cn =
     (case table_column n cn of
        None \<Rightarrow> None
      | Some nc \<Rightarrow>
          (case table_column p cn of
             None \<Rightarrow> Some nc
           | Some pc \<Rightarrow> if column_altered p n pc nc then Some nc else cols cn))"

definition migrated :: "sql_schema \<Rightarrow> sql_schema \<Rightarrow> catalog \<Rightarrow> catalog" where
  "migrated p n c tn =
     (if tn = MIGRATION_TABLE_NAME then c tn
      else case get_table n tn of
        None \<Rightarrow> None
      | Some nt \<Rightarrow>
          (case get_table p tn of
             None \<Rightarrow> Some (table_column nt)
           | Some pt \<Rightarrow> map_option (migrated_columns pt nt) (c tn)))"

lemma wf_get_table: "wf_sql_schema s \<Longrightarrow> get_table s n = Some t \<Longrightarrow> wf_sql_table t"
  by (auto simp: wf_sql_schema_def dest: get_table_Some)

lemma wf_distinct: "wf_sql_schema s \<Longrightarrow> distinct (map table_name (sql_tables s))"
  by (simp add: wf_sql_schema_def)

lemma wf_sql_schema_empty [simp]: "wf_sql_schema sql_schema_empty"
  by (simp add: wf_sql_schema_def)

lemma dom_table_column [simp]: "dom (table_column t) = column_names t"
  using table_column_None [of t] by (auto simp: dom_def)

lemma fits_catalog_of: "fits (catalog_of s) s"
  by (simp add: fits_def catalog_of_def option.map_comp comp_def)

lemma fits_None: "fits c s \<Longrightarrow> tn \<noteq> MIGRATION_TABLE_NAME \<Longrightarrow> c tn = None \<longleftrightarrow> get_table s tn = None"
  unfolding fits_def by (metis option.map_disc_iff)

lemma fits_Some:
  "fits c s \<Longrightarrow> get_table s tn = Some t \<Longrightarrow> tn \<noteq> MIGRATION_TABLE_NAME
     \<Longrightarrow> \<exists>cols. c tn = Some cols \<and> dom cols = column_names t"
  by (auto simp: fits_def)

lemma dom_migrated_columns: "dom cols = column_names p \<Longrightarrow> dom (migrated_columns p n cols) = column_names n"
proof -
  assume cols: "dom cols = column_names p"
  have "migrated_columns p n cols k = None \<longleftrightarrow> k \<notin> column_names n" for k
    using table_column_None [of n k] table_column_None [of p k] domIff [of k cols] unfolding cols
    by (auto simp: migrated_columns_def split: option.split)
  then show ?thesis by (simp add: set_eq_iff domIff)
qed

lemma fits_migrated:
  assumes "fits c p"
  shows "fits (migrated p n c) n"
proof -
  have "map_option dom (migrated p n c tn) = map_option column_names (get_table n tn)"
    if tn: "tn \<noteq> MIGRATION_TABLE_NAME" for tn
  proof (cases "get_table p tn")
    case None
    then show ?thesis using tn by (simp add: migrated_def split: option.split)
  next
    case (Some pt)
    with fits_Some [OF assms this tn] tn show ?thesis
      by (auto simp: migrated_def dom_migrated_columns split: option.split)
  qed
  then show ?thesis by (simp add: fits_def)
qed

subsection \<open>The changes of one table\<close>

lemma run_drop_foreign_keys: "fold_result (run_change t) (drop_foreign_keys p n) cols = Inr cols"
proof -
  have "fold_result (run_change t) (map (\<lambda>x. DropForeignKey (f x)) xs) cols = Inr cols" for xs :: "string list" and f
    by (induction xs) simp_all
  then show ?thesis by (simp add: drop_foreign_keys_def)
qed

lemma run_drop_columns:
  assumes "wf_sql_table p" and cols: "dom cols = column_names p"
  shows "fold_result (run_change t) (drop_columns p n) cols
    = Inr (\<lambda>k. if k \<in> column_names n then cols k else None)"
proof -
  let ?xs = "map (\<lambda>c. \<lparr>dc_name = column_name c\<rparr>) (filter (\<lambda>c. \<not> has_column n (column_name c)) (table_columns p))"
  have dist: "distinct (map dc_name ?xs)"
    using assms by (simp add: wf_sql_table_def comp_def distinct_map_filter)
  have pre: "cols (dc_name x) \<noteq> None" if x: "x \<in> set ?xs" for x
  proof -
    have "dc_name x \<in> column_names p" using x by (auto simp: column_names_def)
    then show ?thesis unfolding cols [symmetric] by blast
  qed
  have "(case find (\<lambda>x. dc_name x = k) ?xs of None \<Rightarrow> cols k | Some x \<Rightarrow> None)
    = (if k \<in> column_names n then cols k else None)" for k
    using table_column_None [of p k] domIff [of k cols] unfolding cols
    by (auto simp: find_map has_column_iff find_filter_other_key [of column_name k "\<lambda>k. k \<notin> column_names n"]
        table_column_def split: option.split)
  with drop_cols.run_all_eq [of ?xs cols t, OF dist TrueI pre] show ?thesis
    by (simp add: drop_columns_def fold_result_map)
qed

lemma run_add_list:
  assumes "distinct (map column_name xs)" "\<And>x. x \<in> set xs \<Longrightarrow> cols (column_name x) = None"
  shows "fold_result (run_change t) (map (\<lambda>c. AddColumn \<lparr>add_col = c\<rparr>) xs) cols
    = Inr (\<lambda>k. case find (\<lambda>c. column_name c = k) xs of None \<Rightarrow> cols k | Some c \<Rightarrow> Some c)"
proof -
  let ?xs = "map (\<lambda>c. \<lparr>add_col = c\<rparr>) xs"
  have dist: "distinct (map (\<lambda>a. column_name (add_col a)) ?xs)"
    using assms(1) by (simp add: comp_def)
  have pre: "cols (column_name (add_col x)) = None" if "x \<in> set ?xs" for x
    using that assms(2) by auto
  have "(case find (\<lambda>a. column_name (add_col a) = k) ?xs of None \<Rightarrow> cols k | Some a \<Rightarrow> Some (add_col a))
    = (case find (\<lambda>c. column_name c = k) xs of None \<Rightarrow> cols k | Some c \<Rightarrow> Some c)" for k
    by (simp add: find_map option.case_eq_if option.map_sel)
  with add_cols.run_all_eq [of ?xs cols t, OF dist TrueI pre] show ?thesis
    by (simp add: fold_result_map)
qed

lemma run_add_columns:
  assumes "wf_sql_table n" and cols: "dom cols = column_names p"
  shows "fold_result (run_change t) (add_columns p n) (\<lambda>k. if k \<in> column_names n then cols k else None)
    = Inr (\<lambda>k. if k \<in> column_names n \<and> k \<in> column_names p then cols k else table_column n k)"
    (is "fold_result _ _ ?c = Inr ?c2")
proof -
  let ?xs = "filter (\<lambda>c. \<not> has_column p (column_name c)) (table_columns n)"
  have dist: "distinct (map column_name ?xs)"
    using assms by (simp add: wf_sql_table_def comp_def distinct_map_filter)
  have pre: "?c (column_name x) = None" if "x \<in> set ?xs" for x
    using that domIff [of "column_name x" cols] unfolding cols by (auto simp: has_column_iff)
  have "(case find (\<lambda>c. column_name c = k) ?xs of None \<Rightarrow> ?c k | Some c \<Rightarrow> Some c) = ?c2 k" for k
    using table_column_None [of n k] domIff [of k cols] unfolding cols
    by (auto simp: has_column_iff find_filter_other_key [of column_name k "\<lambda>k. k \<notin> column_names p"]
        table_column_def split: option.split)
  with run_add_list [where cols = ?c, OF dist pre] show ?thesis by (simp add: add_columns_def)
qed

definition altered_columns :: "sql_table \<Rightarrow> sql_table \<Rightarrow> column list" where
  "altered_columns p n =
     filter (\<lambda>nc. case table_column p (column_name nc) of None \<Rightarrow> False | Some pc \<Rightarrow> column_altered p n pc nc)
       (table_columns n)"

lemma alter_columns_eq:
  "alter_columns p n
     = map (\<lambda>nc. AlterColumn \<lparr>alter_name = column_name nc, alter_col = nc\<rparr>) (altered_columns p n)"
proof -
  have "List.map_filter
       (\<lambda>nc. case table_column p (column_name nc) of
            None \<Rightarrow> None
          | Some pc \<Rightarrow> if column_altered p n pc nc
              then Some (AlterColumn \<lparr>alter_name = column_name pc, alter_col = nc\<rparr>) else None) cs
    = map (\<lambda>nc. AlterColumn \<lparr>alter_name = column_name nc, alter_col = nc\<rparr>)
       (filter (\<lambda>nc. case table_column p (column_name nc) of None \<Rightarrow> False | Some pc \<Rightarrow> column_altered p n pc nc) cs)"
    for cs
    by (induction cs) (auto simp: List.map_filter_simps dest: table_column_Some split: option.splits)
  then show ?thesis by (simp add: alter_columns_def altered_columns_def)
qed

lemma find_altered_columns:
  assumes "wf_sql_table n"
  shows "find (\<lambda>c. column_name c = k) (altered_columns p n)
    = (case table_column n k of None \<Rightarrow> None | Some nc \<Rightarrow>
        (case table_column p k of None \<Rightarrow> None | Some pc \<Rightarrow> if column_altered p n pc nc then Some nc else None))"
proof -
  have "distinct (map column_name cs) \<Longrightarrow>
    find (\<lambda>c. column_name c = k)
      (filter (\<lambda>nc. case table_column p (column_name nc) of None \<Rightarrow> False | Some pc \<Rightarrow> column_altered p n pc nc) cs)
    = (case find (\<lambda>c. column_name c = k) cs of None \<Rightarrow> None | Some nc \<Rightarrow>
        (case table_column p k of None \<Rightarrow> None | Some pc \<Rightarrow> if column_altered p n pc nc then Some nc else None))"
    for cs
    by (induction cs) (auto simp: find_None_iff image_iff dest!: find_Some_mem split: option.splits)
  with assms show ?thesis
    by (simp add: altered_columns_def table_column_def [of n] wf_sql_table_def)
qed

lemma run_alter_columns:
  assumes "wf_sql_table n" and cols: "dom cols = column_names p"
  shows "fold_result (run_change t) (alter_columns p n)
      (\<lambda>k. if k \<in> column_names n \<and> k \<in> column_names p then cols k else table_column n k)
    = Inr (migrated_columns p n cols)"
    (is "fold_result _ _ ?c = _")
proof -
  let ?xs = "map (\<lambda>nc. \<lparr>alter_name = column_name nc, alter_col = nc\<rparr>) (altered_columns p n)"
  have dist: "distinct (map alter_name ?xs)"
    using assms by (simp add: wf_sql_table_def altered_columns_def comp_def distinct_map_filter)
  have pre: "?c (alter_name x) \<noteq> None \<and> alter_name x = column_name (alter_col x)" if x: "x \<in> set ?xs" for x
  proof -
    from x obtain nc where nc: "nc \<in> set (altered_columns p n)"
      "x = \<lparr>alter_name = column_name nc, alter_col = nc\<rparr>" by auto
    then have "column_name nc \<in> column_names n" "column_name nc \<in> column_names p"
      using table_column_None [of p "column_name nc"]
      by (auto simp: altered_columns_def column_names_def split: option.splits)
    with nc(2) domIff [of "column_name nc" cols] show ?thesis unfolding cols by simp
  qed
  have "(case find (\<lambda>a. alter_name a = k) ?xs of None \<Rightarrow> ?c k | Some a \<Rightarrow> Some (alter_col a))
    = migrated_columns p n cols k" for k
    using table_column_None [of n k] table_column_None [of p k]
    by (auto simp: find_map find_altered_columns [OF assms(1)] migrated_columns_def split: option.split)
  with alter_cols.run_all_eq [of ?xs ?c t, OF dist TrueI pre] show ?thesis
    by (simp add: alter_columns_eq fold_result_map)
qed

lemma run_table_changes:
  assumes "wf_sql_table p" "wf_sql_table n" "dom cols = column_names p"
  shows "fold_result (run_change t) (table_changes p n) cols = Inr (migrated_columns p n cols)"
  using assms
  by (simp add: table_changes_def fold_result_append run_drop_foreign_keys run_drop_columns
      run_add_columns run_alter_columns)

subsection \<open>The groups of steps of a whole difference\<close>

lemma run_drop_tables:
  assumes "wf_sql_schema p" and c: "fits c p"
  shows "fold_result run_step (wrap_as_step (drop_tables p n) DropTable) c
    = Inr (\<lambda>tn. if tn = MIGRATION_TABLE_NAME \<or> tn \<in> table_names n then c tn else None)"
proof -
  let ?xs = "drop_tables p n"
  have eq: "?xs = map (\<lambda>t. \<lparr>dt_name = table_name t\<rparr>)
      (filter (\<lambda>t. table_name t \<notin> table_names n \<and> table_name t \<noteq> MIGRATION_TABLE_NAME) (sql_tables p))"
    by (simp add: drop_tables_def has_table_iff)
  have dist: "distinct (map dt_name ?xs)"
    using wf_distinct [OF assms(1)] by (simp add: eq comp_def distinct_map_filter)
  have pre: "c (dt_name x) \<noteq> None" if "x \<in> set ?xs" for x
    using that fits_None [OF c, of "dt_name x"] get_table_None [of p "dt_name x"]
    by (auto simp: eq table_names_def)
  have "(case find (\<lambda>x. dt_name x = tn) ?xs of None \<Rightarrow> c tn | Some x \<Rightarrow> None)
    = (if tn = MIGRATION_TABLE_NAME \<or> tn \<in> table_names n then c tn else None)" for tn
    using fits_None [OF c, of tn]
    by (auto simp: eq find_map get_table_def
        find_filter_other_key [of table_name tn "\<lambda>k. k \<notin> table_names n \<and> k \<noteq> MIGRATION_TABLE_NAME"]
        split: option.split)
  with drop_tabs.run_all_eq [of ?xs c, OF dist TrueI pre] show ?thesis
    by (simp add: wrap_as_step_def fold_result_map)
qed

definition created_tables :: "sql_schema \<Rightarrow> sql_schema \<Rightarrow> sql_table list" where
  "created_tables p n =
     filter (\<lambda>t. table_name t \<notin> table_names p \<and> table_name t \<noteq> MIGRATION_TABLE_NAME) (sql_tables n)"

lemma create_tables_eq: "create_tables p n = map (\<lambda>t. \<lparr>ct_table = t\<rparr>) (created_tables p n)"
  by (simp add: create_tables_def created_tables_def has_table_iff)

lemma find_created_tables:
  "find (\<lambda>t. table_name t = tn) (created_tables p n)
     = (if tn \<notin> table_names p \<and> tn \<noteq> MIGRATION_TABLE_NAME then get_table n tn else None)"
  by (simp add: created_tables_def get_table_def
      find_filter_other_key [of table_name tn "\<lambda>k. k \<notin> table_names p \<and> k \<noteq> MIGRATION_TABLE_NAME"])

lemma run_create_tables:
  assumes "wf_sql_schema n" and g: "\<And>t. table_name (g t) = table_name t"
    and c: "\<And>tn. tn \<notin> table_names p \<Longrightarrow> tn \<noteq> MIGRATION_TABLE_NAME \<Longrightarrow> c tn = None"
  shows "fold_result run_step (wrap_as_step (map (\<lambda>t. \<lparr>ct_table = g t\<rparr>) (created_tables p n)) CreateTable) c
    = Inr (\<lambda>tn. if tn \<in> table_names p \<or> tn = MIGRATION_TABLE_NAME then c tn
                 else map_option (\<lambda>t. table_column (g t)) (get_table n tn))"
proof -
  let ?xs = "map (\<lambda>t. \<lparr>ct_table = g t\<rparr>) (created_tables p n)"
  have dist: "distinct (map (\<lambda>s. table_name (ct_table s)) ?xs)"
    using wf_distinct [OF assms(1)] by (simp add: comp_def g created_tables_def distinct_map_filter)
  have pre: "c (table_name (ct_table x)) = None" if "x \<in> set ?xs" for x
    using that c by (auto simp: g created_tables_def)
  have "(case find (\<lambda>x. table_name (ct_table x) = tn) ?xs of None \<Rightarrow> c tn | Some x \<Rightarrow> Some (table_column (ct_table x)))
    = (if tn \<in> table_names p \<or> tn = MIGRATION_TABLE_NAME then c tn
       else map_option (\<lambda>t. table_column (g t)) (get_table n tn))" for tn
    using c [of tn] by (auto simp: find_map g find_created_tables split: option.split)
  with create_tabs.run_all_eq [of ?xs c, OF dist TrueI pre] show ?thesis
    by (simp add: wrap_as_step_def fold_result_map)
qed

text \<open>A list of alterations of different tables, each running through on the columns of its table.\<close>

lemma run_alter_list:
  assumes "distinct (map (\<lambda>a. table_name (at_table a)) as)"
    and "\<And>a. a \<in> set as \<Longrightarrow> \<exists>cols. c (table_name (at_table a)) = Some cols \<and> changed_columns a cols = Inr (f a cols)"
  shows "fold_result run_step (map AlterTable as) c
    = Inr (\<lambda>tn. case find (\<lambda>a. table_name (at_table a) = tn) as of None \<Rightarrow> c tn | Some a \<Rightarrow> map_option (f a) (c tn))"
proof -
  have pre: "\<exists>cols cols'. c (table_name (at_table a)) = Some cols \<and> changed_columns a cols = Inr cols'"
    if "a \<in> set as" for a using assms(2) [OF that] by auto
  have val: "(case c tn of None \<Rightarrow> None | Some cols \<Rightarrow> (case changed_columns a cols of Inl _ \<Rightarrow> None | Inr cols' \<Rightarrow> Some cols'))
    = map_option (f a) (c tn)" if "find (\<lambda>a. table_name (at_table a) = tn) as = Some a" for a tn
    using assms(2) [of a] find_Some_mem [OF that] by auto
  have "(case find (\<lambda>a. table_name (at_table a) = tn) as of None \<Rightarrow> c tn
      | Some a \<Rightarrow> (case c tn of None \<Rightarrow> None
          | Some cols \<Rightarrow> (case changed_columns a cols of Inl _ \<Rightarrow> None | Inr cols' \<Rightarrow> Some cols')))
    = (case find (\<lambda>a. table_name (at_table a) = tn) as of None \<Rightarrow> c tn | Some a \<Rightarrow> map_option (f a) (c tn))" for tn
    by (cases "find (\<lambda>a. table_name (at_table a) = tn) as") (simp_all only: option.case val)
  with alter_tabs.run_all_eq [of as c, OF assms(1) TrueI pre] show ?thesis
    by (simp add: fold_result_map)
qed

lemma set_table_pairs:
  "(pt, nt) \<in> set (table_pairs p n) \<longleftrightarrow> pt \<in> set (sql_tables p) \<and> get_table n (table_name pt) = Some nt"
  by (auto simp: table_pairs_def set_map_filter get_table_def)

definition altered_pairs :: "sql_schema \<Rightarrow> sql_schema \<Rightarrow> (sql_table \<times> sql_table) list" where
  "altered_pairs p n = filter (\<lambda>(pt, nt). table_changes pt nt \<noteq> []) (table_pairs p n)"

lemma alter_tables_eq:
  "alter_tables p n = map (\<lambda>(pt, nt). \<lparr>at_table = nt, at_changes = table_changes pt nt\<rparr>) (altered_pairs p n)"
proof -
  have "List.map_filter
       (\<lambda>pt. case schema_table n (table_name pt) of
            Inl _ \<Rightarrow> None
          | Inr nt \<Rightarrow> let changes = table_changes pt nt
              in if changes \<noteq> [] then Some \<lparr>at_table = nt, at_changes = changes\<rparr> else None) ts
    = map (\<lambda>(pt, nt). \<lparr>at_table = nt, at_changes = table_changes pt nt\<rparr>)
        (filter (\<lambda>(pt, nt). table_changes pt nt \<noteq> [])
          (List.map_filter (\<lambda>pt. map_option (Pair pt) (get_table n (table_name pt))) ts))" for ts
    by (induction ts) (auto simp: List.map_filter_simps schema_table_eq Let_def split: option.split)
  then show ?thesis
    by (simp add: alter_tables_def altered_pairs_def table_pairs_def get_table_def)
qed

lemma table_pairs_names:
  "map (\<lambda>pr. table_name (snd pr)) (table_pairs p n)
     = filter (\<lambda>tn. tn \<in> table_names n) (map table_name (sql_tables p))"
proof -
  have "map (\<lambda>pr. table_name (snd pr)) (List.map_filter (\<lambda>pt. map_option (Pair pt) (get_table n (table_name pt))) ts)
    = filter (\<lambda>tn. tn \<in> table_names n) (map table_name ts)" for ts
    by (induction ts)
      (auto simp: List.map_filter_simps get_table_None dest: get_table_Some get_table_names split: option.split)
  then show ?thesis by (simp add: table_pairs_def get_table_def)
qed

lemma altered_pairs_Some:
  assumes "wf_sql_schema p" "(pt, nt) \<in> set (altered_pairs p n)"
  shows "get_table p (table_name nt) = Some pt" "get_table n (table_name nt) = Some nt" "table_changes pt nt \<noteq> []"
  using assms get_table_Some [of n "table_name pt" nt] get_table_mem [OF wf_distinct [OF assms(1)], of pt]
  by (auto simp: altered_pairs_def set_table_pairs)

lemma altered_pairs_mem:
  "get_table p tn = Some pt \<Longrightarrow> get_table n tn = Some nt \<Longrightarrow> table_changes pt nt \<noteq> []
     \<Longrightarrow> (pt, nt) \<in> set (altered_pairs p n)"
  using get_table_Some [of p tn pt] by (auto simp: altered_pairs_def set_table_pairs)

lemma distinct_altered_pairs:
  assumes "wf_sql_schema p"
  shows "distinct (map (\<lambda>pr. table_name (snd pr)) (altered_pairs p n))"
  using wf_distinct [OF assms] distinct_map_filter
  by (metis (no_types, lifting) altered_pairs_def distinct_filter table_pairs_names)

lemma alter_tables_Some:
  assumes "wf_sql_schema p" "a \<in> set (alter_tables p n)"
  obtains pt where "get_table p (table_name (at_table a)) = Some pt"
    "get_table n (table_name (at_table a)) = Some (at_table a)" "at_changes a = table_changes pt (at_table a)"
  using assms altered_pairs_Some [OF assms(1)] by (auto simp: alter_tables_eq)

lemma alter_tables_None:
  assumes "find (\<lambda>a. table_name (at_table a) = tn) (alter_tables p n) = None"
    and s: "get_table p tn = Some pt" "get_table n tn = Some nt"
  shows "table_changes pt nt = []"
proof (rule ccontr)
  assume "table_changes pt nt \<noteq> []"
  then have "\<lparr>at_table = nt, at_changes = table_changes pt nt\<rparr> \<in> set (alter_tables p n)"
    using altered_pairs_mem [OF s] by (force simp: alter_tables_eq)
  with assms(1) get_table_Some [OF s(2)] show False by (force simp: find_None_iff)
qed

lemma run_alter_tables:
  assumes p: "wf_sql_schema p" and n: "wf_sql_schema n"
    and c: "\<And>tn pt. get_table p tn = Some pt \<Longrightarrow> tn \<in> table_names n
      \<Longrightarrow> \<exists>cols. c tn = Some cols \<and> dom cols = column_names pt"
  shows "fold_result run_step (wrap_as_step (alter_tables p n) AlterTable) c
    = Inr (\<lambda>tn. case get_table p tn of None \<Rightarrow> c tn | Some pt \<Rightarrow>
        (case get_table n tn of None \<Rightarrow> c tn | Some nt \<Rightarrow> map_option (migrated_columns pt nt) (c tn)))"
    (is "_ = Inr ?c'")
proof -
  let ?as = "alter_tables p n"
  let ?f = "\<lambda>a. migrated_columns (the (get_table p (table_name (at_table a)))) (at_table a)"
  have dist: "distinct (map (\<lambda>a. table_name (at_table a)) ?as)"
    using distinct_altered_pairs [OF p, of n] by (simp add: alter_tables_eq comp_def case_prod_beta)
  have run: "\<exists>cols. c tn = Some cols \<and> fold_result (run_change t) (table_changes pt nt) cols = Inr (migrated_columns pt nt cols)"
    if s: "get_table p tn = Some pt" "get_table n tn = Some nt" for t pt nt tn
    using c [OF s(1) get_table_names [OF s(2)]] run_table_changes [OF wf_get_table [OF p s(1)] wf_get_table [OF n s(2)]]
    by blast
  have pre: "\<exists>cols. c (table_name (at_table a)) = Some cols \<and> changed_columns a cols = Inr (?f a cols)"
    if a: "a \<in> set ?as" for a
  proof -
    obtain pt where s: "get_table p (table_name (at_table a)) = Some pt"
      "get_table n (table_name (at_table a)) = Some (at_table a)" "at_changes a = table_changes pt (at_table a)"
      using alter_tables_Some [OF p a] .
    show ?thesis unfolding changed_columns_def s option.sel by (rule run [OF s(1,2)])
  qed
  have eq: "(case find (\<lambda>a. table_name (at_table a) = tn) ?as of None \<Rightarrow> c tn | Some a \<Rightarrow> map_option (?f a) (c tn)) = ?c' tn" for tn
  proof (cases "find (\<lambda>a. table_name (at_table a) = tn) ?as")
    case (Some a)
    then have a: "a \<in> set ?as" "table_name (at_table a) = tn" by (auto dest: find_Some_mem)
    obtain pt where "get_table p tn = Some pt" "get_table n tn = Some (at_table a)"
      using alter_tables_Some [OF p a(1)] unfolding a(2) .
    then show ?thesis unfolding Some by (simp add: a(2))
  next
    case None
    have "map_option (migrated_columns pt nt) (c tn) = c tn" if s: "get_table p tn = Some pt" "get_table n tn = Some nt" for pt nt
      using run [OF s] alter_tables_None [OF None s] by auto
    then show ?thesis unfolding None by (auto split: option.split)
  qed
  have "fold_result run_step (map AlterTable ?as) c
    = Inr (\<lambda>tn. case find (\<lambda>a. table_name (at_table a) = tn) ?as of None \<Rightarrow> c tn | Some a \<Rightarrow> map_option (?f a) (c tn))"
    by (rule run_alter_list [OF dist pre])
  then show ?thesis unfolding wrap_as_step_def eq .
qed

subsection \<open>Columns that are added later\<close>

abbreviation delay_table :: "string list \<Rightarrow> sql_table \<Rightarrow> sql_table" where
  "delay_table names t \<equiv> ct_table (delay_create_table names \<lparr>ct_table = t\<rparr>)"

lemma delayed_columns_Nil [simp]: "delayed_columns [] t = []"
  by (auto simp: delayed_columns_def filter_empty_conv split: option.split)

lemma delay_table_name [simp]: "table_name (delay_table names t) = table_name t"
  by (simp add: delay_create_table_def Let_def)

lemma delay_table_Nil [simp]: "delay_table [] t = t"
  by (simp add: delay_create_table_def Let_def)

lemma set_delayed_columns: "set (delayed_columns names t) \<subseteq> set (table_columns t)"
  by (auto simp: delayed_columns_def)

lemma delay_table_column:
  assumes "wf_sql_table t"
  shows "table_column (delay_table names t) k
    = (if find (\<lambda>c. column_name c = k) (delayed_columns names t) = None then table_column t k else None)"
proof -
  have "distinct (map column_name cs) \<Longrightarrow> set ds \<subseteq> set cs \<Longrightarrow>
    find (\<lambda>c. column_name c = k) (filter (\<lambda>c. c \<notin> set ds) cs)
      = (if find (\<lambda>c. column_name c = k) ds = None then find (\<lambda>c. column_name c = k) cs else None)" for cs ds
  proof (cases "find (\<lambda>c. column_name c = k) cs")
    case None
    assume "set ds \<subseteq> set cs"
    then have "find (\<lambda>c. column_name c = k) (filter (\<lambda>c. c \<notin> set ds) cs) = None"
      using None by (auto simp: find_None_iff)
    with None show ?thesis by simp
  next
    case (Some c)
    assume d: "distinct (map column_name cs)" "set ds \<subseteq> set cs"
    from Some have c: "c \<in> set cs" "column_name c = k" by (auto dest: find_Some_mem)
    have uniq: "x = c" if "x \<in> set cs" "column_name x = k" for x
      using d(1) c that by (auto simp: distinct_map dest: inj_onD)
    show ?thesis
    proof (cases "c \<in> set ds")
      case True
      then have "find (\<lambda>c. column_name c = k) ds \<noteq> None" using c by (auto simp: find_None_iff)
      moreover have "find (\<lambda>c. column_name c = k) (filter (\<lambda>c. c \<notin> set ds) cs) = None"
        using True uniq by (auto simp: find_None_iff)
      ultimately show ?thesis by auto
    next
      case False
      then have "find (\<lambda>c. column_name c = k) ds = None" using d(2) uniq by (auto simp: find_None_iff)
      moreover have "distinct (map column_name (filter (\<lambda>c. c \<notin> set ds) cs))"
        using d(1) by (rule distinct_map_filter)
      then have "find (\<lambda>x. column_name x = column_name c) (filter (\<lambda>c. c \<notin> set ds) cs) = Some c"
        using False c by (intro find_distinct_key) auto
      ultimately show ?thesis using Some c by simp
    qed
  qed
  from this [of "table_columns t" "delayed_columns names t"] assms set_delayed_columns [of names t] show ?thesis
    by (simp add: table_column_def delay_create_table_def Let_def wf_sql_table_def)
qed

lemma run_extra_alter_table:
  assumes "wf_sql_table t"
  shows "changed_columns (extra_alter_table names \<lparr>ct_table = t\<rparr>) (table_column (delay_table names t))
    = Inr (table_column t)"
proof -
  let ?ds = "delayed_columns names t"
  have dist: "distinct (map column_name ?ds)"
    using assms by (simp add: wf_sql_table_def delayed_columns_def distinct_map_filter)
  have pre: "table_column (delay_table names t) (column_name x) = None" if "x \<in> set ?ds" for x
    using that delay_table_column [OF assms, of names "column_name x"] by (auto simp: find_None_iff)
  have "(case find (\<lambda>c. column_name c = k) ?ds of None \<Rightarrow> table_column (delay_table names t) k | Some c \<Rightarrow> Some c)
    = table_column t k" for k
  proof (cases "find (\<lambda>c. column_name c = k) ?ds")
    case None
    then show ?thesis using delay_table_column [OF assms, of names k] by simp
  next
    case (Some c)
    then have "c \<in> set (table_columns t)" "column_name c = k"
      using set_delayed_columns [of names t] by (auto dest: find_Some_mem)
    with table_column_mem [of t c] assms Some show ?thesis by (simp add: wf_sql_table_def)
  qed
  with run_add_list [where cols = "table_column (delay_table names t)", OF dist pre, of "table_name t"] show ?thesis
    by (simp add: changed_columns_def extra_alter_table_def)
qed

definition delayed_steps :: "string list \<Rightarrow> sql_schema_diff \<Rightarrow> sql_migration_step list" where
  "delayed_steps names d =
     into_steps (d\<lparr>diff_create_tables := map (delay_create_table names) (diff_create_tables d),
                   diff_alter_tables := diff_alter_tables d
                     @ filter (\<lambda>a. at_changes a \<noteq> []) (map (extra_alter_table names) (diff_create_tables d))\<rparr>)"

lemma delay_foreign_key_creation_eq:
  "delay_foreign_key_creation d = delayed_steps (map (\<lambda>ct. table_name (ct_table ct)) (diff_create_tables d)) d"
  by (simp add: delay_foreign_key_creation_def delayed_steps_def Let_def)

lemma into_steps_eq: "into_steps d = delayed_steps [] d"
proof -
  have "map (delay_create_table []) cts = cts" for cts
    by (rule map_idI) (simp add: delay_create_table_def Let_def)
  moreover have "filter (\<lambda>a. at_changes a \<noteq> []) (map (extra_alter_table []) cts) = []" for cts
    by (simp add: filter_empty_conv extra_alter_table_def)
  ultimately show ?thesis by (simp add: delayed_steps_def)
qed

lemma find_extra_alter_tables:
  assumes "distinct (map table_name ts)"
  shows "find (\<lambda>a. table_name (at_table a) = tn)
      (filter (\<lambda>a. at_changes a \<noteq> []) (map (\<lambda>t. extra_alter_table names \<lparr>ct_table = t\<rparr>) ts))
    = (case find (\<lambda>t. table_name t = tn) ts of None \<Rightarrow> None
       | Some t \<Rightarrow> if delayed_columns names t = [] then None else Some (extra_alter_table names \<lparr>ct_table = t\<rparr>))"
  using assms
proof (induction ts)
  case (Cons t ts)
  show ?case
  proof (cases "table_name t = tn")
    case True
    then have "find (\<lambda>t. table_name t = tn) ts = None" using Cons.prems by (simp add: find_key_None_iff)
    with True Cons show ?thesis by (simp add: extra_alter_table_def)
  next
    case False
    with Cons show ?thesis by (simp add: extra_alter_table_def)
  qed
qed simp

lemma run_extra_alter_tables:
  assumes "distinct (map table_name ts)" "\<And>t. t \<in> set ts \<Longrightarrow> wf_sql_table t"
    and c: "\<And>t. t \<in> set ts \<Longrightarrow> c (table_name t) = Some (table_column (delay_table names t))"
  shows "fold_result run_step
      (map AlterTable (filter (\<lambda>a. at_changes a \<noteq> []) (map (\<lambda>t. extra_alter_table names \<lparr>ct_table = t\<rparr>) ts))) c
    = Inr (\<lambda>tn. case find (\<lambda>t. table_name t = tn) ts of None \<Rightarrow> c tn | Some t \<Rightarrow> Some (table_column t))"
    (is "fold_result _ (map _ ?as) _ = Inr ?c'")
proof -
  let ?t = "\<lambda>a. the (find (\<lambda>t. table_name t = table_name (at_table a)) ts)"
  have name: "table_name (at_table (extra_alter_table names \<lparr>ct_table = t\<rparr>)) = table_name t" for t
    by (simp add: extra_alter_table_def)
  have dist: "distinct (map (\<lambda>a. table_name (at_table a)) ?as)"
    using assms(1) by (intro distinct_map_filter) (simp add: name comp_def)
  have pre: "\<exists>cols. c (table_name (at_table a)) = Some cols \<and> changed_columns a cols = Inr ((\<lambda>_. table_column (?t a)) cols)"
    if "a \<in> set ?as" for a
  proof -
    from that obtain t where t: "t \<in> set ts" "a = extra_alter_table names \<lparr>ct_table = t\<rparr>" by auto
    with find_distinct_key [OF assms(1) t(1)] c [OF t(1)] run_extra_alter_table [OF assms(2) [OF t(1)]]
    show ?thesis by (simp add: name)
  qed
  have eq: "(case find (\<lambda>a. table_name (at_table a) = tn) ?as of None \<Rightarrow> c tn
      | Some a \<Rightarrow> map_option (\<lambda>_. table_column (?t a)) (c tn)) = ?c' tn" for tn
  proof (cases "find (\<lambda>t. table_name t = tn) ts")
    case None
    then show ?thesis by (simp add: find_extra_alter_tables [OF assms(1)])
  next
    case (Some t)
    then have t: "t \<in> set ts" "table_name t = tn" by (auto dest: find_Some_mem)
    have "table_column (delay_table names t) = table_column t" if "delayed_columns names t = []"
      using that delay_table_column [OF assms(2) [OF t(1)], of names] by auto
    with Some c [OF t(1)] t(2) show ?thesis
      by (simp add: find_extra_alter_tables [OF assms(1)] name)
  qed
  have "fold_result run_step (map AlterTable ?as) c
    = Inr (\<lambda>tn. case find (\<lambda>a. table_name (at_table a) = tn) ?as of None \<Rightarrow> c tn
        | Some a \<Rightarrow> map_option (\<lambda>_. table_column (?t a)) (c tn))"
    by (rule run_alter_list [OF dist pre])
  then show ?thesis unfolding eq .
qed

subsection \<open>The whole run\<close>

lemma index_step_tables:
  assumes "wf_sql_schema p" "wf_sql_schema n"
  shows "s \<in> set (wrap_as_step (drop_indexes p n a) DropIndex)
      \<Longrightarrow> \<exists>tn. index_step_table s = Some tn \<and> tn \<in> table_names p \<and> tn \<noteq> MIGRATION_TABLE_NAME"
    and "s \<in> set (wrap_as_step (create_indexes p n a) CreateIndex)
      \<Longrightarrow> \<exists>tn. index_step_table s = Some tn \<and> tn \<in> table_names n \<and> tn \<noteq> MIGRATION_TABLE_NAME"
    and "s \<in> set (wrap_as_step (alter_indexes p n) AlterIndex)
      \<Longrightarrow> \<exists>tn. index_step_table s = Some tn \<and> tn \<in> table_names n \<and> tn \<noteq> MIGRATION_TABLE_NAME"
proof -
  have mig: "table_name t \<noteq> MIGRATION_TABLE_NAME" if "t \<in> set (sql_tables s)" "i \<in> set (table_indices t)" "wf_sql_schema s"
    for t i s using that by (auto simp: wf_sql_schema_def wf_sql_table_def)
  show "s \<in> set (wrap_as_step (drop_indexes p n a) DropIndex)
      \<Longrightarrow> \<exists>tn. index_step_table s = Some tn \<and> tn \<in> table_names p \<and> tn \<noteq> MIGRATION_TABLE_NAME"
    using mig assms(1) by (auto simp: wrap_as_step_def drop_indexes_def table_names_def)
  show "s \<in> set (wrap_as_step (create_indexes p n a) CreateIndex)
      \<Longrightarrow> \<exists>tn. index_step_table s = Some tn \<and> tn \<in> table_names n \<and> tn \<noteq> MIGRATION_TABLE_NAME"
    using mig assms(2) by (auto simp: wrap_as_step_def create_indexes_def table_names_def)
  assume "s \<in> set (wrap_as_step (alter_indexes p n) AlterIndex)"
  then obtain pt nt i where "(pt, nt) \<in> set (table_pairs p n)" "i \<in> set (table_indices nt)"
    "index_step_table s = Some (table_name nt)"
    by (auto simp: wrap_as_step_def alter_indexes_def set_map_filter dest!: find_Some_mem)
  then show "\<exists>tn. index_step_table s = Some tn \<and> tn \<in> table_names n \<and> tn \<noteq> MIGRATION_TABLE_NAME"
    using mig [of nt n i] assms(2) by (auto simp: set_table_pairs table_names_def dest!: get_table_Some)
qed

lemma delayed_steps_groups:
  "delayed_steps names (sql_diff p n)
    = wrap_as_step (drop_indexes p n (alter_indexes p n)) DropIndex
      @ wrap_as_step (drop_tables p n) DropTable
      @ wrap_as_step (map (\<lambda>t. \<lparr>ct_table = delay_table names t\<rparr>) (created_tables p n)) CreateTable
      @ wrap_as_step (alter_tables p n) AlterTable
      @ map AlterTable (filter (\<lambda>a. at_changes a \<noteq> [])
          (map (\<lambda>t. extra_alter_table names \<lparr>ct_table = t\<rparr>) (created_tables p n)))
      @ wrap_as_step (create_indexes p n (alter_indexes p n)) CreateIndex
      @ wrap_as_step (alter_indexes p n) AlterIndex"
  by (simp add: delayed_steps_def into_steps_def sql_diff_def diff_internal_def Let_def create_tables_eq
      wrap_as_step_def delay_create_table_def comp_def)

lemma run_delayed_steps:
  assumes p: "wf_sql_schema p" and n: "wf_sql_schema n" and one: "one_migration_table p n" and c: "fits c p"
  shows "fold_result run_step (delayed_steps names (sql_diff p n)) c = Inr (migrated p n c)"
proof -
  let ?ts = "created_tables p n"
  let ?c1 = "\<lambda>tn. if tn = MIGRATION_TABLE_NAME \<or> tn \<in> table_names n then c tn else None"
  let ?c2 = "\<lambda>tn. if tn \<in> table_names p \<or> tn = MIGRATION_TABLE_NAME then ?c1 tn
                 else map_option (\<lambda>t. table_column (delay_table names t)) (get_table n tn)"
  let ?c3 = "\<lambda>tn. case get_table p tn of None \<Rightarrow> ?c2 tn | Some pt \<Rightarrow>
        (case get_table n tn of None \<Rightarrow> ?c2 tn | Some nt \<Rightarrow> map_option (migrated_columns pt nt) (?c2 tn))"
  let ?c4 = "\<lambda>tn. case find (\<lambda>t. table_name t = tn) ?ts of None \<Rightarrow> ?c3 tn | Some t \<Rightarrow> Some (table_column t)"
  have dist: "distinct (map table_name ?ts)"
    using wf_distinct [OF n] by (simp add: created_tables_def distinct_map_filter)
  have ts: "wf_sql_table t \<and> get_table n (table_name t) = Some t \<and> get_table p (table_name t) = None
      \<and> table_name t \<notin> table_names p \<and> table_name t \<noteq> MIGRATION_TABLE_NAME" if "t \<in> set ?ts" for t
    using that n get_table_mem [OF wf_distinct [OF n]] get_table_None [of p "table_name t"] by (auto simp: created_tables_def wf_sql_schema_def)
  have both: "tn \<noteq> MIGRATION_TABLE_NAME" if "tn \<in> table_names p" "tn \<in> table_names n" for tn
    using that one by (auto simp: one_migration_table_def has_table_iff)
  have drop_i: "fold_result run_step (wrap_as_step (drop_indexes p n a) DropIndex) c = Inr c" for a
    using index_step_tables(1) [OF p n] fits_None [OF c] get_table_None
    by (intro run_index_steps) blast
  have create: "fold_result run_step (wrap_as_step (map (\<lambda>t. \<lparr>ct_table = delay_table names t\<rparr>) ?ts) CreateTable) ?c1 = Inr ?c2"
    using fits_None [OF c] get_table_None [of p] by (intro run_create_tables [OF n]) auto
  have alter: "fold_result run_step (wrap_as_step (alter_tables p n) AlterTable) ?c2 = Inr ?c3"
  proof (rule run_alter_tables [OF p n])
    fix tn pt assume s: "get_table p tn = Some pt" "tn \<in> table_names n"
    with fits_Some [OF c s(1) both [OF get_table_names [OF s(1)] s(2)]] get_table_names [OF s(1)]
    show "\<exists>cols. ?c2 tn = Some cols \<and> dom cols = column_names pt" by simp
  qed
  have extra: "fold_result run_step
      (map AlterTable (filter (\<lambda>a. at_changes a \<noteq> []) (map (\<lambda>t. extra_alter_table names \<lparr>ct_table = t\<rparr>) ?ts))) ?c3
      = Inr ?c4"
    using ts by (intro run_extra_alter_tables [OF dist]) auto
  have c4: "?c4 tn = migrated p n c tn" for tn
  proof (cases "get_table p tn")
    case None
    then show ?thesis
      using get_table_None [of p tn] by (auto simp: find_created_tables migrated_def split: option.split)
  next
    case (Some pt)
    then show ?thesis
      using get_table_names [OF Some] get_table_None [of n tn] both [of tn] get_table_names [of n tn]
      by (auto simp: find_created_tables migrated_def split: option.split)
  qed
  have fin: "migrated p n c tn \<noteq> None" if "tn \<in> table_names n" "tn \<noteq> MIGRATION_TABLE_NAME" for tn
    using that fits_None [OF fits_migrated [OF c]] get_table_None by blast
  have create_i: "fold_result run_step (wrap_as_step (create_indexes p n a) CreateIndex) (migrated p n c) = Inr (migrated p n c)" for a
    using index_step_tables(2) [OF p n] fin by (intro run_index_steps) blast
  have alter_i: "fold_result run_step (wrap_as_step (alter_indexes p n) AlterIndex) (migrated p n c) = Inr (migrated p n c)"
    using index_step_tables(3) [OF p n] fin by (intro run_index_steps) blast
  show ?thesis unfolding delayed_steps_groups
    by (simp only: fold_result_append and_then_simps drop_i run_drop_tables [OF p c] create alter extra c4 create_i alter_i)
qed

end
