(* ===== verification/Sql_Corrected.thy ===== *)
theory Sql_Corrected
  imports Sql_Migrate
begin

section \<open>The corrected steps of every database\<close>

text \<open>
  The steps that are executed are not those of the difference: columns with foreign keys are
  delayed, SQLite tables are rebuilt, and a changed id type drops every table first. \<open>reaches\<close> is
  the contract they all satisfy: the run is accepted by the catalogue, the migration table is not
  touched, the other tables are exactly those of the next schema, and each has the columns of the
  next schema, in their new form unless the differ found nothing to alter.
\<close>

definition columns_reached :: "sql_table option \<Rightarrow> sql_table \<Rightarrow> columns option \<Rightarrow> columns \<Rightarrow> bool" where
  "columns_reached p nt old cols \<longleftrightarrow>
     dom cols = column_names nt
     \<and> (\<forall>k nc. table_column nt k = Some nc \<longrightarrow>
          cols k = Some nc
          \<or> (\<exists>pt pc cs. p = Some pt \<and> table_column pt k = Some pc \<and> \<not> column_altered pt nt pc nc
               \<and> old = Some cs \<and> cols k = cs k))"

definition reaches :: "sql_schema \<Rightarrow> sql_schema \<Rightarrow> catalog \<Rightarrow> catalog \<Rightarrow> bool" where
  "reaches p n c c' \<longleftrightarrow>
     c' MIGRATION_TABLE_NAME = c MIGRATION_TABLE_NAME
     \<and> (\<forall>tn. tn \<noteq> MIGRATION_TABLE_NAME \<longrightarrow>
          (case get_table n tn of
             None \<Rightarrow> c' tn = None
           | Some nt \<Rightarrow> (\<exists>cols. c' tn = Some cols \<and> columns_reached (get_table p tn) nt (c tn) cols)))"

lemma columns_reached_new: "columns_reached p nt old (table_column nt)"
  by (simp add: columns_reached_def)

lemma columns_reached_migrated:
  "dom cols = column_names pt \<Longrightarrow> columns_reached (Some pt) nt (Some cols) (migrated_columns pt nt cols)"
  using dom_migrated_columns [of cols pt nt]
  by (auto simp: columns_reached_def migrated_columns_def split: option.split)

lemma reachesI:
  assumes "c' MIGRATION_TABLE_NAME = c MIGRATION_TABLE_NAME"
    and "\<And>tn. tn \<noteq> MIGRATION_TABLE_NAME \<Longrightarrow> get_table n tn = None \<Longrightarrow> c' tn = None"
    and "\<And>tn nt. tn \<noteq> MIGRATION_TABLE_NAME \<Longrightarrow> get_table n tn = Some nt
      \<Longrightarrow> \<exists>cols. c' tn = Some cols \<and> columns_reached (get_table p tn) nt (c tn) cols"
  shows "reaches p n c c'"
  using assms by (auto simp: reaches_def split: option.split)

lemma reaches_Some:
  "reaches p n c c' \<Longrightarrow> get_table n tn = Some nt \<Longrightarrow> tn \<noteq> MIGRATION_TABLE_NAME
     \<Longrightarrow> \<exists>cols. c' tn = Some cols \<and> columns_reached (get_table p tn) nt (c tn) cols"
  unfolding reaches_def by fastforce

lemma reaches_None:
  "reaches p n c c' \<Longrightarrow> get_table n tn = None \<Longrightarrow> tn \<noteq> MIGRATION_TABLE_NAME \<Longrightarrow> c' tn = None"
  unfolding reaches_def by fastforce

lemma reaches_fits:
  assumes "reaches p n c c'"
  shows "fits c' n"
proof -
  have "map_option dom (c' tn) = map_option column_names (get_table n tn)" if "tn \<noteq> MIGRATION_TABLE_NAME" for tn
    using reaches_Some [OF assms _ that] reaches_None [OF assms _ that]
    by (cases "get_table n tn") (auto simp: columns_reached_def)
  then show ?thesis by (simp add: fits_def)
qed

lemma reaches_migrated:
  assumes "fits c p"
  shows "reaches p n c (migrated p n c)"
proof (rule reachesI)
  fix tn nt assume tn: "tn \<noteq> MIGRATION_TABLE_NAME" and n: "get_table n tn = Some nt"
  show "\<exists>cols. migrated p n c tn = Some cols \<and> columns_reached (get_table p tn) nt (c tn) cols"
  proof (cases "get_table p tn")
    case None
    then show ?thesis using n tn by (simp add: migrated_def columns_reached_new)
  next
    case (Some pt)
    with fits_Some [OF assms Some tn] show ?thesis
      using n tn by (auto simp: migrated_def columns_reached_migrated)
  qed
qed (simp_all add: migrated_def)

lemma reaches_update:
  assumes r: "reaches p n c c'" and t: "get_table n tn = Some nt" "tn \<noteq> MIGRATION_TABLE_NAME"
  shows "reaches p n c (c'(tn \<mapsto> table_column nt))"
proof (rule reachesI)
  show "(c'(tn \<mapsto> table_column nt)) MIGRATION_TABLE_NAME = c MIGRATION_TABLE_NAME"
    using r t(2) by (simp add: reaches_def)
  fix x xt assume x: "x \<noteq> MIGRATION_TABLE_NAME"
  show "get_table n x = None \<Longrightarrow> (c'(tn \<mapsto> table_column nt)) x = None"
    using reaches_None [OF r _ x] t(1) by auto
  show "get_table n x = Some xt \<Longrightarrow>
      \<exists>cols. (c'(tn \<mapsto> table_column nt)) x = Some cols \<and> columns_reached (get_table p x) xt (c x) cols"
    using reaches_Some [OF r _ x] t(1) columns_reached_new by (cases "x = tn") auto
qed

lemma run_into_steps:
  assumes "wf_sql_schema p" "wf_sql_schema n" "one_migration_table p n" "fits c p"
  shows "fold_result run_step (into_steps (sql_diff p n)) c = Inr (migrated p n c)"
  unfolding into_steps_eq by (rule run_delayed_steps [OF assms])

lemma run_delay_foreign_key_creation:
  assumes "wf_sql_schema p" "wf_sql_schema n" "one_migration_table p n" "fits c p"
  shows "fold_result run_step (delay_foreign_key_creation (sql_diff p n)) c = Inr (migrated p n c)"
  unfolding delay_foreign_key_creation_eq by (rule run_delayed_steps [OF assms])

subsection \<open>PostgreSQL and MySQL\<close>

lemma any_opt_total: "(\<And>x. x \<in> set xs \<Longrightarrow> f x \<noteq> None) \<Longrightarrow> any_opt f xs \<noteq> None"
proof (induction xs)
  case (Cons x xs)
  then obtain b where "f x = Some b" by fastforce
  with Cons show ?case by auto
qed simp

lemma changes_id_type_total:
  assumes "x \<in> set (table_changes pt nt)"
  shows "changes_id_type pt x \<noteq> None"
  using assms
  by (auto simp: table_changes_def drop_foreign_keys_def drop_columns_def add_columns_def alter_columns_eq
      altered_columns_def column_bang_def split: option.splits)

lemma step_changes_id_type_total:
  assumes p: "wf_sql_schema p" and s: "s \<in> set (delay_foreign_key_creation (sql_diff p n))"
  shows "step_changes_id_type p s \<noteq> None"
proof (cases s)
  case (AlterTable a)
  with s consider "a \<in> set (alter_tables p n)"
    | t names where "t \<in> set (created_tables p n)" "a = extra_alter_table names \<lparr>ct_table = t\<rparr>"
    by (auto simp: delay_foreign_key_creation_def into_steps_def sql_diff_def diff_internal_def Let_def
        wrap_as_step_def create_tables_eq)
  then show ?thesis
  proof cases
    case 1
    obtain pt where "get_table p (table_name (at_table a)) = Some pt" "at_changes a = table_changes pt (at_table a)"
      using alter_tables_Some [OF p 1] .
    with AlterTable show ?thesis
      using any_opt_total [OF changes_id_type_total [of _ pt "at_table a"]] by (simp add: schema_table_eq)
  next
    case 2
    then have "get_table p (table_name (at_table a)) = None"
      by (simp add: extra_alter_table_def get_table_None created_tables_def)
    with AlterTable show ?thesis by (simp add: schema_table_eq)
  qed
qed simp_all

lemma fix_id_column_type_change_cases:
  assumes "wf_sql_schema p"
  shows "fix_id_column_type_change p n (delay_foreign_key_creation (sql_diff p n))
      \<in> {Inr (delay_foreign_key_creation (sql_diff p n)), Inr (radical_steps p n)}"
proof -
  have "any_opt (step_changes_id_type p) (delay_foreign_key_creation (sql_diff p n)) \<noteq> None"
    by (rule any_opt_total) (rule step_changes_id_type_total [OF assms])
  then obtain b where "any_opt (step_changes_id_type p) (delay_foreign_key_creation (sql_diff p n)) = Some b"
    by blast
  then show ?thesis by (simp add: fix_id_column_type_change_def)
qed

lemma run_radical_steps:
  assumes p: "wf_sql_schema p" and n: "wf_sql_schema n" and c: "fits c p"
  shows "\<exists>c'. fold_result run_step (radical_steps p n) c = Inr c' \<and> reaches p n c c'"
proof -
  let ?ns = "map table_name (filter (\<lambda>t. table_name t \<noteq> ''_Migration'') (sql_tables p))"
  let ?c0 = "\<lambda>tn. if tn = MIGRATION_TABLE_NAME then c tn else None"
  have dist: "distinct (map (\<lambda>n. n) ?ns)"
    using wf_distinct [OF p] by (simp add: distinct_map_filter)
  have pre: "c x \<noteq> None" if "x \<in> set ?ns" for x
    using that fits_None [OF c, of x] get_table_None [of p x] by (auto simp: MIGRATION_TABLE_NAME_def table_names_def)
  have "(case find (\<lambda>x. x = tn) ?ns of None \<Rightarrow> c tn | Some x \<Rightarrow> None) = ?c0 tn" for tn
    using fits_None [OF c, of tn]
    by (auto simp: find_map find_filter_other_key [of table_name tn "\<lambda>k. k \<noteq> ''_Migration''"] MIGRATION_TABLE_NAME_def
        get_table_def split: option.split)
  with drop_names.run_all_eq [of ?ns c, OF dist TrueI pre]
  have drop: "run_step (DropTables \<lparr>dts_names = ?ns\<rparr>) c = Inr ?c0" by simp
  have "fits ?c0 sql_schema_empty" by (simp add: fits_def get_table_def)
  with run_delay_foreign_key_creation [of sql_schema_empty n ?c0] n
  have "fold_result run_step (delay_foreign_key_creation (sql_diff sql_schema_empty n)) ?c0
    = Inr (migrated sql_schema_empty n ?c0)"
    by (simp add: one_migration_table_def has_table_iff)
  moreover have "reaches p n c (migrated sql_schema_empty n ?c0)"
    by (rule reachesI) (auto simp: migrated_def get_table_def [of sql_schema_empty] columns_reached_new)
  ultimately show ?thesis using drop by (auto simp: radical_steps_def)
qed

subsection \<open>SQLite\<close>

text \<open>Rebuilding a table uses a temporary name that must be free.\<close>

definition temporary_names_free :: "sql_schema \<Rightarrow> sql_schema \<Rightarrow> bool" where
  "temporary_names_free p n \<longleftrightarrow>
     (\<forall>tn\<in>table_names p \<inter> table_names n. ''new_'' @ tn \<notin> table_names p \<union> table_names n)"

lemma run_fix_table:
  assumes "table_name ct = table_name nt" "c (table_name nt) \<noteq> None" "c (''new_'' @ table_name nt) = None"
  shows "fold_result run_step (fix_table ct nt schema) c = Inr (c(table_name nt \<mapsto> table_column nt))"
proof -
  let ?tn = "table_name nt" and ?tmp = "''new_'' @ table_name nt"
  let ?c' = "c(?tn \<mapsto> table_column nt)"
  obtain cols where cols: "c ?tn = Some cols" using assms(2) by blast
  have ne: "?tmp \<noteq> ?tn" by (rule notI, drule arg_cong [of _ _ length]) simp
  have tmp: "table_column (nt\<lparr>table_name := x\<rparr>) = table_column nt" for x
    by (simp add: fun_eq_iff table_column_def)
  have idx: "fold_result run_step (map (\<lambda>i. CreateIndex \<lparr>ci_table = ?tn, ci_index = i\<rparr>) is) ?c' = Inr ?c'" for "is"
    by (rule run_index_steps) auto
  have "c(?tmp \<mapsto> table_column nt, ?tn := None, ?tmp := None, ?tn \<mapsto> table_column nt) = ?c'"
    using assms(3) ne by (auto simp: fun_eq_iff)
  then have "fold_result run_step
    [RawSql ''PRAGMA foreign_keys=OFF;'', CreateTable \<lparr>ct_table = nt\<lparr>table_name := ?tmp\<rparr>\<rparr>, RawSql (fix_insert_sql ct nt),
     DropTable \<lparr>dt_name = table_name ct\<rparr>, RenameTable ?tmp ?tn] c = Inr ?c'"
    using assms ne cols by (simp add: Let_def cat_drop_table_def cat_with_table_def tmp)
  then show ?thesis
    unfolding fix_table_def Let_def fold_result_append by (simp add: idx del: fold_result.simps) simp
qed

lemma sqlite_fix_table_eq:
  "get_table p tn = Some pt \<Longrightarrow> get_table n tn = Some nt
     \<Longrightarrow> sqlite_fix_table p n tn schema = Inr (fix_table pt nt schema)"
  by (simp add: sqlite_fix_table_def schema_table_eq)

text \<open>What the loop makes of each group of steps.\<close>

definition rebuild :: "sql_schema \<Rightarrow> sql_schema \<Rightarrow> string \<Rightarrow> string \<Rightarrow> sql_migration_step list" where
  "rebuild p n schema tn = fix_table (the (get_table p tn)) (the (get_table n tn)) schema"

definition alter_or_rebuild :: "sql_schema \<Rightarrow> sql_schema \<Rightarrow> string \<Rightarrow> alter_table_step \<Rightarrow> sql_migration_step list" where
  "alter_or_rebuild p n schema a =
     (if needs_fix a then rebuild p n schema (table_name (at_table a)) else [AlterTable a])"

lemma fix_sqlite_plain:
  assumes "\<And>s r. s \<in> set xs \<Longrightarrow> fix_sqlite_step p n schema s r = Inr (fst r @ [s], snd r)"
  shows "fold_result (fix_sqlite_step p n schema) xs (r, f) = Inr (r @ xs, f)"
  using assms by (induction xs arbitrary: r) auto

lemma fix_sqlite_appends:
  assumes "\<And>x r f. x \<in> set xs \<Longrightarrow> \<exists>f'. fix_sqlite_step p n schema (h x) (r, f) = Inr (r @ g x, f')"
  shows "\<exists>f'. fold_result (fix_sqlite_step p n schema) (map h xs) (r, f) = Inr (r @ concat (map g xs), f')"
  using assms
proof (induction xs arbitrary: r f)
  case (Cons x xs)
  obtain f1 where 1: "fix_sqlite_step p n schema (h x) (r, f) = Inr (r @ g x, f1)"
    using Cons.prems [of x r f] by auto
  obtain f2 where "fold_result (fix_sqlite_step p n schema) (map h xs) (r @ g x, f1)
      = Inr ((r @ g x) @ concat (map g xs), f2)"
    using Cons.IH [of "r @ g x" f1] Cons.prems by fastforce
  with 1 show ?case by simp
qed simp

lemma fix_sqlite_alters:
  assumes "\<And>a. a \<in> set as \<Longrightarrow> \<exists>pt nt. get_table p (table_name (at_table a)) = Some pt
      \<and> get_table n (table_name (at_table a)) = Some nt"
  shows "\<exists>f'. fold_result (fix_sqlite_step p n schema) (map AlterTable as) (r, f)
    = Inr (r @ concat (map (alter_or_rebuild p n schema) as), f')"
  by (rule fix_sqlite_appends)
    (use assms in \<open>force simp: alter_or_rebuild_def rebuild_def sqlite_fix_table_eq\<close>)

lemma fix_sqlite_creates:
  "\<exists>cis'. set cis' \<subseteq> set cis
     \<and> fold_result (fix_sqlite_step p n schema) (map CreateIndex cis) (r, f) = Inr (r @ map CreateIndex cis', f)"
proof (induction cis arbitrary: r)
  case (Cons ci cis)
  show ?case
  proof (cases "ci_table ci \<in> set f")
    case True
    with Cons [of r] show ?thesis by auto
  next
    case False
    obtain cis' where "set cis' \<subseteq> set cis"
      "fold_result (fix_sqlite_step p n schema) (map CreateIndex cis) (r @ [CreateIndex ci], f)
        = Inr (r @ [CreateIndex ci] @ map CreateIndex cis', f)" using Cons [of "r @ [CreateIndex ci]"] by auto
    with False show ?thesis by (intro exI [of _ "ci # cis'"]) auto
  qed
qed simp

lemma fix_sqlite_renames:
  assumes "\<And>a. a \<in> set as \<Longrightarrow> \<exists>pt nt. get_table p (ai_table a) = Some pt \<and> get_table n (ai_table a) = Some nt"
  shows "\<exists>f'. fold_result (fix_sqlite_step p n schema) (map AlterIndex as) (r, f)
    = Inr (r @ concat (map (\<lambda>a. rebuild p n schema (ai_table a)) as), f')"
  by (rule fix_sqlite_appends) (use assms in \<open>force simp: rebuild_def sqlite_fix_table_eq\<close>)

lemma fix_stupid_sqlite_eq:
  assumes p: "wf_sql_schema p" and n: "wf_sql_schema n"
  shows "\<exists>cis. set cis \<subseteq> set (create_indexes p n (alter_indexes p n))
    \<and> fix_stupid_sqlite (sql_diff p n) p n schema = Inr
      (wrap_as_step (drop_indexes p n (alter_indexes p n)) DropIndex
       @ wrap_as_step (drop_tables p n) DropTable @ wrap_as_step (create_tables p n) CreateTable
       @ concat (map (alter_or_rebuild p n schema) (alter_tables p n))
       @ map CreateIndex cis
       @ concat (map (\<lambda>a. rebuild p n schema (ai_table a)) (alter_indexes p n)))"
proof -
  let ?step = "fix_sqlite_step p n schema"
  define plain where "plain = wrap_as_step (drop_indexes p n (alter_indexes p n)) DropIndex
       @ wrap_as_step (drop_tables p n) DropTable @ wrap_as_step (create_tables p n) CreateTable"
  have plain: "fold_result ?step plain ([], []) = Inr (plain, [])"
  proof -
    have "fold_result ?step plain ([], []) = Inr ([] @ plain, [])"
      by (rule fix_sqlite_plain) (auto simp: plain_def wrap_as_step_def)
    then show ?thesis by simp
  qed
  have "\<exists>pt nt. get_table p (table_name (at_table a)) = Some pt \<and> get_table n (table_name (at_table a)) = Some nt"
    if "a \<in> set (alter_tables p n)" for a
    using alter_tables_Some [OF p that] by blast
  from fix_sqlite_alters [OF this] obtain f1 where alters:
    "fold_result ?step (map AlterTable (alter_tables p n)) (plain, [])
      = Inr (plain @ concat (map (alter_or_rebuild p n schema) (alter_tables p n)), f1)" by blast
  obtain cis where cis: "set cis \<subseteq> set (create_indexes p n (alter_indexes p n))"
    "fold_result ?step (map CreateIndex (create_indexes p n (alter_indexes p n)))
        (plain @ concat (map (alter_or_rebuild p n schema) (alter_tables p n)), f1)
      = Inr ((plain @ concat (map (alter_or_rebuild p n schema) (alter_tables p n))) @ map CreateIndex cis, f1)"
    using fix_sqlite_creates by blast
  have "\<exists>pt nt. get_table p (ai_table a) = Some pt \<and> get_table n (ai_table a) = Some nt"
    if a: "a \<in> set (alter_indexes p n)" for a
  proof -
    from a obtain pt nt where pn: "(pt, nt) \<in> set (table_pairs p n)" "ai_table a = table_name nt"
      by (auto simp: alter_indexes_def)
    then show ?thesis
      using get_table_mem [OF wf_distinct [OF p], of pt] get_table_Some [of n "table_name pt" nt]
      by (auto simp: set_table_pairs)
  qed
  from fix_sqlite_renames [OF this] obtain f2 where
    "fold_result ?step (map AlterIndex (alter_indexes p n))
        ((plain @ concat (map (alter_or_rebuild p n schema) (alter_tables p n))) @ map CreateIndex cis, f1)
      = Inr (((plain @ concat (map (alter_or_rebuild p n schema) (alter_tables p n))) @ map CreateIndex cis)
          @ concat (map (\<lambda>a. rebuild p n schema (ai_table a)) (alter_indexes p n)), f2)" by blast
  moreover have "into_steps (sql_diff p n) = plain @ map AlterTable (alter_tables p n)
      @ map CreateIndex (create_indexes p n (alter_indexes p n)) @ map AlterIndex (alter_indexes p n)"
    by (simp add: plain_def into_steps_def sql_diff_def diff_internal_def Let_def wrap_as_step_def)
  ultimately have "fold_result ?step (into_steps (sql_diff p n)) ([], [])
    = Inr (((plain @ concat (map (alter_or_rebuild p n schema) (alter_tables p n))) @ map CreateIndex cis)
          @ concat (map (\<lambda>a. rebuild p n schema (ai_table a)) (alter_indexes p n)), f2)"
    by (simp only: fold_result_append plain alters cis(2) and_then_simps)
  with cis(1) show ?thesis
    by (intro exI [of _ cis]) (simp add: fix_stupid_sqlite_def plain_def)
qed

definition temporaries_absent :: "sql_schema \<Rightarrow> sql_schema \<Rightarrow> catalog \<Rightarrow> bool" where
  "temporaries_absent p n c \<longleftrightarrow> (\<forall>tn\<in>table_names p \<inter> table_names n. c (''new_'' @ tn) = None)"

lemma new_not_migration [simp]: "''new_'' @ tn \<noteq> MIGRATION_TABLE_NAME"
  by (simp add: MIGRATION_TABLE_NAME_def)

lemma run_rebuild:
  assumes "get_table p tn = Some pt" "get_table n tn = Some nt" "temporaries_absent p n c" "c tn \<noteq> None"
  shows "fold_result run_step (rebuild p n schema tn) c = Inr (c(tn \<mapsto> table_column nt))"
  using run_fix_table [of pt nt c schema] assms get_table_Some [of p tn pt] get_table_Some [of n tn nt]
    get_table_names [of p tn pt] get_table_names [of n tn nt]
  by (auto simp: rebuild_def temporaries_absent_def)

interpretation sqlite_alters: keyed_run "\<lambda>a. fold_result run_step (alter_or_rebuild p n schema a)"
    "\<lambda>a. table_name (at_table a)"
    "\<lambda>a v. (\<exists>pt. get_table p (table_name (at_table a)) = Some pt) \<and> get_table n (table_name (at_table a)) = Some (at_table a)
       \<and> (\<exists>cols cols'. v = Some cols \<and> changed_columns a cols = Inr cols')"
    "\<lambda>a v. if needs_fix a then Some (table_column (at_table a))
       else (case v of None \<Rightarrow> None | Some cols \<Rightarrow> (case changed_columns a cols of Inl _ \<Rightarrow> None | Inr cols' \<Rightarrow> Some cols'))"
    "\<lambda>c. temporary_names_free p n \<and> temporaries_absent p n c" for p n schema
proof unfold_locales
  fix c :: catalog and a :: alter_table_step
  let ?tn = "table_name (at_table a)"
  assume safe: "temporary_names_free p n \<and> temporaries_absent p n c"
    and pre: "(\<exists>pt. get_table p ?tn = Some pt) \<and> get_table n ?tn = Some (at_table a)
       \<and> (\<exists>cols cols'. c ?tn = Some cols \<and> changed_columns a cols = Inr cols')"
  let ?v = "if needs_fix a then Some (table_column (at_table a))
       else (case c ?tn of None \<Rightarrow> None | Some cols \<Rightarrow> (case changed_columns a cols of Inl _ \<Rightarrow> None | Inr cols' \<Rightarrow> Some cols'))"
  show "fold_result run_step (alter_or_rebuild p n schema a) c = Inr (c(?tn := ?v))"
  proof (cases "needs_fix a")
    case True
    then show ?thesis using run_rebuild safe pre by (auto simp: alter_or_rebuild_def)
  next
    case False
    then show ?thesis using alter_tabs.run_pre [of c a] pre by (auto simp: alter_or_rebuild_def)
  qed
  have "?tn \<noteq> ''new_'' @ tn" if "tn \<in> table_names p \<inter> table_names n" for tn
    using safe that pre get_table_names [of p ?tn] by (auto simp: temporary_names_free_def)
  then have "(c(?tn := ?v)) (''new_'' @ tn) = c (''new_'' @ tn)" if "tn \<in> table_names p \<inter> table_names n" for tn
    using that by (intro fun_upd_other) metis
  with safe show "temporary_names_free p n \<and> temporaries_absent p n (c(?tn := ?v))"
    unfolding temporaries_absent_def by (intro conjI ballI) (simp_all only:)
qed

lemma run_rebuilds:
  assumes "temporary_names_free p n" "reaches p n c c'"
    and "\<And>tn. tn \<in> set tns \<Longrightarrow> tn \<in> table_names p \<and> tn \<in> table_names n \<and> tn \<noteq> MIGRATION_TABLE_NAME"
  shows "\<exists>c''. fold_result run_step (concat (map (rebuild p n schema) tns)) c' = Inr c'' \<and> reaches p n c c''"
  using assms(2,3)
proof (induction tns arbitrary: c')
  case (Cons tn tns)
  have tn: "tn \<noteq> MIGRATION_TABLE_NAME" using Cons.prems by simp
  obtain pt nt where t: "get_table p tn = Some pt" "get_table n tn = Some nt"
    using Cons.prems(2) [of tn] get_table_exists [of tn p] get_table_exists [of tn n] by auto
  have "c' (''new_'' @ x) = None" if "x \<in> table_names p \<inter> table_names n" for x
    using reaches_None [OF Cons.prems(1), of "''new_'' @ x"] that assms(1) get_table_None [of n "''new_'' @ x"]
    unfolding temporary_names_free_def by (metis UnI2 new_not_migration)
  then have "temporaries_absent p n c'" unfolding temporaries_absent_def by blast
  moreover have "c' tn \<noteq> None" using reaches_Some [OF Cons.prems(1) t(2) tn] by auto
  ultimately have "fold_result run_step (rebuild p n schema tn) c' = Inr (c'(tn \<mapsto> table_column nt))"
    using run_rebuild [OF t] by blast
  moreover obtain c'' where "fold_result run_step (concat (map (rebuild p n schema) tns)) (c'(tn \<mapsto> table_column nt)) = Inr c''"
    "reaches p n c c''"
    using Cons.IH [OF reaches_update [OF Cons.prems(1) t(2) tn]] Cons.prems(2) by (auto simp del: fun_upd_apply)
  ultimately show ?case by (auto simp: fold_result_append)
qed simp

text \<open>The catalogue after tables were dropped and created, before any is altered.\<close>

definition prepared :: "sql_schema \<Rightarrow> sql_schema \<Rightarrow> catalog \<Rightarrow> catalog" where
  "prepared p n c tn =
     (if tn = MIGRATION_TABLE_NAME then c tn
      else case get_table n tn of
        None \<Rightarrow> None
      | Some nt \<Rightarrow> if get_table p tn = None then Some (table_column nt) else c tn)"

lemma prepared_common:
  assumes "wf_sql_schema p" "wf_sql_schema n" "one_migration_table p n" "fits c p"
    and s: "get_table p tn = Some pt" "get_table n tn = Some nt"
  shows "\<exists>cols. prepared p n c tn = Some cols \<and> c tn = Some cols \<and> dom cols = column_names pt
      \<and> fold_result (run_change t) (table_changes pt nt) cols = Inr (migrated_columns pt nt cols)"
proof -
  have tn: "tn \<noteq> MIGRATION_TABLE_NAME"
    using assms(3) get_table_names [OF s(1)] get_table_names [OF s(2)]
    by (auto simp: one_migration_table_def has_table_iff)
  obtain cols where cols: "c tn = Some cols" "dom cols = column_names pt"
    using fits_Some [OF assms(4) s(1) tn] by blast
  moreover have "prepared p n c tn = c tn" using s tn by (simp add: prepared_def)
  ultimately show ?thesis
    using run_table_changes [OF wf_get_table [OF assms(1) s(1)] wf_get_table [OF assms(2) s(2)]] by auto
qed

definition altered_entry :: "alter_table_step option \<Rightarrow> columns option \<Rightarrow> columns option" where
  "altered_entry a v = (case a of None \<Rightarrow> v | Some a \<Rightarrow>
      if needs_fix a then Some (table_column (at_table a))
      else (case v of None \<Rightarrow> None | Some cols \<Rightarrow> (case changed_columns a cols of Inl _ \<Rightarrow> None | Inr cols' \<Rightarrow> Some cols')))"

lemma altered_entry_reached:
  assumes p: "wf_sql_schema p" "wf_sql_schema n" "one_migration_table p n" "fits c p"
    and tn: "tn \<noteq> MIGRATION_TABLE_NAME" and nt: "get_table n tn = Some nt"
  shows "\<exists>cols. altered_entry (find (\<lambda>a. table_name (at_table a) = tn) (alter_tables p n)) (prepared p n c tn) = Some cols
    \<and> columns_reached (get_table p tn) nt (c tn) cols"
proof (cases "find (\<lambda>a. table_name (at_table a) = tn) (alter_tables p n)")
  case (Some a)
  then have a: "a \<in> set (alter_tables p n)" "table_name (at_table a) = tn" by (auto dest: find_Some_mem)
  obtain pt where s: "get_table p tn = Some pt" "get_table n tn = Some (at_table a)"
      "at_changes a = table_changes pt (at_table a)"
    using alter_tables_Some [OF p(1) a(1)] unfolding a(2) .
  obtain cols where "prepared p n c tn = Some cols" "c tn = Some cols" "dom cols = column_names pt"
    "fold_result (run_change tn) (table_changes pt nt) cols = Inr (migrated_columns pt nt cols)"
    using prepared_common [OF p s(1) nt, of tn] by blast
  with s nt a(2) columns_reached_migrated [of cols pt nt] columns_reached_new show ?thesis
    unfolding Some by (auto simp: changed_columns_def altered_entry_def)
next
  case None
  show ?thesis
  proof (cases "get_table p tn")
    case p0: None
    then show ?thesis unfolding None
      using nt tn columns_reached_new by (auto simp: altered_entry_def prepared_def)
  next
    case (Some pt)
    obtain cols where "prepared p n c tn = Some cols" "c tn = Some cols" "dom cols = column_names pt"
      "migrated_columns pt nt cols = cols"
      using prepared_common [OF p Some nt] alter_tables_None [OF None Some nt] by auto
    with columns_reached_migrated [of cols pt nt] Some show ?thesis unfolding None by (auto simp: altered_entry_def)
  qed
qed

lemma altered_entries_reach:
  assumes p: "wf_sql_schema p" "wf_sql_schema n" "one_migration_table p n" "fits c p"
  shows "reaches p n c (\<lambda>tn. altered_entry (find (\<lambda>a. table_name (at_table a) = tn) (alter_tables p n)) (prepared p n c tn))"
proof (rule reachesI)
  have alt: "tn \<in> table_names p \<and> get_table n tn = Some (at_table a)"
    if "find (\<lambda>a. table_name (at_table a) = tn) (alter_tables p n) = Some a" for tn a
    using find_Some_mem [OF that] alter_tables_Some [OF p(1), of a n] get_table_names by metis
  then have "find (\<lambda>a. table_name (at_table a) = MIGRATION_TABLE_NAME) (alter_tables p n) = None"
    using p(3) get_table_names unfolding one_migration_table_def has_table_iff by (metis not_None_eq)
  then show "altered_entry (find (\<lambda>a. table_name (at_table a) = MIGRATION_TABLE_NAME) (alter_tables p n))
      (prepared p n c MIGRATION_TABLE_NAME) = c MIGRATION_TABLE_NAME"
    by (simp add: altered_entry_def prepared_def)
  show "altered_entry (find (\<lambda>a. table_name (at_table a) = tn) (alter_tables p n)) (prepared p n c tn) = None"
    if "tn \<noteq> MIGRATION_TABLE_NAME" "get_table n tn = None" for tn
    using that alt by (auto simp: altered_entry_def prepared_def split: option.split)
qed (rule altered_entry_reached [OF p])

lemma run_alters_or_rebuilds:
  assumes p: "wf_sql_schema p" "wf_sql_schema n" "one_migration_table p n" "fits c p" and free: "temporary_names_free p n"
  shows "\<exists>c'. fold_result run_step (concat (map (alter_or_rebuild p n schema) (alter_tables p n))) (prepared p n c) = Inr c'
    \<and> reaches p n c c'"
proof -
  let ?as = "alter_tables p n"
  have concat: "fold_result run_step (concat (map g xs)) x = fold_result (\<lambda>a. fold_result run_step (g a)) xs x"
    for g :: "alter_table_step \<Rightarrow> sql_migration_step list" and xs x
  proof (induction xs arbitrary: x)
    case (Cons a xs)
    then show ?case by (cases "fold_result run_step (g a) x") (simp_all add: fold_result_append)
  qed simp
  have "prepared p n c (''new_'' @ x) = None" if "x \<in> table_names p \<inter> table_names n" for x
    using that free get_table_None [of n "''new_'' @ x"] new_not_migration [of x]
    unfolding temporary_names_free_def prepared_def by auto
  then have safe: "temporary_names_free p n \<and> temporaries_absent p n (prepared p n c)"
    using free unfolding temporaries_absent_def by blast
  have dist: "distinct (map (\<lambda>a. table_name (at_table a)) ?as)"
    using distinct_altered_pairs [OF p(1), of n] by (simp add: alter_tables_eq comp_def case_prod_beta)
  have pre: "(\<exists>pt. get_table p (table_name (at_table a)) = Some pt)
      \<and> get_table n (table_name (at_table a)) = Some (at_table a)
      \<and> (\<exists>cols cols'. prepared p n c (table_name (at_table a)) = Some cols \<and> changed_columns a cols = Inr cols')"
    if a: "a \<in> set ?as" for a
  proof -
    obtain pt where s: "get_table p (table_name (at_table a)) = Some pt"
      "get_table n (table_name (at_table a)) = Some (at_table a)" "at_changes a = table_changes pt (at_table a)"
      using alter_tables_Some [OF p(1) a] .
    from prepared_common [OF p s(1,2)] s show ?thesis unfolding changed_columns_def by metis
  qed
  have "fold_result run_step (concat (map (alter_or_rebuild p n schema) ?as)) (prepared p n c)
    = Inr (\<lambda>tn. altered_entry (find (\<lambda>a. table_name (at_table a) = tn) ?as) (prepared p n c tn))"
    unfolding concat altered_entry_def by (rule sqlite_alters.run_all_eq [OF dist safe pre])
  with altered_entries_reach [OF p] show ?thesis by blast
qed

lemma alter_index_tables:
  assumes "wf_sql_schema n" "a \<in> set (alter_indexes p n)"
  shows "ai_table a \<in> table_names p \<and> ai_table a \<in> table_names n \<and> ai_table a \<noteq> MIGRATION_TABLE_NAME"
proof -
  from assms(2) obtain pt nt i where pn: "(pt, nt) \<in> set (table_pairs p n)" "ai_table a = table_name nt"
      "i \<in> set (table_indices nt)"
    by (auto simp: alter_indexes_def set_map_filter dest!: find_Some_mem)
  then have "get_table n (table_name pt) = Some nt" "pt \<in> set (sql_tables p)" by (auto simp: set_table_pairs)
  with get_table_Some [of n "table_name pt" nt] get_table_names [of n "table_name pt" nt] pn assms(1) show ?thesis
    by (auto simp: table_names_def wf_sql_schema_def wf_sql_table_def)
qed

lemma run_fix_stupid_sqlite:
  assumes p: "wf_sql_schema p" and n: "wf_sql_schema n" and one: "one_migration_table p n"
    and free: "temporary_names_free p n" and c: "fits c p"
  shows "\<exists>steps c'. fix_stupid_sqlite (sql_diff p n) p n schema = Inr steps
    \<and> fold_result run_step steps c = Inr c' \<and> reaches p n c c'"
proof -
  let ?c1 = "\<lambda>tn. if tn = MIGRATION_TABLE_NAME \<or> tn \<in> table_names n then c tn else None"
  obtain cis where cis: "set cis \<subseteq> set (create_indexes p n (alter_indexes p n))"
    and eq: "fix_stupid_sqlite (sql_diff p n) p n schema = Inr
      (wrap_as_step (drop_indexes p n (alter_indexes p n)) DropIndex
       @ wrap_as_step (drop_tables p n) DropTable @ wrap_as_step (create_tables p n) CreateTable
       @ concat (map (alter_or_rebuild p n schema) (alter_tables p n)) @ map CreateIndex cis
       @ concat (map (rebuild p n schema) (map ai_table (alter_indexes p n))))"
    using fix_stupid_sqlite_eq [OF p n, of schema] by (auto simp: comp_def)
  have drop_i: "fold_result run_step (wrap_as_step (drop_indexes p n a) DropIndex) c = Inr c" for a
    using index_step_tables(1) [OF p n] fits_None [OF c] get_table_None
    by (intro run_index_steps) blast
  have "(if tn \<in> table_names p \<or> tn = MIGRATION_TABLE_NAME then ?c1 tn else map_option table_column (get_table n tn))
    = prepared p n c tn" for tn
    using get_table_None [of p tn] get_table_None [of n tn] by (auto simp: prepared_def split: option.split)
  then have create: "fold_result run_step (wrap_as_step (create_tables p n) CreateTable) ?c1 = Inr (prepared p n c)"
    using run_create_tables [of n "\<lambda>t. t" p ?c1] n fits_None [OF c] get_table_None [of p]
    by (simp add: create_tables_eq)
  obtain c3 where c3: "fold_result run_step (concat (map (alter_or_rebuild p n schema) (alter_tables p n))) (prepared p n c) = Inr c3"
    "reaches p n c c3" using run_alters_or_rebuilds [OF p n one c free] by blast
  have "s \<in> set (wrap_as_step (create_indexes p n (alter_indexes p n)) CreateIndex)" if "s \<in> set (map CreateIndex cis)" for s
    using that cis by (auto simp: wrap_as_step_def)
  then have create_i: "fold_result run_step (map CreateIndex cis) c3 = Inr c3"
    using index_step_tables(2) [OF p n] fits_None [OF reaches_fits [OF c3(2)]] get_table_None [of n]
    by (intro run_index_steps) metis
  have "\<exists>c4. fold_result run_step (concat (map (rebuild p n schema) (map ai_table (alter_indexes p n)))) c3 = Inr c4
    \<and> reaches p n c c4"
    using alter_index_tables [OF n, of _ p] by (intro run_rebuilds [OF free c3(2)]) auto
  then obtain c4 where c4: "fold_result run_step (concat (map (rebuild p n schema) (map ai_table (alter_indexes p n)))) c3 = Inr c4"
    "reaches p n c c4" by blast
  then have "fold_result run_step
      (wrap_as_step (drop_indexes p n (alter_indexes p n)) DropIndex
       @ wrap_as_step (drop_tables p n) DropTable @ wrap_as_step (create_tables p n) CreateTable
       @ concat (map (alter_or_rebuild p n schema) (alter_tables p n)) @ map CreateIndex cis
       @ concat (map (rebuild p n schema) (map ai_table (alter_indexes p n)))) c = Inr c4"
    by (simp only: fold_result_append drop_i run_drop_tables [OF p c] create c3(1) create_i and_then_simps)
  with eq c4(2) show ?thesis by blast
qed

subsection \<open>Migrations\<close>

lemma temporary_names_free_sym: "temporary_names_free p n \<Longrightarrow> temporary_names_free n p"
  by (auto simp: temporary_names_free_def)

lemma one_migration_table_sym: "one_migration_table p n \<Longrightarrow> one_migration_table n p"
  by (auto simp: one_migration_table_def)

lemma corrected_steps_reach:
  assumes p: "wf_sql_schema p" and n: "wf_sql_schema n" and one: "one_migration_table p n"
    and free: "fam = Sqlite \<Longrightarrow> temporary_names_free p n"
  shows "\<exists>steps. infer_database_migration_steps_and_fix p n schema fam = Inr (into_steps (sql_diff p n), steps)
    \<and> (\<forall>c. fits c p \<longrightarrow> (\<exists>c'. fold_result run_step steps c = Inr c' \<and> reaches p n c c'))"
proof (cases "fam = Sqlite")
  case True
  obtain steps where steps: "fix_stupid_sqlite (sql_diff p n) p n schema = Inr steps"
    using run_fix_stupid_sqlite [OF p n one free [OF True] fits_catalog_of] by blast
  then have "\<exists>c'. fold_result run_step steps c = Inr c' \<and> reaches p n c c'" if "fits c p" for c
    using run_fix_stupid_sqlite [OF p n one free [OF True] that, of schema] by auto
  with True steps show ?thesis by (simp add: infer_database_migration_steps_and_fix_def)
next
  case False
  let ?steps = "delay_foreign_key_creation (sql_diff p n)"
  have "\<exists>c'. fold_result run_step ?steps c = Inr c' \<and> reaches p n c c'" if "fits c p" for c
    using run_delay_foreign_key_creation [OF p n one that] reaches_migrated [OF that] by blast
  moreover have "fix_id_column_type_change p n ?steps \<in> {Inr ?steps, Inr (radical_steps p n)}"
    by (rule fix_id_column_type_change_cases [OF p])
  ultimately show ?thesis
    using False run_radical_steps [OF p n] by (auto simp: infer_database_migration_steps_and_fix_def Let_def)
qed

lemma sql_infer_steps:
  assumes "wf_sql_schema p" "wf_sql_schema n" "one_migration_table p n"
    and "fam = Sqlite \<Longrightarrow> temporary_names_free p n"
  shows "\<exists>m. sql_infer p n schema fam = Inr m \<and> mig_before m = p \<and> mig_after m = n
    \<and> mig_original_steps m = into_steps (sql_diff p n)
    \<and> (\<forall>c. fits c p \<longrightarrow> (\<exists>c'. fold_result run_step (mig_corrected_steps m) c = Inr c' \<and> reaches p n c c'))
    \<and> (\<forall>c. fits c n \<longrightarrow> (\<exists>c'. fold_result run_step (mig_rollback m) c = Inr c' \<and> reaches n p c c'))"
proof -
  obtain steps where "infer_database_migration_steps_and_fix p n schema fam = Inr (into_steps (sql_diff p n), steps)"
    "\<forall>c. fits c p \<longrightarrow> (\<exists>c'. fold_result run_step steps c = Inr c' \<and> reaches p n c c')"
    using corrected_steps_reach [OF assms] by blast
  moreover obtain rsteps where "infer_database_migration_steps_and_fix n p schema fam = Inr (into_steps (sql_diff n p), rsteps)"
    "\<forall>c. fits c n \<longrightarrow> (\<exists>c'. fold_result run_step rsteps c = Inr c' \<and> reaches n p c c')"
    using corrected_steps_reach [OF assms(2,1) one_migration_table_sym [OF assms(3)]
        temporary_names_free_sym [OF assms(4)]] by blast
  ultimately show ?thesis by (simp add: sql_infer_def)
qed

subsection \<open>An example\<close>

definition ex_column :: "string \<Rightarrow> column_type_family \<Rightarrow> column_arity \<Rightarrow> column" where
  "ex_column n f a = \<lparr>column_name = n, column_tpe = column_type_pure f, column_arity = a,
     column_default = None, column_auto_increment = False\<rparr>"

definition ex_table :: "string \<Rightarrow> column list \<Rightarrow> index list \<Rightarrow> foreign_key list \<Rightarrow> sql_table" where
  "ex_table n cs is fks = \<lparr>table_name = n, table_columns = cs, table_indices = is,
     table_primary_key = Some \<lparr>pk_columns = [''id''], pk_sequence = None\<rparr>, table_foreign_keys = fks\<rparr>"

definition ex_schema :: "sql_table list \<Rightarrow> sql_schema" where
  "ex_schema ts = \<lparr>sql_tables = ts, sql_enums = [], sql_sequences = []\<rparr>"

definition ex_fk :: "string \<Rightarrow> string \<Rightarrow> foreign_key" where
  "ex_fk c t = \<lparr>fk_constraint_name = None, fk_columns = [c], fk_referenced_table = t,
     fk_referenced_columns = [''id''], fk_on_delete_action = SetNull\<rparr>"

text \<open>
  A database with the migration table, in which one table goes, two tables that refer to each
  other come, and the table of users gets a column and an index and has another changed.
\<close>

definition ex_current :: sql_schema where
  "ex_current = ex_schema
     [ex_table ''_Migration'' [ex_column ''revision'' TInt RequiredColumn] [] [],
      ex_table ''User'' [ex_column ''id'' TInt RequiredColumn, ex_column ''name'' TString NullableColumn] [] [],
      ex_table ''Log'' [ex_column ''id'' TInt RequiredColumn] [] []]"

definition ex_expected :: sql_schema where
  "ex_expected = ex_schema
     [ex_table ''User'' [ex_column ''id'' TInt RequiredColumn, ex_column ''mail'' TString RequiredColumn,
          ex_column ''name'' TString RequiredColumn]
        [\<lparr>index_name = ''User.mail'', index_columns = [''mail''], index_tpe = Unique\<rparr>] [],
      ex_table ''Post'' [ex_column ''id'' TInt RequiredColumn, ex_column ''top'' TInt NullableColumn]
        [] [ex_fk ''top'' ''Comment''],
      ex_table ''Comment'' [ex_column ''id'' TInt RequiredColumn, ex_column ''post'' TInt NullableColumn]
        [] [ex_fk ''post'' ''Post'']]"

lemma ex_schemas:
  "wf_sql_schema ex_current" "wf_sql_schema ex_expected" "one_migration_table ex_current ex_expected"
  "temporary_names_free ex_current ex_expected"
  by code_simp+





end
