(* ===== verification/Sql_Renderer.thy ===== *)
theory Sql_Renderer
  imports Sql_Steps
begin

section \<open>Rendering SQL\<close>

text \<open>
  \<open>sql-migration-connector/src/sql_renderer/\<close>, one renderer per database, and \<open>render_raw_sql\<close> of
  \<open>sql_database_step_applier.rs\<close>: the statement each step is executed as. \<open>None\<close> stands for a
  panic: a column type the renderer does not handle, a foreign key without referenced column, or
  the renaming of an index on SQLite.
\<close>

subsection \<open>Common parts\<close>

definition render_nullability :: "sql_table \<Rightarrow> column \<Rightarrow> string" where
  "render_nullability t c =
     (if is_required c \<and> \<not> is_part_of_foreign_key t (column_name c) then ''NOT NULL'' else [])"

definition render_default :: "column \<Rightarrow> string" where
  "render_default c =
     (case column_default c of
        Some v \<Rightarrow>
          (let default =
             (if type_family (column_tpe c) \<in> {TString, TDateTime}
              then if take 1 v = [CHR 0x27] then ''DEFAULT '' @ v
                   else ''DEFAULT '' @ [CHR 0x27] @ v @ [CHR 0x27]
              else ''DEFAULT '' @ v)
           in if is_required c then default else [])
      | None \<Rightarrow> [])"

fun render_on_delete :: "foreign_key_action \<Rightarrow> string" where
  "render_on_delete NoAction = []"
| "render_on_delete SetNull = ''ON DELETE SET NULL''"
| "render_on_delete Cascade = ''ON DELETE CASCADE''"
| "render_on_delete SetDefault = ''ON DELETE SET DEFAULT''"
| "render_on_delete Restrict = ''ON DELETE RESTRICT''"

text \<open>\<open>slice.first()\<close>.\<close>

definition first_elem :: "'a list \<Rightarrow> 'a option" where
  "first_elem xs = (case xs of [] \<Rightarrow> None | x # _ \<Rightarrow> Some x)"

subsection \<open>MySQL\<close>

definition mysql_quote :: "string \<Rightarrow> string" where
  "mysql_quote name = [CHR 0x60] @ name @ [CHR 0x60]"

definition mysql_render_column_type :: "column_type \<Rightarrow> string option" where
  "mysql_render_column_type t =
     (case type_family t of
        TBoolean \<Rightarrow> Some ''boolean''
      | TDateTime \<Rightarrow> Some ''datetime(3)''
      | TFloat \<Rightarrow> Some ''Decimal(65,30)''
      | TInt \<Rightarrow> Some ''int''
      | TString \<Rightarrow> Some ''varchar(191)''
      | _ \<Rightarrow> None)"

definition mysql_render_references :: "string \<Rightarrow> foreign_key option \<Rightarrow> string option" where
  "mysql_render_references schema_name fk =
     (case fk of
        Some fk \<Rightarrow>
          map_option (\<lambda>c. ''REFERENCES '' @ mysql_quote schema_name @ ''.'' @ mysql_quote (fk_referenced_table fk)
              @ ''('' @ mysql_quote c @ '') '' @ render_on_delete (fk_on_delete_action fk))
            (first_elem (fk_referenced_columns fk))
      | None \<Rightarrow> Some [])"

definition mysql_render_column :: "string \<Rightarrow> sql_table \<Rightarrow> column \<Rightarrow> bool \<Rightarrow> string option" where
  "mysql_render_column schema_name t c add_fk_prefix =
     (let name = mysql_quote (column_name c); fk = foreign_key_for_column t (column_name c)
      in Option.bind (mysql_render_column_type (column_tpe c)) (\<lambda>tpe_str.
         Option.bind (mysql_render_references schema_name fk) (\<lambda>references_str.
         Some (case fk of
            Some _ \<Rightarrow>
              name @ '' '' @ tpe_str @ '' '' @ render_nullability t c @ '' '' @ render_default c
              @ '','' @ [CHR 0x0A]
              @ (if add_fk_prefix then ''ADD'' else []) @ '' FOREIGN KEY ('' @ name @ '') '' @ references_str
          | None \<Rightarrow>
              name @ '' '' @ tpe_str @ '' '' @ render_nullability t c @ '' '' @ render_default c
              @ '' '' @ (if column_auto_increment c then ''AUTO_INCREMENT'' else [])))))"

subsection \<open>PostgreSQL\<close>

definition postgres_quote :: "string \<Rightarrow> string" where
  "postgres_quote name = [CHR 0x22] @ name @ [CHR 0x22]"

definition postgres_render_column_type :: "column_type \<Rightarrow> string option" where
  "postgres_render_column_type t =
     (case type_family t of
        TBoolean \<Rightarrow> Some ''boolean''
      | TDateTime \<Rightarrow> Some ''timestamp(3)''
      | TFloat \<Rightarrow> Some ''Decimal(65,30)''
      | TInt \<Rightarrow> Some ''integer''
      | TString \<Rightarrow> Some ''text''
      | _ \<Rightarrow> None)"

definition postgres_render_references :: "string \<Rightarrow> foreign_key option \<Rightarrow> string option" where
  "postgres_render_references schema_name fk =
     (case fk of
        Some fk \<Rightarrow>
          map_option (\<lambda>c. ''REFERENCES '' @ postgres_quote schema_name @ ''.''
              @ postgres_quote (fk_referenced_table fk)
              @ ''('' @ postgres_quote c @ '') '' @ render_on_delete (fk_on_delete_action fk))
            (first_elem (fk_referenced_columns fk))
      | None \<Rightarrow> Some [])"

definition postgres_render_column :: "string \<Rightarrow> sql_table \<Rightarrow> column \<Rightarrow> bool \<Rightarrow> string option" where
  "postgres_render_column schema_name t c _ =
     (let name = postgres_quote (column_name c)
      in Option.bind (postgres_render_column_type (column_tpe c)) (\<lambda>tpe_str.
         Option.bind (postgres_render_references schema_name (foreign_key_for_column t (column_name c)))
           (\<lambda>references_str.
         Some (if column_auto_increment c then name @ '' SERIAL''
               else name @ '' '' @ tpe_str @ '' '' @ render_nullability t c @ '' '' @ render_default c
                    @ '' '' @ references_str))))"

subsection \<open>SQLite\<close>

definition sqlite_quote :: "string \<Rightarrow> string" where
  "sqlite_quote name = [CHR 0x22] @ name @ [CHR 0x22]"

definition sqlite_render_column_type :: "column_type \<Rightarrow> string option" where
  "sqlite_render_column_type t =
     (case type_family t of
        TBoolean \<Rightarrow> Some ''BOOLEAN''
      | TDateTime \<Rightarrow> Some ''DATE''
      | TFloat \<Rightarrow> Some ''REAL''
      | TInt \<Rightarrow> Some ''INTEGER''
      | TString \<Rightarrow> Some ''TEXT''
      | _ \<Rightarrow> None)"

definition sqlite_render_references :: "string \<Rightarrow> foreign_key option \<Rightarrow> string option" where
  "sqlite_render_references _ fk =
     (case fk of
        Some fk \<Rightarrow>
          map_option (\<lambda>c. ''REFERENCES '' @ sqlite_quote (fk_referenced_table fk) @ ''('' @ c @ '') ''
              @ render_on_delete (fk_on_delete_action fk))
            (first_elem (fk_referenced_columns fk))
      | None \<Rightarrow> Some [])"

definition sqlite_render_column :: "string \<Rightarrow> sql_table \<Rightarrow> column \<Rightarrow> bool \<Rightarrow> string option" where
  "sqlite_render_column schema_name t c _ =
     Option.bind (sqlite_render_column_type (column_tpe c)) (\<lambda>tpe_str.
     Option.bind (sqlite_render_references schema_name (foreign_key_for_column t (column_name c)))
       (\<lambda>references_str.
     Some (sqlite_quote (column_name c) @ '' '' @ tpe_str @ '' '' @ render_nullability t c @ '' ''
           @ render_default c @ '' ''
           @ (if column_auto_increment c then ''PRIMARY KEY AUTOINCREMENT'' else []) @ '' '' @ references_str)))"

subsection \<open>The renderer of a family\<close>

text \<open>\<open>dyn SqlRenderer::for_family\<close>: the method tables, one per database.\<close>

record sql_renderer =
  renderer_quote :: "string \<Rightarrow> string"
  renderer_render_column :: "string \<Rightarrow> sql_table \<Rightarrow> column \<Rightarrow> bool \<Rightarrow> string option"
  renderer_render_column_type :: "column_type \<Rightarrow> string option"
  renderer_render_references :: "string \<Rightarrow> foreign_key option \<Rightarrow> string option"

fun for_family :: "sql_family \<Rightarrow> sql_renderer" where
  "for_family Postgres =
     \<lparr>renderer_quote = postgres_quote, renderer_render_column = postgres_render_column,
      renderer_render_column_type = postgres_render_column_type,
      renderer_render_references = postgres_render_references\<rparr>"
| "for_family Mysql =
     \<lparr>renderer_quote = mysql_quote, renderer_render_column = mysql_render_column,
      renderer_render_column_type = mysql_render_column_type,
      renderer_render_references = mysql_render_references\<rparr>"
| "for_family Sqlite =
     \<lparr>renderer_quote = sqlite_quote, renderer_render_column = sqlite_render_column,
      renderer_render_column_type = sqlite_render_column_type,
      renderer_render_references = sqlite_render_references\<rparr>"

definition quote_with_schema :: "sql_renderer \<Rightarrow> string \<Rightarrow> string \<Rightarrow> string" where
  "quote_with_schema r schema name = renderer_quote r schema @ ''.'' @ renderer_quote r name"

subsection \<open>Steps\<close>

fun create_table_suffix :: "sql_family \<Rightarrow> string" where
  "create_table_suffix Sqlite = []"
| "create_table_suffix Postgres = []"
| "create_table_suffix Mysql = [CHR 0x0A] @ ''DEFAULT CHARACTER SET utf8mb4 COLLATE utf8mb4_unicode_ci''"

text \<open>\<open>str::contains\<close>.\<close>

fun contains_str :: "string \<Rightarrow> string \<Rightarrow> bool" where
  "contains_str [] pat = (pat = [])"
| "contains_str (c # cs) pat = (take (length pat) (c # cs) = pat \<or> contains_str cs pat)"

definition render_create_table :: "sql_table \<Rightarrow> sql_family \<Rightarrow> string \<Rightarrow> string option" where
  "render_create_table t sql_family schema_name =
     (let r = for_family sql_family
      in map_option (\<lambda>cols.
           let lines = map (\<lambda>col_sql. ''  '' @ col_sql) cols;
               primary_key_was_already_set_in_column_line = contains_str (join '','' lines) ''PRIMARY KEY'';
               lines' =
                 (if primary_key_columns t \<noteq> [] \<and> \<not> primary_key_was_already_set_in_column_line
                  then lines @ [''  PRIMARY KEY ('' @ join '','' (map (renderer_quote r) (primary_key_columns t)) @ '')'']
                  else lines)
           in ''CREATE TABLE '' @ quote_with_schema r schema_name (table_name t) @ '' ('' @ [CHR 0x0A]
              @ join ('','' @ [CHR 0x0A]) lines' @ [CHR 0x0A] @ '')'' @ create_table_suffix sql_family @ '';'')
         (map_opt (\<lambda>c. renderer_render_column r schema_name t c False) (table_columns t)))"

fun render_table_change :: "sql_family \<Rightarrow> string \<Rightarrow> sql_table \<Rightarrow> table_change \<Rightarrow> string list option" where
  "render_table_change sql_family schema_name t (AddColumn a) =
     map_option (\<lambda>col_sql. [''ADD COLUMN '' @ col_sql])
       (renderer_render_column (for_family sql_family) schema_name t (add_col a) True)"
| "render_table_change sql_family schema_name t (DropColumn d) =
     Some [''DROP COLUMN '' @ renderer_quote (for_family sql_family) (dc_name d)]"
| "render_table_change sql_family schema_name t (AlterColumn a) =
     map_option (\<lambda>col_sql. [''DROP COLUMN '' @ renderer_quote (for_family sql_family) (alter_name a),
                        ''ADD COLUMN '' @ col_sql])
       (renderer_render_column (for_family sql_family) schema_name t (alter_col a) True)"
| "render_table_change sql_family schema_name t (DropForeignKey d) =
     Some (if sql_family = Mysql
           then [''DROP FOREIGN KEY '' @ renderer_quote (for_family sql_family) (dfk_constraint_name d)] else [])"

definition render_alter_table :: "alter_table_step \<Rightarrow> sql_family \<Rightarrow> string \<Rightarrow> string option" where
  "render_alter_table a sql_family schema_name =
     map_option (\<lambda>lines.
         ''ALTER TABLE '' @ quote_with_schema (for_family sql_family) schema_name (table_name (at_table a))
         @ '' '' @ join ('','' @ [CHR 0x0A]) lines @ '';'')
       (concat_map_opt (render_table_change sql_family schema_name (at_table a)) (at_changes a))"

definition render_create_index :: "create_index_step \<Rightarrow> sql_family \<Rightarrow> string \<Rightarrow> string" where
  "render_create_index ci sql_family schema_name =
     (let r = for_family sql_family; i = ci_index ci;
          index_type = (case index_tpe i of Unique \<Rightarrow> ''UNIQUE'' | Normal \<Rightarrow> []);
          name = (if sql_family = Sqlite then quote_with_schema r schema_name (index_name i)
                  else renderer_quote r (index_name i));
          table_reference = (if sql_family = Sqlite then renderer_quote r (ci_table ci)
                             else quote_with_schema r schema_name (ci_table ci))
      in ''CREATE '' @ index_type @ '' INDEX '' @ name @ '' ON '' @ table_reference
         @ ''('' @ join '','' (map (renderer_quote r) (index_columns i)) @ '')'')"

definition render_drop_index :: "drop_index_step \<Rightarrow> sql_family \<Rightarrow> string \<Rightarrow> string" where
  "render_drop_index di sql_family schema_name =
     (let r = for_family sql_family
      in case sql_family of
           Mysql \<Rightarrow> ''DROP INDEX '' @ renderer_quote r (di_name di) @ '' ON ''
                    @ quote_with_schema r schema_name (di_table di)
         | _ \<Rightarrow> ''DROP INDEX '' @ quote_with_schema r schema_name (di_name di))"

definition render_alter_index :: "alter_index_step \<Rightarrow> sql_family \<Rightarrow> string \<Rightarrow> string option" where
  "render_alter_index ai sql_family schema_name =
     (let r = for_family sql_family
      in case sql_family of
           Mysql \<Rightarrow> Some (''ALTER TABLE '' @ quote_with_schema r schema_name (ai_table ai) @ '' RENAME INDEX ''
                      @ renderer_quote r (ai_index_name ai) @ '' TO '' @ renderer_quote r (ai_index_new_name ai))
         | Postgres \<Rightarrow> Some (''ALTER INDEX '' @ quote_with_schema r schema_name (ai_index_name ai) @ '' RENAME TO ''
                      @ renderer_quote r (ai_index_new_name ai))
         | Sqlite \<Rightarrow> None)"

fun render_raw_sql :: "sql_migration_step \<Rightarrow> sql_family \<Rightarrow> string \<Rightarrow> string option" where
  "render_raw_sql (CreateTable s) sql_family schema_name = render_create_table (ct_table s) sql_family schema_name"
| "render_raw_sql (DropTable d) sql_family schema_name =
     Some (''DROP TABLE '' @ quote_with_schema (for_family sql_family) schema_name (dt_name d) @ '';'')"
| "render_raw_sql (DropTables d) sql_family schema_name =
     Some (''DROP TABLE ''
       @ join '','' (map (quote_with_schema (for_family sql_family) schema_name) (dts_names d)) @ '';'')"
| "render_raw_sql (RenameTable name new_name) sql_family schema_name =
     (let r = for_family sql_family
      in Some (''ALTER TABLE '' @ quote_with_schema r schema_name name @ '' RENAME TO ''
               @ (if sql_family = Sqlite then renderer_quote r new_name
                  else quote_with_schema r schema_name new_name) @ '';''))"
| "render_raw_sql (AlterTable a) sql_family schema_name = render_alter_table a sql_family schema_name"
| "render_raw_sql (CreateIndex c) sql_family schema_name = Some (render_create_index c sql_family schema_name)"
| "render_raw_sql (DropIndex d) sql_family schema_name = Some (render_drop_index d sql_family schema_name)"
| "render_raw_sql (AlterIndex a) sql_family schema_name = render_alter_index a sql_family schema_name"
| "render_raw_sql (RawSql raw) sql_family schema_name = Some raw"

definition render_steps_pretty ::
    "sql_migration \<Rightarrow> sql_family \<Rightarrow> string \<Rightarrow> pretty_sql_migration_step list option" where
  "render_steps_pretty m sql_family schema_name =
     map_opt (\<lambda>step. map_option (\<lambda>raw. \<lparr>pretty_step = step, pretty_raw = raw\<rparr>)
                        (render_raw_sql step sql_family schema_name))
       (mig_corrected_steps m)"

end
