(* ===== verification/Sql_Rendered.thy ===== *)
theory Sql_Rendered
  imports Sql_Corrected Sql_Renderer
begin

section \<open>Every inferred step can be rendered\<close>

text \<open>
  The renderers panic on column types they do not know, on foreign keys without referenced columns
  and on the renaming of an index on SQLite. A schema with the types a datamodel can express leads
  to none of these: the types occur nowhere else than in the tables of the expected schema, and the
  SQLite correction replaces every renaming of an index.
\<close>

definition renderable_type :: "column_type \<Rightarrow> bool" where
  "renderable_type t \<longleftrightarrow> type_family t \<in> {TInt, TFloat, TBoolean, TString, TDateTime}"

definition renderable_table :: "sql_table \<Rightarrow> bool" where
  "renderable_table t \<longleftrightarrow>
     (\<forall>c\<in>set (table_columns t). renderable_type (column_tpe c))
     \<and> (\<forall>fk\<in>set (table_foreign_keys t). fk_referenced_columns fk \<noteq> [])"

definition renderable_schema :: "sql_schema \<Rightarrow> bool" where
  "renderable_schema s \<longleftrightarrow> (\<forall>t\<in>set (sql_tables s). renderable_table t)"

fun renderable_change :: "table_change \<Rightarrow> bool" where
  "renderable_change (AddColumn a) = renderable_type (column_tpe (add_col a))"
| "renderable_change (AlterColumn a) = renderable_type (column_tpe (alter_col a))"
| "renderable_change _ = True"

fun renderable_step :: "sql_family \<Rightarrow> sql_migration_step \<Rightarrow> bool" where
  "renderable_step fam (CreateTable s) = renderable_table (ct_table s)"
| "renderable_step fam (AlterTable a) =
     (renderable_table (at_table a) \<and> (\<forall>x\<in>set (at_changes a). renderable_change x))"
| "renderable_step fam (AlterIndex _) = (fam \<noteq> Sqlite)"
| "renderable_step fam _ = True"

subsection \<open>The renderers on such steps\<close>

lemma first_elem_None [simp]: "first_elem xs = None \<longleftrightarrow> xs = []"
  by (cases xs) (simp_all add: first_elem_def)

lemma map_opt_total: "(\<And>x. x \<in> set xs \<Longrightarrow> f x \<noteq> None) \<Longrightarrow> map_opt f xs \<noteq> None"
proof (induction xs)
  case (Cons x xs)
  then obtain y where "f x = Some y" by fastforce
  with Cons show ?case by auto
qed simp

lemma render_column_total:
  assumes "renderable_table t" "renderable_type (column_tpe c)"
  shows "renderer_render_column (for_family fam) schema t c b \<noteq> None"
proof -
  have refs: "fk_referenced_columns fk \<noteq> []" if "foreign_key_for_column t (column_name c) = Some fk" for fk
    using foreign_key_for_column_Some [OF that] assms(1) by (auto simp: renderable_table_def)
  have "mysql_render_references schema (foreign_key_for_column t (column_name c)) \<noteq> None"
    "postgres_render_references schema (foreign_key_for_column t (column_name c)) \<noteq> None"
    "sqlite_render_references schema (foreign_key_for_column t (column_name c)) \<noteq> None"
    using refs by (auto simp: mysql_render_references_def postgres_render_references_def
        sqlite_render_references_def simp del: not_None_eq split: option.split)
  moreover have "mysql_render_column_type (column_tpe c) \<noteq> None"
    "postgres_render_column_type (column_tpe c) \<noteq> None" "sqlite_render_column_type (column_tpe c) \<noteq> None"
    using assms(2) by (auto simp: renderable_type_def mysql_render_column_type_def
        postgres_render_column_type_def sqlite_render_column_type_def)
  ultimately show ?thesis
    by (cases fam) (auto simp: mysql_render_column_def postgres_render_column_def sqlite_render_column_def Let_def)
qed

lemma render_table_change_total:
  assumes "renderable_table t" "renderable_change x"
  shows "render_table_change fam schema t x \<noteq> None"
  using assms render_column_total [OF assms(1)] by (cases x) (simp_all del: not_None_eq)

lemma render_raw_sql_total:
  assumes "renderable_step fam s"
  shows "render_raw_sql s fam schema \<noteq> None"
proof (cases s)
  case (CreateTable ct)
  have "map_opt (\<lambda>c. renderer_render_column (for_family fam) schema (ct_table ct) c False) (table_columns (ct_table ct)) \<noteq> None"
    using CreateTable assms
    by (intro map_opt_total render_column_total) (simp_all add: renderable_table_def)
  with CreateTable show ?thesis by (simp add: render_create_table_def Let_def del: not_None_eq)
next
  case (AlterTable a)
  then have "map_opt (render_table_change fam schema (at_table a)) (at_changes a) \<noteq> None"
    using assms by (intro map_opt_total render_table_change_total) simp_all
  with AlterTable show ?thesis by (simp add: render_alter_table_def concat_map_opt_def del: not_None_eq)
next
  case (AlterIndex a)
  with assms show ?thesis by (cases fam) (simp_all add: render_alter_index_def)
qed (simp_all add: Let_def)

subsection \<open>The inferred steps are such steps\<close>

lemma renderable_table_changes:
  "renderable_table n \<Longrightarrow> x \<in> set (table_changes p n) \<Longrightarrow> renderable_change x"
  by (auto simp: table_changes_def drop_foreign_keys_def drop_columns_def add_columns_def alter_columns_eq
      altered_columns_def renderable_table_def)

lemma renderable_alter_table:
  assumes "wf_sql_schema p" "renderable_schema n" "a \<in> set (alter_tables p n)"
  shows "renderable_step fam (AlterTable a)"
proof -
  obtain pt where "get_table n (table_name (at_table a)) = Some (at_table a)"
    "at_changes a = table_changes pt (at_table a)"
    using alter_tables_Some [OF assms(1,3)] .
  with get_table_Some [of n "table_name (at_table a)" "at_table a"] assms(2) show ?thesis
    by (auto simp: renderable_schema_def dest: renderable_table_changes)
qed

lemma renderable_delay_table:
  assumes "renderable_table t"
  shows "renderable_table (delay_table names t)"
    and "renderable_step fam (AlterTable (extra_alter_table names \<lparr>ct_table = t\<rparr>))"
  using assms by (auto simp: delay_create_table_def extra_alter_table_def delayed_columns_def renderable_table_def Let_def)

lemma renderable_delayed_steps:
  assumes "wf_sql_schema p" "renderable_schema n" "fam \<noteq> Sqlite" "s \<in> set (delayed_steps names (sql_diff p n))"
  shows "renderable_step fam s"
proof -
  have "renderable_table t" if "t \<in> set (created_tables p n)" for t
    using that assms(2) by (auto simp: created_tables_def renderable_schema_def)
  then show ?thesis
    using assms renderable_alter_table [OF assms(1,2), where fam = fam]
      renderable_delay_table(1) [where names = names] renderable_delay_table(2) [where names = names and fam = fam]
    unfolding delayed_steps_groups by (auto simp: wrap_as_step_def simp del: renderable_step.simps(2))
qed

lemma renderable_rebuild:
  assumes "renderable_schema n" "get_table n tn = Some nt" "s \<in> set (rebuild p n schema tn)"
  shows "renderable_step fam s"
  using assms get_table_Some [OF assms(2)]
  by (auto simp: rebuild_def fix_table_def Let_def renderable_schema_def renderable_table_def)

lemma renderable_sqlite_steps:
  assumes p: "wf_sql_schema p" and n: "wf_sql_schema n" and r: "renderable_schema n"
    and f: "fix_stupid_sqlite (sql_diff p n) p n schema = Inr steps" and s: "s \<in> set steps"
  shows "renderable_step Sqlite s"
proof -
  obtain cis where steps: "steps = wrap_as_step (drop_indexes p n (alter_indexes p n)) DropIndex
       @ wrap_as_step (drop_tables p n) DropTable @ wrap_as_step (create_tables p n) CreateTable
       @ concat (map (alter_or_rebuild p n schema) (alter_tables p n)) @ map CreateIndex cis
       @ concat (map (\<lambda>a. rebuild p n schema (ai_table a)) (alter_indexes p n))"
    using fix_stupid_sqlite_eq [OF p n, of schema] f by auto
  have "renderable_step Sqlite s" if "a \<in> set (alter_tables p n)" "s \<in> set (alter_or_rebuild p n schema a)" for a
  proof -
    have "get_table n (table_name (at_table a)) = Some (at_table a)"
      using alter_tables_Some [OF p that(1)] by blast
    with that renderable_alter_table [OF p r that(1)] renderable_rebuild [OF r] show ?thesis
      by (auto simp: alter_or_rebuild_def simp del: renderable_step.simps split: if_splits)
  qed
  moreover have "renderable_step Sqlite s" if "a \<in> set (alter_indexes p n)" "s \<in> set (rebuild p n schema (ai_table a))" for a
    using that alter_index_tables [OF n, of a p] get_table_exists [of "ai_table a" n] renderable_rebuild [OF r] by blast
  moreover have "renderable_table t" if "t \<in> set (created_tables p n)" for t
    using that r by (auto simp: created_tables_def renderable_schema_def)
  ultimately show ?thesis
    using s unfolding steps by (auto simp: wrap_as_step_def create_tables_eq)
qed

lemma renderable_corrected_steps:
  assumes p: "wf_sql_schema p" and n: "wf_sql_schema n" and r: "renderable_schema n"
    and i: "infer_database_migration_steps_and_fix p n schema fam = Inr (orig, steps)" and s: "s \<in> set steps"
  shows "renderable_step fam s"
proof (cases "fam = Sqlite")
  case True
  with i renderable_sqlite_steps [OF p n r _ s, of schema] show ?thesis
    by (auto simp: infer_database_migration_steps_and_fix_def Let_def and_then_Inr_iff)
next
  case False
  with i have "Inr steps = fix_id_column_type_change p n (delay_foreign_key_creation (sql_diff p n))"
    by (auto simp: infer_database_migration_steps_and_fix_def Let_def and_then_Inr_iff)
  with fix_id_column_type_change_cases [OF p, of n]
  consider "steps = delay_foreign_key_creation (sql_diff p n)" | "steps = radical_steps p n" by auto
  then show ?thesis
    using s renderable_delayed_steps [OF p r False] renderable_delayed_steps [OF wf_sql_schema_empty r False]
    by cases (auto simp: radical_steps_def delay_foreign_key_creation_eq)
qed

lemma render_steps_pretty_total:
  assumes "\<And>s. s \<in> set (mig_corrected_steps m) \<Longrightarrow> renderable_step fam s"
  shows "\<exists>ps. render_steps_pretty m fam schema = Some ps \<and> map pretty_step ps = mig_corrected_steps m"
proof -
  have "\<exists>ps. map_opt (\<lambda>step. map_option (\<lambda>raw. \<lparr>pretty_step = step, pretty_raw = raw\<rparr>) (render_raw_sql step fam schema)) steps
      = Some ps \<and> map pretty_step ps = steps" if "\<And>s. s \<in> set steps \<Longrightarrow> renderable_step fam s" for steps
    using that
  proof (induction steps)
    case (Cons s steps)
    obtain raw where "render_raw_sql s fam schema = Some raw"
      using render_raw_sql_total [of fam s schema] Cons.prems by auto
    with Cons show ?case by auto
  qed simp
  with assms show ?thesis by (simp add: render_steps_pretty_def)
qed

text \<open>C16: If the columns of the expected schema have the types a datamodel can express and its foreign
  keys name a referenced column, then every step of an inferred migration is rendered to SQL on every
  database, whatever the current schema contains: the panics of the renderers are not reached.\<close>

theorem sql_steps_render:
  assumes "wf_sql_schema current" "wf_sql_schema expected" "renderable_schema expected"
    and "sql_infer current expected schema fam = Inr m"
  shows "\<exists>ps. render_steps_pretty m fam schema = Some ps \<and> map pretty_step ps = mig_corrected_steps m"
proof -
  obtain orig where "infer_database_migration_steps_and_fix current expected schema fam = Inr (orig, mig_corrected_steps m)"
    using assms(4) by (auto simp: sql_infer_def and_then_Inr_iff)
  from render_steps_pretty_total [OF renderable_corrected_steps [OF assms(1-3) this]] show ?thesis .
qed

theorem sql_steps_render_witness:
  "\<exists>m ps. sql_infer ex_current ex_expected ''main'' Sqlite = Inr m \<and> render_steps_pretty m Sqlite ''main'' = Some ps
    \<and> map pretty_step ps = mig_corrected_steps m"
proof -
  obtain m where m: "sql_infer ex_current ex_expected ''main'' Sqlite = Inr m"
    using sql_infer_steps [OF ex_schemas] by blast
  have "renderable_schema ex_expected" by code_simp
  from sql_steps_render [OF ex_schemas(1,2) this m] m show ?thesis by blast
qed

end
