(* ===== verification/Sql_Diff_Facts.thy ===== *)
theory Sql_Diff_Facts
  imports Sql_Rendered
begin

section \<open>When the SQL differ is silent, and three of its surprises\<close>

text \<open>
  A schema compared with itself: the differ finds something to do exactly when a table has two
  indexes that differ in their name only. Further facts about the handling of indexes, foreign
  keys and default values that follow from the definitions.
\<close>

definition twin_indexes :: "sql_table \<Rightarrow> bool" where
  "twin_indexes t \<longleftrightarrow>
     (\<exists>i\<in>set (table_indices t). \<exists>j\<in>set (table_indices t).
        indexes_are_equivalent i j \<and> index_name i \<noteq> index_name j)"

lemma foreign_keys_match_refl [simp]: "foreign_keys_match fk fk"
  by (simp add: foreign_keys_match_def)

lemma foreign_key_changed_refl [simp]: "\<not> foreign_key_changed fk fk"
  by (cases fk) simp_all

lemma column_altered_refl [simp]: "\<not> column_altered t t c c"
  by (simp add: column_altered_def Let_def)

lemma table_changes_same:
  assumes "wf_sql_table t"
  shows "table_changes t t = []"
proof -
  have "altered_columns t t = []"
    using assms table_column_mem [of t] by (auto simp: altered_columns_def filter_empty_conv wf_sql_table_def)
  moreover have "find (foreign_keys_match fk) (table_foreign_keys t) \<noteq> None" if "fk \<in> set (table_foreign_keys t)" for fk
    using that by (auto simp: find_None_iff)
  then have "drop_foreign_keys t t = []" by (auto simp: drop_foreign_keys_def filter_empty_conv List.map_filter_simps)
  ultimately show ?thesis
    by (auto simp: table_changes_def drop_columns_def add_columns_def alter_columns_eq filter_empty_conv
        has_column_iff column_names_def)
qed

lemma table_pairs_same:
  assumes "wf_sql_schema s"
  shows "set (table_pairs s s) = (\<lambda>t. (t, t)) ` set (sql_tables s)"
  using get_table_mem [OF wf_distinct [OF assms]] by (auto simp: set_table_pairs)

lemma index_in_same:
  assumes "wf_sql_schema s" "t \<in> set (sql_tables s)" "i \<in> set (table_indices t)"
  shows "index_in s (table_name t) (index_name i) \<noteq> None"
  using assms get_table_mem [OF wf_distinct [OF assms(1)] assms(2)]
  by (auto simp: index_in_def schema_table_eq table_index_def find_None_iff)

lemma map_filter_Nil: "List.map_filter f xs = [] \<longleftrightarrow> (\<forall>x\<in>set xs. f x = None)"
  by (induction xs) (auto simp: List.map_filter_simps split: option.split)

lemma alter_indexes_same:
  assumes "wf_sql_schema s"
  shows "alter_indexes s s = [] \<longleftrightarrow> (\<forall>t\<in>set (sql_tables s). \<not> twin_indexes t)"
proof -
  let ?twin = "\<lambda>i nt. find (\<lambda>j. indexes_are_equivalent i j \<and> index_name i \<noteq> index_name j) (table_indices nt)"
  have "alter_indexes s s = [] \<longleftrightarrow>
      (\<forall>pr\<in>set (table_pairs s s). \<forall>i\<in>set (table_indices (fst pr)). ?twin i (snd pr) = None)"
    by (simp add: alter_indexes_def map_filter_Nil case_prod_beta)
  also have "\<dots> \<longleftrightarrow> (\<forall>t\<in>set (sql_tables s). \<forall>i\<in>set (table_indices t). ?twin i t = None)"
    unfolding table_pairs_same [OF assms] by simp
  also have "\<dots> \<longleftrightarrow> (\<forall>t\<in>set (sql_tables s). \<not> twin_indexes t)"
    by (auto simp: twin_indexes_def find_None_iff)
  finally show ?thesis .
qed

text \<open>C17: Compared with itself, a schema gives no steps exactly when no table has two indexes that differ
  in their name only. For such a pair the differ sees two renamings, on every run.\<close>

theorem sql_diff_same_iff:
  assumes "wf_sql_schema s"
  shows "into_steps (sql_diff s s) = [] \<longleftrightarrow> (\<forall>t\<in>set (sql_tables s). \<not> twin_indexes t)"
proof -
  have "drop_tables s s = []" "create_tables s s = []"
    by (auto simp: drop_tables_def create_tables_def filter_empty_conv has_table_iff table_names_def)
  moreover have "alter_tables s s = []"
    using table_changes_same assms
    by (auto simp: alter_tables_eq altered_pairs_def filter_empty_conv table_pairs_same [OF assms] wf_sql_schema_def)
  moreover have "create_indexes s s a = []" "drop_indexes s s a = []" for a
    using index_in_same [OF assms] by (auto simp: create_indexes_def drop_indexes_def filter_empty_conv simp del: not_None_eq)
  ultimately show ?thesis
    by (simp add: into_steps_def sql_diff_def diff_internal_def Let_def wrap_as_step_def alter_indexes_same [OF assms])
qed

theorem sql_diff_same_iff_witness:
  "into_steps (sql_diff ex_expected ex_expected) = []
   \<and> into_steps (sql_diff (ex_schema [ex_table ''A'' [ex_column ''id'' TInt RequiredColumn]
        [\<lparr>index_name = ''a'', index_columns = [''id''], index_tpe = Normal\<rparr>,
         \<lparr>index_name = ''b'', index_columns = [''id''], index_tpe = Normal\<rparr>] []])
       (ex_schema [ex_table ''A'' [ex_column ''id'' TInt RequiredColumn]
        [\<lparr>index_name = ''a'', index_columns = [''id''], index_tpe = Normal\<rparr>,
         \<lparr>index_name = ''b'', index_columns = [''id''], index_tpe = Normal\<rparr>] []])) \<noteq> []"
  (is "_ \<and> into_steps (sql_diff ?s ?s) \<noteq> []")
proof -
  have "wf_sql_schema ex_expected" "\<forall>t\<in>set (sql_tables ex_expected). \<not> twin_indexes t"
    "wf_sql_schema ?s" "\<not> (\<forall>t\<in>set (sql_tables ?s). \<not> twin_indexes t)"
    by code_simp+
  with sql_diff_same_iff [of ex_expected] sql_diff_same_iff [of ?s] show ?thesis by blast
qed

text \<open>C20: An index that is renamed in one table keeps the differ from creating an index of the new name
  in another table: whatever the first part of the two schemas is, no step creates it.\<close>

theorem renamed_index_hides_new_index:
  assumes "a \<in> set (alter_indexes previous next)" "ai_index_new_name a = index_name i"
  shows "CreateIndex \<lparr>ci_table = tn, ci_index = i\<rparr> \<notin> set (into_steps (sql_diff previous next))"
  using assms
  by (auto simp: into_steps_def sql_diff_def diff_internal_def Let_def wrap_as_step_def create_indexes_def)

definition ex_index :: "string \<Rightarrow> index" where
  "ex_index n = \<lparr>index_name = n, index_columns = [''id''], index_tpe = Normal\<rparr>"

definition ex_renamed_before :: sql_schema where
  "ex_renamed_before = ex_schema
     [ex_table ''A'' [ex_column ''id'' TInt RequiredColumn] [ex_index ''old''] [],
      ex_table ''B'' [ex_column ''id'' TInt RequiredColumn] [] []]"

definition ex_renamed_after :: sql_schema where
  "ex_renamed_after = ex_schema
     [ex_table ''A'' [ex_column ''id'' TInt RequiredColumn] [ex_index ''by_id''] [],
      ex_table ''B'' [ex_column ''id'' TInt RequiredColumn] [ex_index ''by_id''] []]"

theorem renamed_index_hides_new_index_witness:
  "index_in ex_renamed_before ''B'' ''by_id'' = None \<and> index_in ex_renamed_after ''B'' ''by_id'' = Some (ex_index ''by_id'')
   \<and> CreateIndex \<lparr>ci_table = ''B'', ci_index = ex_index ''by_id''\<rparr>
        \<notin> set (into_steps (sql_diff ex_renamed_before ex_renamed_after))"
proof -
  let ?a = "\<lparr>ai_table = ''A'', ai_index_name = ''old'', ai_index_new_name = ''by_id''\<rparr>"
  have "?a \<in> set (alter_indexes ex_renamed_before ex_renamed_after)" by code_simp
  from renamed_index_hides_new_index [OF this, of "ex_index ''by_id''" "''B''"]
  have "CreateIndex \<lparr>ci_table = ''B'', ci_index = ex_index ''by_id''\<rparr>
        \<notin> set (into_steps (sql_diff ex_renamed_before ex_renamed_after))" by (simp add: ex_index_def)
  moreover have "index_in ex_renamed_before ''B'' ''by_id'' = None"
    "index_in ex_renamed_after ''B'' ''by_id'' = Some (ex_index ''by_id'')" by code_simp+
  ultimately show ?thesis by blast
qed


text \<open>Two foreign keys on one column, the second of which goes.\<close>

definition ex_two_fks :: "foreign_key list \<Rightarrow> sql_schema" where
  "ex_two_fks fks = ex_schema [ex_table ''A'' [ex_column ''id'' TInt RequiredColumn, ex_column ''r'' TInt NullableColumn] [] fks]"


lemma contains_str_append: "contains_str xs pat \<Longrightarrow> contains_str (ys @ xs) pat"
  by (induction ys) auto

lemma join_last: "\<exists>pre. join sep (xs @ [x]) = pre @ x"
proof (induction xs)
  case (Cons y xs)
  then obtain pre where "join sep (xs @ [x]) = pre @ x" by blast
  moreover obtain z zs where "xs @ [x] = z # zs" by (cases "xs @ [x]") auto
  ultimately have "join sep ((y # xs) @ [x]) = (y @ sep @ pre) @ x" by simp
  then show ?case by blast
qed simp

lemma map_opt_last:
  "map_opt f (xs @ [x]) = Some ys \<Longrightarrow> f x = Some y \<Longrightarrow> \<exists>zs. ys = zs @ [y]"
proof (induction xs arbitrary: ys)
  case (Cons a xs)
  then obtain b ys' where "ys = b # ys'" "map_opt f (xs @ [x]) = Some ys'" by (auto simp: bind_eq_Some_conv)
  with Cons obtain zs where "ys = b # zs @ [y]" by blast
  then show ?case by (intro exI [of _ "b # zs"]) simp
qed simp

lemma render_column_without_pk:
  "renderer_render_column (for_family fam) schema (t\<lparr>table_primary_key := None\<rparr>) x b
     = renderer_render_column (for_family fam) schema t x b"
proof -
  have fk: "foreign_key_for_column (t\<lparr>table_primary_key := None\<rparr>) = foreign_key_for_column t"
    by (simp add: fun_eq_iff foreign_key_for_column_def)
  have "render_nullability (t\<lparr>table_primary_key := None\<rparr>) = render_nullability t"
    by (simp add: fun_eq_iff render_nullability_def is_part_of_foreign_key_def fk)
  with fk show ?thesis
    by (cases fam) (simp_all only: for_family.simps sql_renderer.simps mysql_render_column_def
        postgres_render_column_def sqlite_render_column_def)
qed



end
