(* ===== verification/Sql_Destructive.thy ===== *)
theory Sql_Destructive
  imports Sql_Corrected
begin

section \<open>The check for destructive changes\<close>

text \<open>
  \<open>migration-connector/src/destructive_changes_checker.rs\<close> and
  \<open>sql-migration-connector/src/sql_destructive_changes_checker.rs\<close>: before a migration is applied
  the tables and columns it drops or alters are counted, and a warning is emitted for each that is
  not empty. The connection is a parameter: it answers a count with the rows of a result set, or
  with an error; \<open>as_i64\<close> reads a value of such a row.
\<close>

record migration_warning =
  warning_description :: string

record migration_error =
  error_tpe :: string
  error_description :: string
  error_field :: "string option"

record diagnostics =
  diag_errors :: "migration_error list"
  diag_warnings :: "migration_warning list"

definition diagnostics_new :: diagnostics where
  "diagnostics_new = \<lparr>diag_errors = [], diag_warnings = []\<rparr>"

definition add_warning :: "migration_warning option \<Rightarrow> diagnostics \<Rightarrow> diagnostics" where
  "add_warning w d = (case w of Some w \<Rightarrow> d\<lparr>diag_warnings := diag_warnings d @ [w]\<rparr> | None \<Rightarrow> d)"

definition has_warnings :: "diagnostics \<Rightarrow> bool" where
  "has_warnings d \<longleftrightarrow> diag_warnings d \<noteq> []"

definition empty_checker_check :: "'m \<Rightarrow> connector_error + diagnostics" where
  "empty_checker_check database_migration = Inr diagnostics_new"

subsection \<open>Counting\<close>

text \<open>\<open>SELECT COUNT(*)\<close>, and \<open>SELECT COUNT(c)\<close> of the values of a column that are not null.\<close>

datatype count_query =
    CountRows string string
  | CountValues string string string

record 'v database =
  db_query :: "count_query \<Rightarrow> quaint_error + 'v list list"
  db_as_i64 :: "'v \<Rightarrow> 64 word option"

definition show_i64 :: "64 word \<Rightarrow> string" where
  "show_i64 w = (if sint w < 0 then ''-'' @ show_nat (nat (- sint w)) else show_nat (nat (sint w)))"

definition first_i64 :: "'v database \<Rightarrow> 'v list \<Rightarrow> 64 word option" where
  "first_i64 db row = (case row of [] \<Rightarrow> None | v # _ \<Rightarrow> db_as_i64 db v)"

definition check_table_drop ::
    "'v database \<Rightarrow> string \<Rightarrow> string \<Rightarrow> diagnostics \<Rightarrow> sql_error + diagnostics" where
  "check_table_drop db schema_name tname d =
     and_then (map_err sql_error_from_quaint (db_query db (CountRows schema_name tname))) (\<lambda>result_set.
     and_then (ok_or (case result_set of [] \<Rightarrow> None | row # _ \<Rightarrow> Some row)
        (SqlGeneric ''No row was returned when checking for existing rows in dropped table.'')) (\<lambda>first_row.
     and_then (ok_or (first_i64 db first_row)
        (SqlGeneric ''No count was returned when checking for existing rows in dropped table.'')) (\<lambda>rows_count.
     Inr (if 0 < sint rows_count
          then add_warning (Some \<lparr>warning_description =
                 ''You are about to drop the table `'' @ tname @ ''`, which is not empty (''
                 @ show_i64 rows_count @ '' rows).''\<rparr>) d
          else d))))"

definition count_values_in_column :: "'v database \<Rightarrow> string \<Rightarrow> string \<Rightarrow> sql_table \<Rightarrow> sql_error + 64 word" where
  "count_values_in_column db schema_name cname t =
     and_then (map_err sql_error_from_quaint (db_query db (CountValues schema_name (table_name t) cname)))
       (\<lambda>result_set.
          ok_or (case result_set of [] \<Rightarrow> None | row # _ \<Rightarrow> first_i64 db row)
            (SqlGeneric ''Unexpected result set shape when checking dropped columns.''))"

definition check_column_drop ::
    "'v database \<Rightarrow> string \<Rightarrow> drop_column \<Rightarrow> sql_table \<Rightarrow> diagnostics \<Rightarrow> sql_error + diagnostics" where
  "check_column_drop db schema_name dc t d =
     and_then (count_values_in_column db schema_name (dc_name dc) t) (\<lambda>values_count.
     Inr (if 0 < sint values_count
          then add_warning (Some \<lparr>warning_description =
                 ''You are about to drop the column `'' @ dc_name dc @ ''` on the `'' @ table_name t
                 @ ''` table, which still contains '' @ show_i64 values_count @ '' non-null values.''\<rparr>) d
          else d))"

definition check_alter_column ::
    "'v database \<Rightarrow> string \<Rightarrow> alter_column \<Rightarrow> sql_table \<Rightarrow> diagnostics \<Rightarrow> sql_error + diagnostics" where
  "check_alter_column db schema_name ac t d =
     and_then (count_values_in_column db schema_name (alter_name ac) t) (\<lambda>values_count.
     Inr (if 0 < sint values_count
          then add_warning (Some \<lparr>warning_description =
                 ''You are about to alter the column `'' @ alter_name ac @ ''` on the `'' @ table_name t
                 @ ''` table, which still contains '' @ show_i64 values_count
                 @ '' non-null values. The data in that column will be lost.''\<rparr>) d
          else d))"

fun check_change ::
    "'v database \<Rightarrow> string \<Rightarrow> sql_table \<Rightarrow> table_change \<Rightarrow> diagnostics \<Rightarrow> sql_error + diagnostics" where
  "check_change db schema_name t (DropColumn dc) d = check_column_drop db schema_name dc t d"
| "check_change db schema_name t (AlterColumn ac) d = check_alter_column db schema_name ac t d"
| "check_change db schema_name t _ d = Inr d"

fun check_step ::
    "'v database \<Rightarrow> string \<Rightarrow> sql_schema \<Rightarrow> sql_migration_step \<Rightarrow> diagnostics \<Rightarrow> sql_error + diagnostics" where
  "check_step db schema_name before (AlterTable a) d =
     and_then (ok_or (get_table before (table_name (at_table a)))
        (SqlGeneric (''Internal Error: altering previously-unknown table '' @ table_name (at_table a))))
       (\<lambda>before_table. fold_result (check_change db schema_name before_table) (at_changes a) d)"
| "check_step db schema_name before (DropTable dt) d = check_table_drop db schema_name (dt_name dt) d"
| "check_step db schema_name before (DropTables dts) d =
     fold_result (check_table_drop db schema_name) (dts_names dts) d"
| "check_step db schema_name before _ d = Inr d"

definition destructive_check :: "'v database \<Rightarrow> string \<Rightarrow> sql_migration \<Rightarrow> connector_error + diagnostics" where
  "destructive_check db schema_name m =
     map_err connector_error_from_sql
       (fold_result (check_step db schema_name (mig_before m)) (mig_original_steps m) diagnostics_new)"

subsection \<open>What is warned about\<close>

text \<open>A connection that answers every count with one row that holds the number.\<close>

definition answers_counts :: "'v database \<Rightarrow> string \<Rightarrow> (string \<Rightarrow> nat) \<Rightarrow> (string \<Rightarrow> string \<Rightarrow> nat) \<Rightarrow> bool" where
  "answers_counts db schema_name rows vals \<longleftrightarrow>
     (\<forall>t. rows t < 2 ^ 63 \<and> (\<exists>v. db_query db (CountRows schema_name t) = Inr [[v]]
        \<and> db_as_i64 db v = Some (word_of_nat (rows t))))
     \<and> (\<forall>t c. vals t c < 2 ^ 63 \<and> (\<exists>v. db_query db (CountValues schema_name t c) = Inr [[v]]
        \<and> db_as_i64 db v = Some (word_of_nat (vals t c))))"

fun lossy_change :: "(string \<Rightarrow> string \<Rightarrow> nat) \<Rightarrow> string \<Rightarrow> table_change \<Rightarrow> bool" where
  "lossy_change vals t (DropColumn dc) = (vals t (dc_name dc) \<noteq> 0)"
| "lossy_change vals t (AlterColumn ac) = (vals t (alter_name ac) \<noteq> 0)"
| "lossy_change vals t _ = False"

fun lossy_step :: "(string \<Rightarrow> nat) \<Rightarrow> (string \<Rightarrow> string \<Rightarrow> nat) \<Rightarrow> sql_migration_step \<Rightarrow> bool" where
  "lossy_step rows vals (AlterTable a) = (\<exists>x\<in>set (at_changes a). lossy_change vals (table_name (at_table a)) x)"
| "lossy_step rows vals (DropTable dt) = (rows (dt_name dt) \<noteq> 0)"
| "lossy_step rows vals (DropTables dts) = (\<exists>n\<in>set (dts_names dts). rows n \<noteq> 0)"
| "lossy_step rows vals _ = False"

lemma sint_of_count: "n < 2 ^ 63 \<Longrightarrow> sint (word_of_nat n :: 64 word) = int n"
  by (simp add: signed_of_nat signed_take_bit_int_eq_self)

text \<open>The contract of one check: it succeeds, and there is a warning afterwards if there was one or it applies.\<close>

definition warns_if :: "(diagnostics \<Rightarrow> sql_error + diagnostics) \<Rightarrow> bool \<Rightarrow> bool" where
  "warns_if f b \<longleftrightarrow> (\<forall>d. \<exists>d'. f d = Inr d' \<and> diag_errors d' = diag_errors d \<and> (has_warnings d' \<longleftrightarrow> has_warnings d \<or> b))"

lemma warns_ifI: "(\<And>d. f d = Inr (if b then add_warning (Some w) d else d)) \<Longrightarrow> warns_if f b"
  by (auto simp: warns_if_def has_warnings_def add_warning_def)

lemma warns_if_fold:
  "(\<And>x. x \<in> set xs \<Longrightarrow> warns_if (f x) (b x)) \<Longrightarrow> warns_if (fold_result f xs) (\<exists>x\<in>set xs. b x)"
proof (induction xs)
  case Nil
  then show ?case by (simp add: warns_if_def)
next
  case (Cons x xs)
  then have "warns_if (f x) (b x)" "warns_if (fold_result f xs) (\<exists>x\<in>set xs. b x)" by simp_all
  then show ?case unfolding warns_if_def by (fastforce simp: and_then_Inr_iff)
qed

lemma check_table_drop_warns:
  assumes "answers_counts db schema rows vals"
  shows "warns_if (check_table_drop db schema t) (rows t \<noteq> 0)"
proof -
  obtain v where "db_query db (CountRows schema t) = Inr [[v]]" "db_as_i64 db v = Some (word_of_nat (rows t))"
    "rows t < 2 ^ 63" using assms unfolding answers_counts_def by blast
  then show ?thesis by (intro warns_ifI) (simp add: check_table_drop_def first_i64_def sint_of_count)
qed

lemma count_values_answer:
  assumes "answers_counts db schema rows vals"
  shows "\<exists>w. count_values_in_column db schema c t = Inr w \<and> (0 < sint w \<longleftrightarrow> vals (table_name t) c \<noteq> 0)"
proof -
  obtain v where "db_query db (CountValues schema (table_name t) c) = Inr [[v]]"
    "db_as_i64 db v = Some (word_of_nat (vals (table_name t) c))" "vals (table_name t) c < 2 ^ 63"
    using assms unfolding answers_counts_def by blast
  then show ?thesis by (simp add: count_values_in_column_def first_i64_def sint_of_count)
qed

lemma check_change_warns:
  assumes "answers_counts db schema rows vals"
  shows "warns_if (check_change db schema t x) (lossy_change vals (table_name t) x)"
proof (cases x)
  case (AlterColumn ac)
  obtain w where "count_values_in_column db schema (alter_name ac) t = Inr w"
    "0 < sint w \<longleftrightarrow> vals (table_name t) (alter_name ac) \<noteq> 0" using count_values_answer [OF assms] by blast
  with AlterColumn show ?thesis by (intro warns_ifI) (simp add: check_alter_column_def)
next
  case (DropColumn dc)
  obtain w where "count_values_in_column db schema (dc_name dc) t = Inr w"
    "0 < sint w \<longleftrightarrow> vals (table_name t) (dc_name dc) \<noteq> 0" using count_values_answer [OF assms] by blast
  with DropColumn show ?thesis by (intro warns_ifI) (simp add: check_column_drop_def)
qed (simp_all add: warns_if_def)

lemma check_step_warns:
  assumes "answers_counts db schema rows vals"
    and "\<And>a. s = AlterTable a \<Longrightarrow> get_table before (table_name (at_table a)) \<noteq> None"
  shows "warns_if (check_step db schema before s) (lossy_step rows vals s)"
proof (cases s)
  case (AlterTable a)
  then obtain t where t: "get_table before (table_name (at_table a)) = Some t" using assms(2) by blast
  then have "table_name t = table_name (at_table a)" by (auto dest: get_table_Some)
  with warns_if_fold [of "at_changes a" "check_change db schema t" "lossy_change vals (table_name t)",
      OF check_change_warns [OF assms(1)]] AlterTable t
  show ?thesis by (simp add: warns_if_def)
next
  case (DropTables dts)
  with warns_if_fold [of "dts_names dts" "check_table_drop db schema" "\<lambda>n. rows n \<noteq> 0",
      OF check_table_drop_warns [OF assms(1)]]
  show ?thesis by (simp add: warns_if_def)
next
  case (DropTable dt)
  with check_table_drop_warns [OF assms(1), of "dt_name dt"] show ?thesis by (simp add: warns_if_def)
qed (simp_all add: warns_if_def)

subsection \<open>Inferred migrations\<close>

lemma sql_infer_Inr:
  assumes "sql_infer p n schema fam = Inr m"
  shows "mig_before m = p" "mig_original_steps m = into_steps (sql_diff p n)"
    "infer_database_migration_steps_and_fix p n schema fam = Inr (into_steps (sql_diff p n), mig_corrected_steps m)"
  using assms by (auto simp: sql_infer_def infer_database_migration_steps_and_fix_def and_then_Inr_iff Let_def)

lemma original_step_table:
  assumes "wf_sql_schema p" "AlterTable a \<in> set (into_steps (sql_diff p n))"
  shows "get_table p (table_name (at_table a)) \<noteq> None"
proof -
  have "a \<in> set (alter_tables p n)"
    using assms(2) by (auto simp: into_steps_def sql_diff_def diff_internal_def Let_def wrap_as_step_def)
  then show ?thesis using alter_tables_Some [OF assms(1)] by blast
qed

lemma destructive_check_inferred:
  assumes "wf_sql_schema current" "sql_infer current expected schema fam = Inr m"
    and "answers_counts db schema rows vals"
  shows "\<exists>d. destructive_check db schema m = Inr d \<and> diag_errors d = []
    \<and> (has_warnings d \<longleftrightarrow> (\<exists>s\<in>set (mig_original_steps m). lossy_step rows vals s))"
proof -
  have "warns_if (check_step db schema current s) (lossy_step rows vals s)"
    if "s \<in> set (mig_original_steps m)" for s
    using original_step_table [OF assms(1)] that unfolding sql_infer_Inr(2) [OF assms(2)]
    by (intro check_step_warns [OF assms(3)]) blast
  from warns_if_fold [OF this] show ?thesis
    using sql_infer_Inr(1) [OF assms(2)]
    by (fastforce simp: warns_if_def destructive_check_def diagnostics_new_def has_warnings_def)
qed


text \<open>A connection that answers all counts.\<close>

definition ex_database :: "(string \<Rightarrow> nat) \<Rightarrow> (string \<Rightarrow> string \<Rightarrow> nat) \<Rightarrow> 64 word database" where
  "ex_database rows vals =
     \<lparr>db_query = (\<lambda>q. case q of CountRows _ t \<Rightarrow> Inr [[word_of_nat (rows t)]]
                            | CountValues _ t c \<Rightarrow> Inr [[word_of_nat (vals t c)]]),
      db_as_i64 = Some\<rparr>"

lemma ex_database_answers:
  "(\<And>t. rows t < 2 ^ 63) \<Longrightarrow> (\<And>t c. vals t c < 2 ^ 63) \<Longrightarrow> answers_counts (ex_database rows vals) schema rows vals"
  by (simp add: answers_counts_def ex_database_def)



definition ex_id_before :: sql_schema where
  "ex_id_before = ex_schema
     [ex_table ''A'' [ex_column ''id'' TInt RequiredColumn] [] [], ex_table ''B'' [ex_column ''id'' TInt RequiredColumn] [] []]"

definition ex_id_after :: sql_schema where
  "ex_id_after = ex_schema
     [ex_table ''A'' [ex_column ''id'' TString RequiredColumn] [] [], ex_table ''B'' [ex_column ''id'' TInt RequiredColumn] [] []]"


end
