(* ===== verification/Effects.thy ===== *)
theory Effects
  imports Prisma_Prelude
begin

section \<open>Code that changes a state, fails or panics\<close>

text \<open>
  A call that works on a state of type \<open>'s\<close> returns a value or an error with the state it leaves, and
  \<open>None\<close> if it panics. \<open>eff_bind\<close> is the sequence of two calls with \<open>?\<close> between them: an error ends it
  and leaves the changes made so far.
\<close>

type_synonym ('s, 'e, 'o) effect = "'s \<Rightarrow> (('e + 'o) \<times> 's) option"

definition eff_return :: "'o \<Rightarrow> ('s, 'e, 'o) effect" where
  "eff_return x db = Some (Inr x, db)"

definition eff_bind :: "('s, 'e, 'o) effect \<Rightarrow> ('o \<Rightarrow> ('s, 'e, 'p) effect) \<Rightarrow> ('s, 'e, 'p) effect" where
  "eff_bind c f db = Option.bind (c db) (\<lambda>(r, db'). case r of Inl e \<Rightarrow> Some (Inl e, db') | Inr x \<Rightarrow> f x db')"

text \<open>A value read from the state, a call that may panic, and calls whose errors are converted by \<open>?\<close>.\<close>

definition eff_read :: "('s \<Rightarrow> 'o option) \<Rightarrow> ('s, 'e, 'o) effect" where
  "eff_read f db = map_option (\<lambda>x. (Inr x, db)) (f db)"

definition eff_unwrap :: "'o option \<Rightarrow> ('s, 'e, 'o) effect" where
  "eff_unwrap m = eff_read (\<lambda>_. m)"

definition eff_try :: "('d \<Rightarrow> 'e) \<Rightarrow> 'd + 'o \<Rightarrow> ('s, 'e, 'o) effect" where
  "eff_try conv r db = Some (map_err conv r, db)"

definition eff_try_abort :: "('d \<Rightarrow> 'e) \<Rightarrow> ('s \<Rightarrow> 'd abort + 'o) \<Rightarrow> ('s, 'e, 'o) effect" where
  "eff_try_abort conv f db =
     (case f db of
        Inl Panics \<Rightarrow> None
      | Inl (Err e) \<Rightarrow> Some (Inl (conv e), db)
      | Inr x \<Rightarrow> Some (Inr x, db))"

named_theorems eff_simps \<open>when a command returns a value\<close>

lemma eff_return_Inr [eff_simps]: "eff_return x db = Some (Inr y, db') \<longleftrightarrow> x = y \<and> db = db'"
  by (simp add: eff_return_def)

lemma eff_bind_Inr [eff_simps]:
  "eff_bind c f db = Some (Inr y, db'') \<longleftrightarrow> (\<exists>x db'. c db = Some (Inr x, db') \<and> f x db' = Some (Inr y, db''))"
  by (auto simp: eff_bind_def bind_eq_Some_conv split: sum.splits) (metis old.sum.exhaust)

lemma eff_read_Inr [eff_simps]: "eff_read f db = Some (Inr x, db') \<longleftrightarrow> f db = Some x \<and> db = db'"
  by (auto simp: eff_read_def)

lemma eff_unwrap_Inr [eff_simps]: "eff_unwrap m db = Some (Inr x, db') \<longleftrightarrow> m = Some x \<and> db = db'"
  by (auto simp: eff_unwrap_def eff_simps)

lemma eff_try_Inr [eff_simps]: "eff_try conv r db = Some (Inr x, db') \<longleftrightarrow> r = Inr x \<and> db = db'"
  by (auto simp: eff_try_def)

lemma eff_try_abort_Inr [eff_simps]: "eff_try_abort conv f db = Some (Inr x, db') \<longleftrightarrow> f db = Inr x \<and> db = db'"
  by (auto simp: eff_try_abort_def split: sum.splits abort.splits)

lemma eff_bind_read: "f db = Some x \<Longrightarrow> eff_bind (eff_read f) g db = g x db"
  by (simp add: eff_bind_def eff_read_def)

end
