(* ===== verification/Migration_Store.thy ===== *)
theory Migration_Store
  imports Calculator Sql_Schema Sql_Error "HOL-Library.Signed_Division"
begin

section \<open>Persisted migrations\<close>

text \<open>
  \<open>migration-connector/src/migration_persistence.rs\<close>: the record of a migration, its status, and
  what the engine asks of the migrations stored so far;
  \<open>sql-migration-connector/src/sql_migration_persistence.rs\<close>: how they are kept in the table
  \<open>_Migration\<close>.

  What the code calls from outside is passed as an argument. A \<open>codec\<close> holds the JSON conversions
  of \<open>serde_json\<close>, the functions of the datamodel library that parse, lift and print schemas (an
  error collection is the list of its messages), the date functions of \<open>chrono\<close> and the printed
  forms of errors; a \<open>connection\<close> holds the calls of the database layer \<open>quaint\<close>, on an opaque
  state of the database. \<open>None\<close> is a panic: the code unwraps the result of every query.
\<close>

subsection \<open>Migrations\<close>

datatype migration_status =
    Pending
  | MigrationInProgress
  | MigrationSuccess
  | MigrationFailure
  | RollingBack
  | RollbackSuccess
  | RollbackFailure

fun status_code :: "migration_status \<Rightarrow> string" where
  "status_code Pending = ''Pending''"
| "status_code MigrationInProgress = ''MigrationInProgress''"
| "status_code MigrationSuccess = ''MigrationSuccess''"
| "status_code MigrationFailure = ''MigrationFailure''"
| "status_code RollingBack = ''RollingBack''"
| "status_code RollbackSuccess = ''RollbackSuccess''"
| "status_code RollbackFailure = ''RollbackFailure''"

definition status_from_str :: "string \<Rightarrow> migration_status option" where
  "status_from_str s =
     (if s = ''Pending'' then Some Pending
      else if s = ''MigrationInProgress'' then Some MigrationInProgress
      else if s = ''MigrationSuccess'' then Some MigrationSuccess
      else if s = ''MigrationFailure'' then Some MigrationFailure
      else if s = ''RollingBack'' then Some RollingBack
      else if s = ''RollbackSuccess'' then Some RollbackSuccess
      else if s = ''RollbackFailure'' then Some RollbackFailure
      else None)"

lemma status_from_str_code [simp]: "status_from_str (status_code s) = Some s"
  by (cases s) (simp_all add: status_from_str_def)

lemma status_code_inject [simp]: "status_code s = status_code t \<longleftrightarrow> s = t"
  by (metis option.inject status_from_str_code)

record ('dm, 'dt, 'j) migration =
  m_name :: string
  m_revision :: nat
  m_status :: migration_status
  m_applied :: nat
  m_rolled_back :: nat
  m_datamodel_string :: string
  m_datamodel :: 'dm
  m_datamodel_steps :: "migration_step list"
  m_database_migration :: 'j
  m_errors :: "string list"
  m_started_at :: 'dt
  m_finished_at :: "'dt option"

record 'dt update_params =
  up_name :: string
  up_new_name :: string
  up_revision :: nat
  up_status :: migration_status
  up_applied :: nat
  up_rolled_back :: nat
  up_errors :: "string list"
  up_finished_at :: "'dt option"

record ('dm, 'dt, 'j) codec =
  steps_to_json :: "migration_step list \<Rightarrow> string"
  steps_from_json :: "string \<Rightarrow> migration_step list option"
  value_to_json :: "'j \<Rightarrow> string"
  value_from_json :: "string \<Rightarrow> 'j option"
  errors_to_json :: "string list \<Rightarrow> string"
  errors_from_json :: "string \<Rightarrow> string list option"
  empty_object_json :: 'j
  render_datamodel_to_string :: "'dm \<Rightarrow> string option"
  parse_datamodel :: "string \<Rightarrow> string list + 'dm"
  parse_schema_ast :: "string \<Rightarrow> string list + schema_ast"
  lift_ast :: "schema_ast \<Rightarrow> string list + 'dm"
  render_schema_ast_to_string :: "schema_ast \<Rightarrow> string option"
  datamodel_empty :: 'dm
  timestamp_millis :: "'dt \<Rightarrow> 64 word"
  from_timestamp :: "64 word \<Rightarrow> 32 word \<Rightarrow> 'dt option"
  debug_connector_error :: "connector_error \<Rightarrow> string"
  display_calculator_error :: "calculator_error \<Rightarrow> string"

text \<open>
  Seconds and nanoseconds of a timestamp in milliseconds, with the truncating division of \<open>i64\<close>
  and the cast to \<open>u32\<close>. \<open>NaiveDateTime::from_timestamp\<close> panics on nanoseconds out of range.
\<close>

definition i64_div :: "64 word \<Rightarrow> 64 word \<Rightarrow> 64 word" where
  "i64_div a b = word_of_int (sint a sdiv sint b)"

definition i64_rem :: "64 word \<Rightarrow> 64 word \<Rightarrow> 64 word" where
  "i64_rem a b = word_of_int (sint a smod sint b)"

definition timestamp_nsecs :: "64 word \<Rightarrow> 32 word" where
  "timestamp_nsecs timestamp = ucast (i64_rem timestamp 1000 * 1000000)"

definition timestamp_secs :: "64 word \<Rightarrow> 64 word" where
  "timestamp_secs timestamp = i64_div timestamp 1000"

definition timestamp_to_datetime :: "('dm, 'dt, 'j) codec \<Rightarrow> 64 word \<Rightarrow> 'dt option" where
  "timestamp_to_datetime cdc timestamp =
     from_timestamp cdc (timestamp_secs timestamp) (timestamp_nsecs timestamp)"

text \<open>The clock, \<open>Utc::now().timestamp_millis()\<close>, is an argument.\<close>

definition timestamp_without_nanos :: "('dm, 'dt, 'j) codec \<Rightarrow> 64 word \<Rightarrow> 'dt option" where
  "timestamp_without_nanos cdc now_millis =
     from_timestamp cdc (i64_div now_millis 1000) (ucast (i64_rem now_millis 1000 * 1000000))"

definition mark_as_finished ::
    "('dm, 'dt, 'j) codec \<Rightarrow> 64 word \<Rightarrow> 'dt update_params \<Rightarrow> 'dt update_params option" where
  "mark_as_finished cdc now p =
     map_option (\<lambda>t. p\<lparr>up_status := MigrationSuccess, up_finished_at := Some t\<rparr>)
       (timestamp_without_nanos cdc now)"

definition migration_new :: "('dm, 'dt, 'j) codec \<Rightarrow> 64 word \<Rightarrow> string \<Rightarrow> ('dm, 'dt, 'j) migration option" where
  "migration_new cdc now name =
     map_option (\<lambda>t.
        \<lparr>m_name = name, m_revision = 0, m_status = Pending, m_applied = 0, m_rolled_back = 0,
         m_datamodel_string = [], m_datamodel = datamodel_empty cdc, m_datamodel_steps = [],
         m_database_migration = empty_object_json cdc, m_errors = [], m_started_at = t, m_finished_at = None\<rparr>)
       (timestamp_without_nanos cdc now)"

definition migration_update_params :: "('dm, 'dt, 'j) migration \<Rightarrow> 'dt update_params" where
  "migration_update_params m =
     \<lparr>up_name = m_name m, up_new_name = m_name m, up_revision = m_revision m, up_status = m_status m,
      up_applied = m_applied m, up_rolled_back = m_rolled_back m, up_errors = m_errors m,
      up_finished_at = m_finished_at m\<rparr>"

definition datamodel_ast :: "('dm, 'dt, 'j) codec \<Rightarrow> ('dm, 'dt, 'j) migration \<Rightarrow> schema_ast" where
  "datamodel_ast cdc m =
     (case parse_schema_ast cdc (m_datamodel_string m) of Inr a \<Rightarrow> a | Inl _ \<Rightarrow> schema_empty)"

definition is_watch_name :: "string \<Rightarrow> bool" where
  "is_watch_name name \<longleftrightarrow> take 5 name = ''watch''"

definition is_watch_migration :: "('dm, 'dt, 'j) migration \<Rightarrow> bool" where
  "is_watch_migration m \<longleftrightarrow> is_watch_name (m_name m)"

subsection \<open>What the engine asks\<close>

text \<open>The provided methods of the trait, on what \<open>last\<close> and \<open>load_all\<close> return.\<close>

definition current_datamodel :: "('dm, 'dt, 'j) codec \<Rightarrow> ('dm, 'dt, 'j) migration option \<Rightarrow> 'dm" where
  "current_datamodel cdc last_migration =
     (case last_migration of Some m \<Rightarrow> m_datamodel m | None \<Rightarrow> datamodel_empty cdc)"

definition current_datamodel_ast ::
    "('dm, 'dt, 'j) codec \<Rightarrow> ('dm, 'dt, 'j) migration option \<Rightarrow> schema_ast" where
  "current_datamodel_ast cdc last_migration =
     (case Option.bind last_migration (\<lambda>m. result_ok (parse_schema_ast cdc (m_datamodel_string m))) of
        Some a \<Rightarrow> a
      | None \<Rightarrow> schema_empty)"

definition last_non_watch_applied_migration ::
    "('dm, 'dt, 'j) migration list \<Rightarrow> ('dm, 'dt, 'j) migration option" where
  "last_non_watch_applied_migration all =
     find (\<lambda>m. \<not> is_watch_migration m \<and> m_status m = MigrationSuccess) (rev all)"

definition last_non_watch_migration ::
    "('dm, 'dt, 'j) migration list \<Rightarrow> ('dm, 'dt, 'j) migration option" where
  "last_non_watch_migration all = find (\<lambda>m. \<not> is_watch_migration m) (rev all)"

definition last_non_watch_datamodel ::
    "('dm, 'dt, 'j) codec \<Rightarrow> ('dm, 'dt, 'j) migration list \<Rightarrow> 'dm" where
  "last_non_watch_datamodel cdc all =
     (case last_non_watch_migration all of Some m \<Rightarrow> m_datamodel m | None \<Rightarrow> datamodel_empty cdc)"

definition load_current_watch_migrations ::
    "('dm, 'dt, 'j) migration list \<Rightarrow> ('dm, 'dt, 'j) migration list" where
  "load_current_watch_migrations all = rev (takeWhile is_watch_migration (rev all))"

subsection \<open>The interface of a persistence\<close>

text \<open>The required methods of the trait, on the state of the database.\<close>

record ('db, 'dm, 'dt, 'j) persistence =
  p_init :: "'db \<Rightarrow> 'db"
  p_reset :: "'db \<Rightarrow> 'db option"
  p_last :: "'db \<Rightarrow> ('dm, 'dt, 'j) migration option option"
  p_by_name :: "string \<Rightarrow> 'db \<Rightarrow> ('dm, 'dt, 'j) migration option option"
  p_load_all :: "'db \<Rightarrow> ('dm, 'dt, 'j) migration list option"
  p_create :: "('dm, 'dt, 'j) migration \<Rightarrow> 'db \<Rightarrow> (('dm, 'dt, 'j) migration \<times> 'db) option"
  p_update :: "'dt update_params \<Rightarrow> 'db \<Rightarrow> 'db option"

subsection \<open>The persistence that stores nothing\<close>

definition empty_last :: "('dm, 'dt, 'j) migration option" where
  "empty_last = None"

definition empty_by_name :: "string \<Rightarrow> ('dm, 'dt, 'j) migration option" where
  "empty_by_name name = None"

definition empty_load_all :: "('dm, 'dt, 'j) migration list" where
  "empty_load_all = []"

definition empty_create :: "('dm, 'dt, 'j) migration \<Rightarrow> ('dm, 'dt, 'j) migration option" where
  "empty_create m = None"

definition empty_update :: "'dt update_params \<Rightarrow> unit option" where
  "empty_update p = None"

definition empty_current_datamodel_ast :: schema_ast where
  "empty_current_datamodel_ast = \<lparr>tops = []\<rparr>"

definition empty_persistence :: "('db, 'dm, 'dt, 'j) persistence" where
  "empty_persistence =
     \<lparr>p_init = id, p_reset = Some, p_last = (\<lambda>_. Some empty_last), p_by_name = (\<lambda>n _. Some (empty_by_name n)),
      p_load_all = (\<lambda>_. Some empty_load_all), p_create = (\<lambda>m db. map_option (\<lambda>m. (m, db)) (empty_create m)),
      p_update = (\<lambda>p db. map_option (\<lambda>_. db) (empty_update p))\<rparr>"

subsection \<open>Seconds and nanoseconds\<close>

lemma sint_i64_bounds: "- (2 ^ 63) \<le> sint (t :: 64 word)" "sint (t :: 64 word) < 2 ^ 63"
  using sint_ge [of t] sint_lt [of t] by simp_all

lemma sdiv_1000: "(k :: int) sdiv 1000 = sgn k * (\<bar>k\<bar> div 1000)"
  by (simp add: signed_divide_int_def)

lemma smod_1000: "(k :: int) smod 1000 = sgn k * (\<bar>k\<bar> mod 1000)"
  by (simp add: signed_modulo_int_def)

lemma sint_timestamp_secs: "sint (timestamp_secs t) = sint t sdiv 1000"
proof -
  have "\<bar>sint t\<bar> div 1000 \<le> 2 ^ 63 div 1000" using sint_i64_bounds [of t] by (intro zdiv_mono1) auto
  then have "- (2 ^ 63) \<le> sint t sdiv 1000 \<and> sint t sdiv 1000 < 2 ^ 63"
    unfolding sdiv_1000 by (cases "sint t" "0 :: int" rule: linorder_cases) auto
  then show ?thesis
    by (simp add: timestamp_secs_def i64_div_def sint_sbintrunc' signed_take_bit_int_eq_self)
qed

lemma uint_timestamp_nsecs: "uint (timestamp_nsecs t) = (sint t smod 1000 * 1000000) mod 2 ^ 32"
proof -
  have "i64_rem t 1000 * 1000000 = (word_of_int (sint t smod 1000 * 1000000) :: 64 word)"
    by (simp add: i64_rem_def)
  then have "timestamp_nsecs t = ucast (word_of_int (sint t smod 1000 * 1000000) :: 64 word)"
    by (simp only: timestamp_nsecs_def)
  also have "\<dots> = word_of_int (sint t smod 1000 * 1000000)"
    by (rule ucast_down_wi) (simp add: is_down)
  finally show ?thesis by (simp only: uint_word_of_int) simp
qed

text \<open>C23: The seconds and nanoseconds the code computes from a timestamp in milliseconds are in range and
  denote that timestamp exactly when it is not negative or falls on a full second. For every other
  timestamp, before 1970, the cast to an unsigned integer makes the nanoseconds larger than two
  seconds, which the date library refuses with a panic.\<close>

theorem timestamp_parts:
  "if 0 \<le> sint t \<or> 1000 dvd sint t
   then uint (timestamp_nsecs t) < 1000000000
     \<and> sint t = sint (timestamp_secs t) * 1000 + uint (timestamp_nsecs t) div 1000000
   else 2000000000 < uint (timestamp_nsecs t)"
proof (cases "0 \<le> sint t")
  case True
  let ?r = "sint t mod 1000"
  have r: "0 \<le> ?r" "?r < 1000" by simp_all
  have "sint t smod 1000 = ?r" "sint t sdiv 1000 = sint t div 1000"
    using True by (cases "sint t = 0"; simp add: smod_1000 sdiv_1000)+
  moreover have "(?r * 1000000) mod 2 ^ 32 = ?r * 1000000" using r by (intro mod_pos_pos_trivial) simp_all
  ultimately show ?thesis
    using True r by (simp add: uint_timestamp_nsecs sint_timestamp_secs)
next
  case False
  let ?r = "- sint t mod 1000"
  have r: "0 \<le> ?r" "?r < 1000" by simp_all
  have s: "sint t smod 1000 = - ?r" "sint t sdiv 1000 = - (- sint t div 1000)"
    using False by (simp_all add: smod_1000 sdiv_1000)
  show ?thesis
  proof (cases "1000 dvd sint t")
    case True
    then show ?thesis
      using False by (simp add: uint_timestamp_nsecs sint_timestamp_secs s dvd_neg_div dvd_eq_mod_eq_0 [symmetric])
  next
    case nd: False
    then have "0 < ?r" using r(1) by (metis dvd_eq_mod_eq_0 dvd_minus_iff order_le_less)
    then have "(- ?r * 1000000) mod 2 ^ 32 = 2 ^ 32 - ?r * 1000000"
      using r(2) by (simp add: zmod_zminus1_eq_if)
    with False nd r(2) show ?thesis by (simp add: uint_timestamp_nsecs s)
  qed
qed

end
