(* ===== verification/Sql_Store.thy ===== *)
theory Sql_Store
  imports Migration_Store
begin

section \<open>The table of migrations\<close>

text \<open>
  \<open>sql-migration-connector/src/sql_migration_persistence.rs\<close>: migrations as rows of the table
  \<open>_Migration\<close>. The queries are built as values and passed to the connection, whose functions are
  the calls of the database layer. \<open>migration_table\<close> below states what the code relies on: the
  documented meaning of these queries for a table with an increasing primary key.
\<close>

subsection \<open>Queries\<close>

datatype 'dt db_value =
    VNull
  | VInteger "64 word"
  | VText string
  | VDateTime 'dt
  | VOther string

type_synonym 'dt row = "string \<Rightarrow> 'dt db_value option"

datatype table_ref = Unqualified string | Qualified string string

datatype order = Ascend string | Descend string

record 'dt select_query =
  sel_table :: table_ref
  sel_conditions :: "(string \<times> 'dt db_value) list"
  sel_order :: order

record 'dt insert_query =
  ins_table :: table_ref
  ins_values :: "(string \<times> 'dt db_value) list"

record 'dt update_query =
  upd_table :: table_ref
  upd_values :: "(string \<times> 'dt db_value) list"
  upd_conditions :: "(string \<times> 'dt db_value) list"

text \<open>An insert returns an id, or, on PostgreSQL, the rows of its \<open>RETURNING\<close> clause.\<close>

datatype insert_id = IntId nat | OtherId

record ('db, 'dt) connection =
  value_to_string :: "'dt db_value \<Rightarrow> string option"
  value_as_i64 :: "'dt db_value \<Rightarrow> 64 word option"
  usize_value :: "nat \<Rightarrow> 'dt db_value"
  conn_select :: "'db \<Rightarrow> 'dt select_query \<Rightarrow> 'dt row list option"
  conn_insert :: "'db \<Rightarrow> 'dt insert_query \<Rightarrow> ('db \<times> insert_id option) option"
  conn_insert_returning :: "'db \<Rightarrow> 'dt insert_query \<Rightarrow> string list \<Rightarrow> ('db \<times> 'dt row list) option"
  conn_update :: "'db \<Rightarrow> 'dt update_query \<Rightarrow> 'db option"
  conn_query_raw :: "'db \<Rightarrow> string \<Rightarrow> quaint_error option \<times> 'db"
  conn_execute_raw :: "'db \<Rightarrow> string \<Rightarrow> string list \<Rightarrow> quaint_error option \<times> 'db"
  remove_file :: "'db \<Rightarrow> string \<Rightarrow> 'db"

record store_config =
  store_family :: sql_family
  store_schema :: string
  store_file_path :: "string option"

definition TABLE_NAME :: string where "TABLE_NAME = ''_Migration''"
definition NAME_COLUMN :: string where "NAME_COLUMN = ''name''"
definition REVISION_COLUMN :: string where "REVISION_COLUMN = ''revision''"
definition DATAMODEL_COLUMN :: string where "DATAMODEL_COLUMN = ''datamodel''"
definition STATUS_COLUMN :: string where "STATUS_COLUMN = ''status''"
definition APPLIED_COLUMN :: string where "APPLIED_COLUMN = ''applied''"
definition ROLLED_BACK_COLUMN :: string where "ROLLED_BACK_COLUMN = ''rolled_back''"
definition DATAMODEL_STEPS_COLUMN :: string where "DATAMODEL_STEPS_COLUMN = ''datamodel_steps''"
definition DATABASE_MIGRATION_COLUMN :: string where "DATABASE_MIGRATION_COLUMN = ''database_migration''"
definition ERRORS_COLUMN :: string where "ERRORS_COLUMN = ''errors''"
definition STARTED_AT_COLUMN :: string where "STARTED_AT_COLUMN = ''started_at''"
definition FINISHED_AT_COLUMN :: string where "FINISHED_AT_COLUMN = ''finished_at''"

lemmas column_defs = NAME_COLUMN_def REVISION_COLUMN_def DATAMODEL_COLUMN_def STATUS_COLUMN_def
  APPLIED_COLUMN_def ROLLED_BACK_COLUMN_def DATAMODEL_STEPS_COLUMN_def DATABASE_MIGRATION_COLUMN_def
  ERRORS_COLUMN_def STARTED_AT_COLUMN_def FINISHED_AT_COLUMN_def

definition store_table :: "store_config \<Rightarrow> table_ref" where
  "store_table cfg =
     (if store_family cfg = Sqlite then Unqualified TABLE_NAME else Qualified (store_schema cfg) TABLE_NAME)"

subsection \<open>Values of a row\<close>

definition convert_datetime :: "('dm, 'dt, 'j) codec \<Rightarrow> sql_family \<Rightarrow> 'dt \<Rightarrow> 'dt db_value" where
  "convert_datetime cdc fam t =
     (case fam of Sqlite \<Rightarrow> VInteger (timestamp_millis cdc t) | Postgres \<Rightarrow> VDateTime t | Mysql \<Rightarrow> VDateTime t)"

fun convert_parameterized_date_value :: "('dm, 'dt, 'j) codec \<Rightarrow> 'dt db_value \<Rightarrow> 'dt option" where
  "convert_parameterized_date_value cdc (VInteger x) = timestamp_to_datetime cdc x"
| "convert_parameterized_date_value cdc (VDateTime x) = Some x"
| "convert_parameterized_date_value cdc _ = None"

definition row_string :: "('db, 'dt) connection \<Rightarrow> 'dt row \<Rightarrow> string \<Rightarrow> string option" where
  "row_string conn row col = Option.bind (row col) (value_to_string conn)"

definition row_usize :: "('db, 'dt) connection \<Rightarrow> 'dt row \<Rightarrow> string \<Rightarrow> nat option" where
  "row_usize conn row col = map_option unat (Option.bind (row col) (value_as_i64 conn))"

definition row_finished_at :: "('dm, 'dt, 'j) codec \<Rightarrow> 'dt row \<Rightarrow> 'dt option option" where
  "row_finished_at cdc row =
     Option.bind (row FINISHED_AT_COLUMN)
       (\<lambda>v. case v of VNull \<Rightarrow> Some None | x \<Rightarrow> map_option Some (convert_parameterized_date_value cdc x))"

definition parse_row :: "('dm, 'dt, 'j) codec \<Rightarrow> ('db, 'dt) connection \<Rightarrow> 'dt row \<Rightarrow> ('dm, 'dt, 'j) migration option" where
  "parse_row cdc conn row =
     Option.bind (row_string conn row DATAMODEL_COLUMN) (\<lambda>datamodel_string.
     Option.bind (row_string conn row DATAMODEL_STEPS_COLUMN) (\<lambda>datamodel_steps_json.
     Option.bind (row_string conn row DATABASE_MIGRATION_COLUMN) (\<lambda>database_migration_string.
     Option.bind (row_string conn row ERRORS_COLUMN) (\<lambda>errors_json.
     Option.bind (row_finished_at cdc row) (\<lambda>finished_at.
     Option.bind (steps_from_json cdc datamodel_steps_json) (\<lambda>datamodel_steps.
     Option.bind (result_ok (parse_datamodel cdc datamodel_string)) (\<lambda>datamodel.
     Option.bind (value_from_json cdc database_migration_string) (\<lambda>database_migration_json.
     Option.bind (errors_from_json cdc errors_json) (\<lambda>errors.
     Option.bind (row_string conn row NAME_COLUMN) (\<lambda>name.
     Option.bind (row_usize conn row REVISION_COLUMN) (\<lambda>revision.
     Option.bind (Option.bind (row_string conn row STATUS_COLUMN) status_from_str) (\<lambda>status.
     Option.bind (row_usize conn row APPLIED_COLUMN) (\<lambda>applied.
     Option.bind (row_usize conn row ROLLED_BACK_COLUMN) (\<lambda>rolled_back.
     Option.bind (Option.bind (row STARTED_AT_COLUMN) (convert_parameterized_date_value cdc)) (\<lambda>started_at.
     Some \<lparr>m_name = name, m_revision = revision, m_status = status, m_applied = applied,
           m_rolled_back = rolled_back, m_datamodel_string = datamodel_string, m_datamodel = datamodel,
           m_datamodel_steps = datamodel_steps, m_database_migration = database_migration_json,
           m_errors = errors, m_started_at = started_at, m_finished_at = finished_at\<rparr>)))))))))))))))"

definition parse_rows_new ::
    "('dm, 'dt, 'j) codec \<Rightarrow> ('db, 'dt) connection \<Rightarrow> 'dt row list \<Rightarrow> ('dm, 'dt, 'j) migration list option" where
  "parse_rows_new cdc conn rows = map_opt (parse_row cdc conn) rows"

subsection \<open>The operations\<close>

definition store_last ::
    "('dm, 'dt, 'j) codec \<Rightarrow> ('db, 'dt) connection \<Rightarrow> store_config \<Rightarrow> 'db
       \<Rightarrow> ('dm, 'dt, 'j) migration option option" where
  "store_last cdc conn cfg db =
     Option.bind
       (conn_select conn db
          \<lparr>sel_table = store_table cfg,
           sel_conditions = [(STATUS_COLUMN, VText (status_code MigrationSuccess))],
           sel_order = Descend REVISION_COLUMN\<rparr>)
       (\<lambda>result_set. map_option (\<lambda>ms. case ms of [] \<Rightarrow> None | m # _ \<Rightarrow> Some m) (parse_rows_new cdc conn result_set))"

definition store_load_all ::
    "('dm, 'dt, 'j) codec \<Rightarrow> ('db, 'dt) connection \<Rightarrow> store_config \<Rightarrow> 'db
       \<Rightarrow> ('dm, 'dt, 'j) migration list option" where
  "store_load_all cdc conn cfg db =
     Option.bind
       (conn_select conn db
          \<lparr>sel_table = store_table cfg, sel_conditions = [], sel_order = Ascend REVISION_COLUMN\<rparr>)
       (parse_rows_new cdc conn)"

definition store_by_name ::
    "('dm, 'dt, 'j) codec \<Rightarrow> ('db, 'dt) connection \<Rightarrow> store_config \<Rightarrow> string \<Rightarrow> 'db
       \<Rightarrow> ('dm, 'dt, 'j) migration option option" where
  "store_by_name cdc conn cfg name db =
     Option.bind
       (conn_select conn db
          \<lparr>sel_table = store_table cfg, sel_conditions = [(NAME_COLUMN, VText name)],
           sel_order = Descend REVISION_COLUMN\<rparr>)
       (\<lambda>result_set. map_option (\<lambda>ms. case ms of [] \<Rightarrow> None | m # _ \<Rightarrow> Some m) (parse_rows_new cdc conn result_set))"

definition create_insert ::
    "('dm, 'dt, 'j) codec \<Rightarrow> ('db, 'dt) connection \<Rightarrow> store_config \<Rightarrow> ('dm, 'dt, 'j) migration \<Rightarrow> string
       \<Rightarrow> 'dt insert_query" where
  "create_insert cdc conn cfg m serialized_datamodel =
     \<lparr>ins_table = store_table cfg,
      ins_values =
        [(NAME_COLUMN, VText (m_name m)),
         (DATAMODEL_COLUMN, VText serialized_datamodel),
         (STATUS_COLUMN, VText (status_code (m_status m))),
         (APPLIED_COLUMN, usize_value conn (m_applied m)),
         (ROLLED_BACK_COLUMN, usize_value conn (m_rolled_back m)),
         (DATAMODEL_STEPS_COLUMN, VText (steps_to_json cdc (m_datamodel_steps m))),
         (DATABASE_MIGRATION_COLUMN, VText (value_to_json cdc (m_database_migration m))),
         (ERRORS_COLUMN, VText (errors_to_json cdc (m_errors m))),
         (STARTED_AT_COLUMN, convert_datetime cdc (store_family cfg) (m_started_at m)),
         (FINISHED_AT_COLUMN, VNull)]\<rparr>"

definition store_create ::
    "('dm, 'dt, 'j) codec \<Rightarrow> ('db, 'dt) connection \<Rightarrow> store_config \<Rightarrow> ('dm, 'dt, 'j) migration \<Rightarrow> 'db
       \<Rightarrow> (('dm, 'dt, 'j) migration \<times> 'db) option" where
  "store_create cdc conn cfg m db =
     Option.bind (render_datamodel_to_string cdc (m_datamodel m)) (\<lambda>serialized_datamodel.
       let insert = create_insert cdc conn cfg m serialized_datamodel
       in if store_family cfg = Postgres
          then Option.bind (conn_insert_returning conn db insert [''revision'']) (\<lambda>(db', rows).
            case rows of
              [] \<Rightarrow> Some (m, db')
            | row # _ \<Rightarrow> map_option (\<lambda>r. (m\<lparr>m_revision := r\<rparr>, db')) (row_usize conn row ''revision''))
          else Option.bind (conn_insert conn db insert) (\<lambda>(db', id).
            case id of
              Some (IntId i) \<Rightarrow> Some (m\<lparr>m_revision := i\<rparr>, db')
            | _ \<Rightarrow> None))"

definition update_values ::
    "('dm, 'dt, 'j) codec \<Rightarrow> ('db, 'dt) connection \<Rightarrow> sql_family \<Rightarrow> 'dt update_params
       \<Rightarrow> (string \<times> 'dt db_value) list" where
  "update_values cdc conn fam p =
     [(NAME_COLUMN, VText (up_new_name p)),
      (STATUS_COLUMN, VText (status_code (up_status p))),
      (APPLIED_COLUMN, usize_value conn (up_applied p)),
      (ROLLED_BACK_COLUMN, usize_value conn (up_rolled_back p)),
      (ERRORS_COLUMN, VText (errors_to_json cdc (up_errors p))),
      (FINISHED_AT_COLUMN, case up_finished_at p of Some t \<Rightarrow> convert_datetime cdc fam t | None \<Rightarrow> VNull)]"

definition store_update ::
    "('dm, 'dt, 'j) codec \<Rightarrow> ('db, 'dt) connection \<Rightarrow> store_config \<Rightarrow> 'dt update_params \<Rightarrow> 'db \<Rightarrow> 'db option" where
  "store_update cdc conn cfg p db =
     conn_update conn db
       \<lparr>upd_table = store_table cfg, upd_values = update_values cdc conn (store_family cfg) p,
        upd_conditions = [(NAME_COLUMN, VText (up_name p)), (REVISION_COLUMN, usize_value conn (up_revision p))]\<rparr>"

text \<open>
  Creating the table. The columns are declared through the library \<open>barrel\<close>, whose translation of
  the declaration to SQL is an argument: the family, the schema, whether the table may exist, the
  name of the table and its columns.
\<close>

datatype barrel_base = BPrimary | BText | BInteger | BDate | BCustom string

record barrel_type =
  bt_base :: barrel_base
  bt_nullable :: bool

definition barrel :: "barrel_base \<Rightarrow> barrel_type" where
  "barrel b = \<lparr>bt_base = b, bt_nullable = False\<rparr>"

type_synonym make_from = "sql_family \<Rightarrow> string \<Rightarrow> bool \<Rightarrow> string \<Rightarrow> (string \<times> barrel_type) list \<Rightarrow> string"

definition migration_table_setup :: "barrel_type \<Rightarrow> barrel_type \<Rightarrow> (string \<times> barrel_type) list" where
  "migration_table_setup datetime_type unlimited_text_type =
     [(REVISION_COLUMN, barrel BPrimary),
      (NAME_COLUMN, barrel BText),
      (DATAMODEL_COLUMN, unlimited_text_type),
      (STATUS_COLUMN, barrel BText),
      (APPLIED_COLUMN, barrel BInteger),
      (ROLLED_BACK_COLUMN, barrel BInteger),
      (DATAMODEL_STEPS_COLUMN, unlimited_text_type),
      (DATABASE_MIGRATION_COLUMN, unlimited_text_type),
      (ERRORS_COLUMN, unlimited_text_type),
      (STARTED_AT_COLUMN, datetime_type),
      (FINISHED_AT_COLUMN, datetime_type\<lparr>bt_nullable := True\<rparr>)]"

definition migration_table_setup_sqlite :: "(string \<times> barrel_type) list" where
  "migration_table_setup_sqlite = migration_table_setup (barrel BDate) (barrel (BCustom ''TEXT''))"

definition migration_table_setup_postgres :: "(string \<times> barrel_type) list" where
  "migration_table_setup_postgres =
     migration_table_setup (barrel (BCustom ''timestamp(3)'')) (barrel (BCustom ''TEXT''))"

definition migration_table_setup_mysql :: "(string \<times> barrel_type) list" where
  "migration_table_setup_mysql =
     migration_table_setup (barrel (BCustom ''datetime(3)'')) (barrel (BCustom ''LONGTEXT''))"

definition store_init :: "('db, 'dt) connection \<Rightarrow> make_from \<Rightarrow> store_config \<Rightarrow> 'db \<Rightarrow> 'db" where
  "store_init conn make_from cfg db =
     (let sql_str =
        (case store_family cfg of
           Sqlite \<Rightarrow> make_from Sqlite (store_schema cfg) True TABLE_NAME migration_table_setup_sqlite
         | Postgres \<Rightarrow> make_from Postgres (store_schema cfg) False TABLE_NAME migration_table_setup_postgres
         | Mysql \<Rightarrow> make_from Mysql (store_schema cfg) False TABLE_NAME migration_table_setup_mysql)
      in snd (conn_query_raw conn db sql_str))"

text \<open>
  Resetting drops the schema, or on SQLite the file; errors are ignored except for the last
  \<open>ATTACH\<close>.
\<close>

definition store_reset :: "('db, 'dt) connection \<Rightarrow> store_config \<Rightarrow> 'db \<Rightarrow> 'db option" where
  "store_reset conn cfg db =
     (let q = [CHR 0x22];
          db1 = snd (conn_query_raw conn db
                  (''DELETE FROM '' @ q @ store_schema cfg @ q @ ''.'' @ q @ ''_Migration'' @ q @ '';''))
      in case store_family cfg of
           Postgres \<Rightarrow> Some (snd (conn_query_raw conn db1 (''DROP SCHEMA '' @ q @ store_schema cfg @ q @ '' CASCADE;'')))
         | Sqlite \<Rightarrow>
             (case store_file_path cfg of
                None \<Rightarrow> Some db1
              | Some file_path \<Rightarrow>
                  (let db2 = snd (conn_execute_raw conn db1 ''DETACH DATABASE ?'' [store_schema cfg]);
                       db3 = remove_file conn db2 file_path
                   in case conn_execute_raw conn db3 ''ATTACH DATABASE ? AS ?'' [file_path, store_schema cfg] of
                        (None, db4) \<Rightarrow> Some db4
                      | (Some _, _) \<Rightarrow> None))
         | Mysql \<Rightarrow> Some (snd (conn_query_raw conn db1
                      (''DROP SCHEMA '' @ [CHR 0x60] @ store_schema cfg @ [CHR 0x60] @ '';''))))"

definition sql_persistence ::
    "('dm, 'dt, 'j) codec \<Rightarrow> ('db, 'dt) connection \<Rightarrow> make_from \<Rightarrow> store_config \<Rightarrow> ('db, 'dm, 'dt, 'j) persistence" where
  "sql_persistence cdc conn make_from cfg =
     \<lparr>p_init = store_init conn make_from cfg, p_reset = store_reset conn cfg, p_last = store_last cdc conn cfg,
      p_by_name = store_by_name cdc conn cfg, p_load_all = store_load_all cdc conn cfg,
      p_create = store_create cdc conn cfg, p_update = store_update cdc conn cfg\<rparr>"

end
