(* ===== verification/Store_Log.thy ===== *)
theory Store_Log
  imports Sql_Store
begin

section \<open>The log of migrations\<close>

text \<open>
  What a persistence promises: it keeps a list of migrations in the order of their creation, reads
  it back as it is, appends to it and updates the entry with a given name and revision. The locale
  \<open>migration_log\<close> is this contract. The table of migrations implements it, provided the database
  behaves as a table with an increasing primary key and what the code calls to print a value can read
  it back.
\<close>

subsection \<open>The contract\<close>

definition update_entry :: "'dt update_params \<Rightarrow> ('dm, 'dt, 'j) migration \<Rightarrow> ('dm, 'dt, 'j) migration" where
  "update_entry p m =
     (if m_name m = up_name p \<and> m_revision m = up_revision p
      then m\<lparr>m_name := up_new_name p, m_status := up_status p, m_applied := up_applied p,
             m_rolled_back := up_rolled_back p, m_errors := up_errors p, m_finished_at := up_finished_at p\<rparr>
      else m)"

definition new_entry :: "string \<Rightarrow> nat \<Rightarrow> ('dm, 'dt, 'j) migration \<Rightarrow> ('dm, 'dt, 'j) migration" where
  "new_entry text revision m = m\<lparr>m_revision := revision, m_datamodel_string := text, m_finished_at := None\<rparr>"

definition is_successful :: "('dm, 'dt, 'j) migration \<Rightarrow> bool" where
  "is_successful m \<longleftrightarrow> m_status m = MigrationSuccess"

locale migration_log =
  fixes pers :: "('db, 'dm, 'dt, 'j) persistence"
    and log :: "'db \<Rightarrow> ('dm, 'dt, 'j) migration list \<Rightarrow> bool"
    and creatable :: "('dm, 'dt, 'j) migration list \<Rightarrow> ('dm, 'dt, 'j) migration \<Rightarrow> string \<Rightarrow> bool"
    and updatable :: "'dt update_params \<Rightarrow> bool"
  assumes load_all_log: "log db ms \<Longrightarrow> p_load_all pers db = Some ms"
    and last_log: "log db ms \<Longrightarrow> p_last pers db = Some (find is_successful (rev ms))"
    and by_name_log: "log db ms \<Longrightarrow> p_by_name pers n db = Some (find (\<lambda>m. m_name m = n) (rev ms))"
    and create_log: "log db ms \<Longrightarrow> creatable ms m text \<Longrightarrow>
      \<exists>r db'. p_create pers m db = Some (m\<lparr>m_revision := r\<rparr>, db') \<and> log db' (ms @ [new_entry text r m])"
    and update_log: "log db ms \<Longrightarrow> updatable p \<Longrightarrow>
      \<exists>db'. p_update pers p db = Some db' \<and> log db' (map (update_entry p) ms)"
    and log_revisions: "log db ms \<Longrightarrow> distinct (map m_revision ms)"
begin

lemma update_one:
  assumes "log db (ms @ m # ms')" "updatable p" "up_name p = m_name m" "up_revision p = m_revision m"
  shows "\<exists>db'. p_update pers p db = Some db' \<and> log db' (ms @ update_entry p m # ms')"
proof -
  have "update_entry p x = x" if "x \<in> set ms \<union> set ms'" for x
    using log_revisions [OF assms(1)] assms(4) that by (auto simp: update_entry_def image_iff)
  then have "map (update_entry p) (ms @ m # ms') = ms @ update_entry p m # ms'" by (simp add: map_idI)
  with update_log [OF assms(1,2)] show ?thesis by simp
qed

end

subsection \<open>Rows of migrations\<close>

text \<open>
  The row that holds a migration. A migration is \<open>readable\<close> if what the code reads back from the
  row is the migration: the texts parse and the numbers and dates are in range.
\<close>

definition finished_value :: "('dm, 'dt, 'j) codec \<Rightarrow> sql_family \<Rightarrow> 'dt option \<Rightarrow> 'dt db_value" where
  "finished_value cdc fam t = (case t of Some t \<Rightarrow> convert_datetime cdc fam t | None \<Rightarrow> VNull)"

definition migration_row :: "('dm, 'dt, 'j) codec \<Rightarrow> sql_family \<Rightarrow> ('dm, 'dt, 'j) migration \<Rightarrow> 'dt row" where
  "migration_row cdc fam m = map_of
     [(REVISION_COLUMN, VInteger (word_of_nat (m_revision m))),
      (NAME_COLUMN, VText (m_name m)),
      (DATAMODEL_COLUMN, VText (m_datamodel_string m)),
      (STATUS_COLUMN, VText (status_code (m_status m))),
      (APPLIED_COLUMN, VInteger (word_of_nat (m_applied m))),
      (ROLLED_BACK_COLUMN, VInteger (word_of_nat (m_rolled_back m))),
      (DATAMODEL_STEPS_COLUMN, VText (steps_to_json cdc (m_datamodel_steps m))),
      (DATABASE_MIGRATION_COLUMN, VText (value_to_json cdc (m_database_migration m))),
      (ERRORS_COLUMN, VText (errors_to_json cdc (m_errors m))),
      (STARTED_AT_COLUMN, convert_datetime cdc fam (m_started_at m)),
      (FINISHED_AT_COLUMN, finished_value cdc fam (m_finished_at m))]"

definition i64_range :: "nat \<Rightarrow> bool" where
  "i64_range n \<longleftrightarrow> n < 2 ^ 63"

text \<open>A date the family stores exactly; on SQLite, in milliseconds.\<close>

definition storable_date :: "('dm, 'dt, 'j) codec \<Rightarrow> sql_family \<Rightarrow> 'dt \<Rightarrow> bool" where
  "storable_date cdc fam t \<longleftrightarrow> fam = Sqlite \<longrightarrow> timestamp_to_datetime cdc (timestamp_millis cdc t) = Some t"

text \<open>Reading JSON gives back what was written.\<close>

definition survives_json :: "('dm, 'dt, 'j) codec \<Rightarrow> migration_step list \<Rightarrow> 'j \<Rightarrow> bool" where
  "survives_json cdc steps v \<longleftrightarrow>
     steps_from_json cdc (steps_to_json cdc steps) = Some steps \<and> value_from_json cdc (value_to_json cdc v) = Some v"

definition errors_survive :: "('dm, 'dt, 'j) codec \<Rightarrow> string list \<Rightarrow> bool" where
  "errors_survive cdc errors \<longleftrightarrow> errors_from_json cdc (errors_to_json cdc errors) = Some errors"

lemmas json_defs = survives_json_def errors_survive_def

definition readable :: "('dm, 'dt, 'j) codec \<Rightarrow> sql_family \<Rightarrow> ('dm, 'dt, 'j) migration \<Rightarrow> bool" where
  "readable cdc fam m \<longleftrightarrow>
     i64_range (m_revision m) \<and> i64_range (m_applied m) \<and> i64_range (m_rolled_back m)
     \<and> parse_datamodel cdc (m_datamodel_string m) = Inr (m_datamodel m)
     \<and> survives_json cdc (m_datamodel_steps m) (m_database_migration m) \<and> errors_survive cdc (m_errors m)
     \<and> storable_date cdc fam (m_started_at m)
     \<and> (\<forall>t. m_finished_at m = Some t \<longrightarrow> storable_date cdc fam t)"

definition reads_values :: "('db, 'dt) connection \<Rightarrow> bool" where
  "reads_values conn \<longleftrightarrow>
     (\<forall>s. value_to_string conn (VText s) = Some s) \<and> (\<forall>w. value_as_i64 conn (VInteger w) = Some w)
     \<and> (\<forall>n. i64_range n \<longrightarrow> usize_value conn n = VInteger (word_of_nat n))"

lemma unat_i64: "i64_range n \<Longrightarrow> unat (word_of_nat n :: 64 word) = n"
  by (simp add: i64_range_def unat_of_nat)

lemma i64_inject: "i64_range n \<Longrightarrow> i64_range k \<Longrightarrow> (word_of_nat n :: 64 word) = word_of_nat k \<longleftrightarrow> n = k"
  by (metis unat_i64)

lemma read_date: "storable_date cdc fam t \<Longrightarrow> convert_parameterized_date_value cdc (convert_datetime cdc fam t) = Some t"
  by (cases fam) (simp_all add: convert_datetime_def storable_date_def)

lemma migration_row_columns [simp]:
  "migration_row cdc fam m REVISION_COLUMN = Some (VInteger (word_of_nat (m_revision m)))"
  "migration_row cdc fam m NAME_COLUMN = Some (VText (m_name m))"
  "migration_row cdc fam m DATAMODEL_COLUMN = Some (VText (m_datamodel_string m))"
  "migration_row cdc fam m STATUS_COLUMN = Some (VText (status_code (m_status m)))"
  "migration_row cdc fam m APPLIED_COLUMN = Some (VInteger (word_of_nat (m_applied m)))"
  "migration_row cdc fam m ROLLED_BACK_COLUMN = Some (VInteger (word_of_nat (m_rolled_back m)))"
  "migration_row cdc fam m DATAMODEL_STEPS_COLUMN = Some (VText (steps_to_json cdc (m_datamodel_steps m)))"
  "migration_row cdc fam m DATABASE_MIGRATION_COLUMN = Some (VText (value_to_json cdc (m_database_migration m)))"
  "migration_row cdc fam m ERRORS_COLUMN = Some (VText (errors_to_json cdc (m_errors m)))"
  "migration_row cdc fam m STARTED_AT_COLUMN = Some (convert_datetime cdc fam (m_started_at m))"
  "migration_row cdc fam m FINISHED_AT_COLUMN = Some (finished_value cdc fam (m_finished_at m))"
  by (simp_all add: migration_row_def column_defs)

lemma row_finished_at_migration_row:
  "readable cdc fam m \<Longrightarrow> row_finished_at cdc (migration_row cdc fam m) = Some (m_finished_at m)"
  by (cases fam; cases "m_finished_at m")
     (simp_all add: row_finished_at_def finished_value_def readable_def convert_datetime_def storable_date_def)

lemma parse_migration_row:
  assumes "reads_values conn" "readable cdc fam m"
  shows "parse_row cdc conn (migration_row cdc fam m) = Some m"
proof -
  have "row_finished_at cdc (migration_row cdc fam m) = Some (m_finished_at m)"
    by (rule row_finished_at_migration_row [OF assms(2)])
  with assms show ?thesis
    by (simp add: parse_row_def row_string_def row_usize_def json_defs reads_values_def readable_def
        unat_i64 read_date)
qed

lemma parse_migration_rows:
  assumes "reads_values conn" "\<forall>m\<in>set ms. readable cdc fam m"
  shows "parse_rows_new cdc conn (map (migration_row cdc fam) ms) = Some ms"
  using assms(2) by (induction ms) (simp_all add: parse_rows_new_def parse_migration_row [OF assms(1)])

subsection \<open>The table\<close>

text \<open>
  What the code relies on in the database. \<open>rows\<close> gives the rows of the table of migrations in the
  order of their primary key, if the table is there. A select returns the rows that satisfy the
  conditions in the order asked for, an update changes exactly these. An insert, if the primary key
  is not exhausted, adds a row with a new and larger key, and reports the key.
\<close>

definition row_matches :: "(string \<times> 'dt db_value) list \<Rightarrow> 'dt row \<Rightarrow> bool" where
  "row_matches conds r \<longleftrightarrow> list_all (\<lambda>(c, v). r c = Some v) conds"

definition selects :: "('db, 'dt) connection \<Rightarrow> table_ref \<Rightarrow> ('db \<Rightarrow> 'dt row list option) \<Rightarrow> bool" where
  "selects conn tab rows \<longleftrightarrow>
     (\<forall>db rs conds. rows db = Some rs \<longrightarrow>
        conn_select conn db \<lparr>sel_table = tab, sel_conditions = conds, sel_order = Ascend REVISION_COLUMN\<rparr>
          = Some (filter (row_matches conds) rs)
      \<and> conn_select conn db \<lparr>sel_table = tab, sel_conditions = conds, sel_order = Descend REVISION_COLUMN\<rparr>
          = Some (rev (filter (row_matches conds) rs)))"

definition inserted_row :: "nat \<Rightarrow> (string \<times> 'dt db_value) list \<Rightarrow> 'dt row" where
  "inserted_row r vals = (map_of vals)(REVISION_COLUMN \<mapsto> VInteger (word_of_nat r))"

definition inserts ::
    "nat \<Rightarrow> ('db, 'dt) connection \<Rightarrow> table_ref \<Rightarrow> ('db \<Rightarrow> 'dt row list option) \<Rightarrow> bool" where
  "inserts capacity conn tab rows \<longleftrightarrow>
     (\<forall>db rs vals. rows db = Some rs \<and> length rs < capacity \<longrightarrow>
        (\<exists>r db'. i64_range r \<and> (\<forall>x\<in>set rs. \<forall>w. x REVISION_COLUMN = Some (VInteger w) \<longrightarrow> unat w < r)
           \<and> rows db' = Some (rs @ [inserted_row r vals])
           \<and> conn_insert conn db \<lparr>ins_table = tab, ins_values = vals\<rparr> = Some (db', Some (IntId r))
           \<and> conn_insert_returning conn db \<lparr>ins_table = tab, ins_values = vals\<rparr> [REVISION_COLUMN]
               = Some (db', [[REVISION_COLUMN \<mapsto> VInteger (word_of_nat r)]])))"

definition updates :: "('db, 'dt) connection \<Rightarrow> table_ref \<Rightarrow> ('db \<Rightarrow> 'dt row list option) \<Rightarrow> bool" where
  "updates conn tab rows \<longleftrightarrow>
     (\<forall>db rs vals conds. rows db = Some rs \<and> REVISION_COLUMN \<notin> fst ` set vals \<longrightarrow>
        (\<exists>db'. conn_update conn db \<lparr>upd_table = tab, upd_values = vals, upd_conditions = conds\<rparr> = Some db'
           \<and> rows db' = Some (map (\<lambda>r. if row_matches conds r then r ++ map_of vals else r) rs)))"

definition sql_log ::
    "('dm, 'dt, 'j) codec \<Rightarrow> ('db, 'dt) connection \<Rightarrow> store_config \<Rightarrow> nat \<Rightarrow> ('db \<Rightarrow> 'dt row list option)
       \<Rightarrow> 'db \<Rightarrow> ('dm, 'dt, 'j) migration list \<Rightarrow> bool" where
  "sql_log cdc conn cfg capacity rows db ms \<longleftrightarrow>
     reads_values conn \<and> selects conn (store_table cfg) rows
     \<and> inserts capacity conn (store_table cfg) rows \<and> updates conn (store_table cfg) rows
     \<and> rows db = Some (map (migration_row cdc (store_family cfg)) ms)
     \<and> (\<forall>m\<in>set ms. readable cdc (store_family cfg) m) \<and> distinct (map m_revision ms)"

definition sql_creatable ::
    "('dm, 'dt, 'j) codec \<Rightarrow> sql_family \<Rightarrow> nat \<Rightarrow> ('dm, 'dt, 'j) migration list \<Rightarrow> ('dm, 'dt, 'j) migration
       \<Rightarrow> string \<Rightarrow> bool" where
  "sql_creatable cdc fam capacity ms m text \<longleftrightarrow>
     length ms < capacity \<and> render_datamodel_to_string cdc (m_datamodel m) = Some text
     \<and> parse_datamodel cdc text = Inr (m_datamodel m) \<and> i64_range (m_applied m) \<and> i64_range (m_rolled_back m)
     \<and> survives_json cdc (m_datamodel_steps m) (m_database_migration m) \<and> errors_survive cdc (m_errors m)
     \<and> storable_date cdc fam (m_started_at m)"

definition sql_updatable :: "('dm, 'dt, 'j) codec \<Rightarrow> sql_family \<Rightarrow> 'dt update_params \<Rightarrow> bool" where
  "sql_updatable cdc fam p \<longleftrightarrow>
     i64_range (up_revision p) \<and> i64_range (up_applied p) \<and> i64_range (up_rolled_back p) \<and> errors_survive cdc (up_errors p)
     \<and> (\<forall>t. up_finished_at p = Some t \<longrightarrow> storable_date cdc fam t)"

lemma selects_Ascend:
  "selects conn tab rows \<Longrightarrow> rows db = Some rs \<Longrightarrow>
     conn_select conn db \<lparr>sel_table = tab, sel_conditions = conds, sel_order = Ascend REVISION_COLUMN\<rparr>
       = Some (filter (row_matches conds) rs)"
  by (simp add: selects_def)

lemma selects_Descend:
  "selects conn tab rows \<Longrightarrow> rows db = Some rs \<Longrightarrow>
     conn_select conn db \<lparr>sel_table = tab, sel_conditions = conds, sel_order = Descend REVISION_COLUMN\<rparr>
       = Some (rev (filter (row_matches conds) rs))"
  by (simp add: selects_def)

lemma hd_filter_find: "(case filter P xs of [] \<Rightarrow> None | x # _ \<Rightarrow> Some x) = find P xs"
  by (induction xs) simp_all

lemma sql_select_first:
  assumes "sql_log cdc conn cfg capacity rows db ms"
    and "\<And>m. row_matches conds (migration_row cdc (store_family cfg) m) \<longleftrightarrow> P m"
  shows "Option.bind
      (conn_select conn db \<lparr>sel_table = store_table cfg, sel_conditions = conds, sel_order = Descend REVISION_COLUMN\<rparr>)
      (\<lambda>rs. map_option (\<lambda>ms. case ms of [] \<Rightarrow> None | m # _ \<Rightarrow> Some m) (parse_rows_new cdc conn rs))
    = Some (find P (rev ms))"
proof -
  let ?row = "migration_row cdc (store_family cfg)"
  have l: "reads_values conn" "selects conn (store_table cfg) rows"
    "rows db = Some (map ?row ms)" "\<forall>m\<in>set ms. readable cdc (store_family cfg) m"
    using assms(1) by (auto simp: sql_log_def)
  have "rev (filter (row_matches conds) (map ?row ms)) = map ?row (filter P (rev ms))"
    by (simp add: filter_map comp_def assms(2) rev_map rev_filter)
  moreover have "parse_rows_new cdc conn (map ?row (filter P (rev ms))) = Some (filter P (rev ms))"
    by (rule parse_migration_rows [OF l(1)]) (use l(4) in auto)
  ultimately show ?thesis
    by (simp add: selects_Descend [OF l(2,3)] hd_filter_find)
qed

lemma inserted_migration_row:
  assumes "reads_values conn" "i64_range (m_applied m)" "i64_range (m_rolled_back m)"
  shows "inserted_row r (ins_values (create_insert cdc conn cfg m text))
    = migration_row cdc (store_family cfg) (new_entry text r m)"
  using assms
  by (intro ext) (simp add: inserted_row_def create_insert_def migration_row_def new_entry_def finished_value_def
      reads_values_def)

lemma sql_create:
  assumes "sql_log cdc conn cfg capacity rows db ms" "sql_creatable cdc (store_family cfg) capacity ms m text"
  shows "\<exists>r db'. store_create cdc conn cfg m db = Some (m\<lparr>m_revision := r\<rparr>, db')
    \<and> sql_log cdc conn cfg capacity rows db' (ms @ [new_entry text r m])"
proof -
  let ?row = "migration_row cdc (store_family cfg)"
  define vals where "vals = ins_values (create_insert cdc conn cfg m text)"
  have l: "reads_values conn" "selects conn (store_table cfg) rows"
    "inserts capacity conn (store_table cfg) rows" "updates conn (store_table cfg) rows"
    "rows db = Some (map ?row ms)" "\<forall>m\<in>set ms. readable cdc (store_family cfg) m" "distinct (map m_revision ms)"
    using assms(1) by (auto simp: sql_log_def)
  have c: "length ms < capacity" "render_datamodel_to_string cdc (m_datamodel m) = Some text"
    "parse_datamodel cdc text = Inr (m_datamodel m)" "i64_range (m_applied m)" "i64_range (m_rolled_back m)"
    "storable_date cdc (store_family cfg) (m_started_at m)"
    "survives_json cdc (m_datamodel_steps m) (m_database_migration m)" "errors_survive cdc (m_errors m)"
    using assms(2) by (auto simp: sql_creatable_def)
  have ins: "create_insert cdc conn cfg m text = \<lparr>ins_table = store_table cfg, ins_values = vals\<rparr>"
    by (simp add: create_insert_def vals_def)
  obtain r db' where r: "i64_range r"
    "\<forall>x\<in>set (map ?row ms). \<forall>w. x REVISION_COLUMN = Some (VInteger w) \<longrightarrow> unat w < r"
    "rows db' = Some (map ?row ms @ [inserted_row r vals])"
    "conn_insert conn db (create_insert cdc conn cfg m text) = Some (db', Some (IntId r))"
    "conn_insert_returning conn db (create_insert cdc conn cfg m text) [REVISION_COLUMN]
       = Some (db', [[REVISION_COLUMN \<mapsto> VInteger (word_of_nat r)]])"
    using l(3,5) c(1) unfolding inserts_def ins by (metis length_map)
  have "m_revision x < r" if "x \<in> set ms" for x
    using r(2) l(6) that by (auto simp: readable_def unat_i64)
  then have "r \<notin> m_revision ` set ms" by auto
  moreover have "readable cdc (store_family cfg) (new_entry text r m)"
    using c r(1) by (simp add: readable_def new_entry_def)
  ultimately have "sql_log cdc conn cfg capacity rows db' (ms @ [new_entry text r m])"
    using l r(3) inserted_migration_row [OF l(1) c(4,5), of r cdc cfg "text", folded vals_def]
    by (auto simp: sql_log_def new_entry_def)
  moreover have "store_create cdc conn cfg m db = Some (m\<lparr>m_revision := r\<rparr>, db')"
    using r(1,4,5) l(1) c(2)
    by (simp add: store_create_def row_usize_def reads_values_def unat_i64 REVISION_COLUMN_def Let_def)
  ultimately show ?thesis by blast
qed

lemma updated_migration_row:
  assumes "reads_values conn" "sql_updatable cdc fam p" "readable cdc fam m"
  shows "(if row_matches [(NAME_COLUMN, VText (up_name p)), (REVISION_COLUMN, usize_value conn (up_revision p))]
              (migration_row cdc fam m)
          then migration_row cdc fam m ++ map_of (update_values cdc conn fam p) else migration_row cdc fam m)
    = migration_row cdc fam (update_entry p m)"
proof -
  have n: "usize_value conn n = VInteger (word_of_nat n)" if "i64_range n" for n
    using assms(1) that by (simp add: reads_values_def)
  have "row_matches [(NAME_COLUMN, VText (up_name p)), (REVISION_COLUMN, usize_value conn (up_revision p))]
      (migration_row cdc fam m) \<longleftrightarrow> m_name m = up_name p \<and> m_revision m = up_revision p"
    using assms(2,3) by (simp add: row_matches_def n sql_updatable_def readable_def i64_inject)
  moreover have "migration_row cdc fam m ++ map_of (update_values cdc conn fam p) = migration_row cdc fam (update_entry p m)"
    if "m_name m = up_name p \<and> m_revision m = up_revision p"
    using assms(2) that
    by (intro ext) (simp add: migration_row_def update_values_def map_add_def update_entry_def finished_value_def
        n sql_updatable_def column_defs)
  ultimately show ?thesis by (simp add: update_entry_def)
qed

lemma sql_update:
  assumes "sql_log cdc conn cfg capacity rows db ms" "sql_updatable cdc (store_family cfg) p"
  shows "\<exists>db'. store_update cdc conn cfg p db = Some db'
    \<and> sql_log cdc conn cfg capacity rows db' (map (update_entry p) ms)"
proof -
  let ?row = "migration_row cdc (store_family cfg)"
  let ?conds = "[(NAME_COLUMN, VText (up_name p)), (REVISION_COLUMN, usize_value conn (up_revision p))]"
  have l: "reads_values conn" "rows db = Some (map ?row ms)" "\<forall>m\<in>set ms. readable cdc (store_family cfg) m"
    "updates conn (store_table cfg) rows"
    using assms(1) by (auto simp: sql_log_def)
  obtain db' where u: "store_update cdc conn cfg p db = Some db'"
    "rows db' = Some (map (\<lambda>r. if row_matches ?conds r then r ++ map_of (update_values cdc conn (store_family cfg) p) else r) (map ?row ms))"
  proof -
    have "REVISION_COLUMN \<notin> fst ` set (update_values cdc conn (store_family cfg) p)"
      by (simp add: update_values_def column_defs)
    with l(2,4) that show thesis unfolding updates_def store_update_def by blast
  qed
  have "rows db' = Some (map ?row (map (update_entry p) ms))"
    using u(2) l(3) by (simp add: updated_migration_row [OF l(1) assms(2)])
  moreover have "\<forall>m\<in>set ms. readable cdc (store_family cfg) (update_entry p m)"
    using l(3) assms(2) by (simp add: readable_def update_entry_def sql_updatable_def)
  moreover have "map m_revision (map (update_entry p) ms) = map m_revision ms" by (simp add: update_entry_def)
  ultimately show ?thesis using u(1) assms(1) by (auto simp: sql_log_def simp del: map_map)
qed

interpretation sql_store: migration_log "sql_persistence cdc conn make_from cfg"
  "sql_log cdc conn cfg capacity rows" "sql_creatable cdc (store_family cfg) capacity"
  "sql_updatable cdc (store_family cfg)" for cdc conn make_from cfg capacity rows
proof unfold_locales
  fix db ms
  assume log: "sql_log cdc conn cfg capacity rows db ms"
  have "conn_select conn db \<lparr>sel_table = store_table cfg, sel_conditions = [], sel_order = Ascend REVISION_COLUMN\<rparr>
      = Some (map (migration_row cdc (store_family cfg)) ms)"
    using log selects_Ascend [of conn "store_table cfg" rows db "map (migration_row cdc (store_family cfg)) ms" "[]"]
    by (simp add: sql_log_def row_matches_def)
  with log show "p_load_all (sql_persistence cdc conn make_from cfg) db = Some ms"
    by (simp add: sql_persistence_def store_load_all_def sql_log_def parse_migration_rows)
  show "p_last (sql_persistence cdc conn make_from cfg) db = Some (find is_successful (rev ms))"
    unfolding sql_persistence_def persistence.simps store_last_def
    by (rule sql_select_first [OF log]) (simp add: row_matches_def is_successful_def del: status_code.simps)
  show "p_by_name (sql_persistence cdc conn make_from cfg) n db = Some (find (\<lambda>m. m_name m = n) (rev ms))" for n
    unfolding sql_persistence_def persistence.simps store_by_name_def
    by (rule sql_select_first [OF log]) (simp add: row_matches_def)
  show "\<exists>r db'. p_create (sql_persistence cdc conn make_from cfg) m db = Some (m\<lparr>m_revision := r\<rparr>, db')
      \<and> sql_log cdc conn cfg capacity rows db' (ms @ [new_entry body r m])"
    if "sql_creatable cdc (store_family cfg) capacity ms m body" for m body
    using sql_create [OF log that] by (simp add: sql_persistence_def)
  show "\<exists>db'. p_update (sql_persistence cdc conn make_from cfg) p db = Some db'
      \<and> sql_log cdc conn cfg capacity rows db' (map (update_entry p) ms)"
    if "sql_updatable cdc (store_family cfg) p" for p
    using sql_update [OF log that] by (simp add: sql_persistence_def)
  show "distinct (map m_revision ms)" using log by (simp add: sql_log_def)
qed

subsection \<open>Reading back what was stored\<close>

text \<open>C24: A migration that is stored is read back: loading all migrations gives the earlier ones unchanged,
  followed by the new one under a revision of its own, with the printed datamodel as its text; it is
  found under its name; and it is the last migration exactly if it is a successful one.\<close>

theorem create_then_load:
  assumes "sql_log cdc conn cfg capacity rows db ms" "sql_creatable cdc (store_family cfg) capacity ms m repr"
  shows "\<exists>r db'. store_create cdc conn cfg m db = Some (m\<lparr>m_revision := r\<rparr>, db') \<and> r \<notin> m_revision ` set ms
    \<and> store_load_all cdc conn cfg db' = Some (ms @ [new_entry repr r m])
    \<and> store_by_name cdc conn cfg (m_name m) db' = Some (Some (new_entry repr r m))
    \<and> store_last cdc conn cfg db' = (if is_successful m then Some (Some (new_entry repr r m)) else store_last cdc conn cfg db)"
proof -
  obtain r db' where c: "store_create cdc conn cfg m db = Some (m\<lparr>m_revision := r\<rparr>, db')"
    and log: "sql_log cdc conn cfg capacity rows db' (ms @ [new_entry repr r m])"
    using sql_create [OF assms] by blast
  have "r \<notin> m_revision ` set ms" using sql_store.log_revisions [OF log] by (simp add: new_entry_def)
  with c show ?thesis
    using sql_store.load_all_log [OF log] sql_store.by_name_log [OF log, where n = "m_name m"]
      sql_store.last_log [OF log] sql_store.last_log [OF assms(1)]
    by (intro exI [of _ r] exI [of _ db']) (simp add: sql_persistence_def new_entry_def is_successful_def)
qed

text \<open>
  A table in memory: the next key, the rows, and the statements that were run. Some statements
  fail.
\<close>

record ex_db =
  ex_next :: nat
  ex_table_rows :: "64 word row list"
  ex_done :: "string list"

definition ex_rows :: "ex_db \<Rightarrow> 64 word row list option" where
  "ex_rows db =
     (if ex_next db \<le> Suc (length (ex_table_rows db))
         \<and> (\<forall>x\<in>set (ex_table_rows db). \<forall>w. x REVISION_COLUMN = Some (VInteger w) \<longrightarrow> unat w < ex_next db)
      then Some (ex_table_rows db) else None)"

definition ex_insert :: "ex_db \<Rightarrow> 64 word insert_query \<Rightarrow> ex_db" where
  "ex_insert db q =
     db\<lparr>ex_next := Suc (ex_next db), ex_table_rows := ex_table_rows db @ [inserted_row (ex_next db) (ins_values q)]\<rparr>"

definition ex_connection :: "(string \<Rightarrow> bool) \<Rightarrow> (ex_db, 64 word) connection" where
  "ex_connection fails =
     \<lparr>value_to_string = (\<lambda>v. case v of VText s \<Rightarrow> Some s | _ \<Rightarrow> None),
      value_as_i64 = (\<lambda>v. case v of VInteger w \<Rightarrow> Some w | _ \<Rightarrow> None),
      usize_value = (\<lambda>n. VInteger (word_of_nat n)),
      conn_select = (\<lambda>db q. let rs = filter (row_matches (sel_conditions q)) (ex_table_rows db)
                            in Some (case sel_order q of Ascend _ \<Rightarrow> rs | Descend _ \<Rightarrow> rev rs)),
      conn_insert = (\<lambda>db q. Some (ex_insert db q, Some (IntId (ex_next db)))),
      conn_insert_returning = (\<lambda>db q cols.
         Some (ex_insert db q, [[REVISION_COLUMN \<mapsto> VInteger (word_of_nat (ex_next db))]])),
      conn_update = (\<lambda>db q. Some (db\<lparr>ex_table_rows :=
         map (\<lambda>r. if row_matches (upd_conditions q) r then r ++ map_of (upd_values q) else r) (ex_table_rows db)\<rparr>)),
      conn_query_raw = (\<lambda>db sql. if fails sql then (Some QTimeout, db) else (None, db\<lparr>ex_done := ex_done db @ [sql]\<rparr>)),
      conn_execute_raw = (\<lambda>db sql args. (None, db)),
      remove_file = (\<lambda>db f. db)\<rparr>"

definition ex_codec :: "(string, 64 word, string) codec" where
  "ex_codec =
     \<lparr>steps_to_json = (\<lambda>_. []), steps_from_json = (\<lambda>_. Some []), value_to_json = id, value_from_json = Some,
      errors_to_json = (\<lambda>es. case es of [] \<Rightarrow> [] | e # _ \<Rightarrow> CHR ''!'' # e),
      errors_from_json = (\<lambda>s. Some (case s of [] \<Rightarrow> [] | _ # e \<Rightarrow> [e])),
      empty_object_json = ''{}'', render_datamodel_to_string = Some, parse_datamodel = Inr,
      parse_schema_ast = (\<lambda>_. Inr schema_empty), lift_ast = (\<lambda>_. Inr []), render_schema_ast_to_string = (\<lambda>_. Some []), datamodel_empty = [], timestamp_millis = id,
      from_timestamp = (\<lambda>s n. Some (s * 1000 + ucast n div 1000000)),
      debug_connector_error = (\<lambda>_. ''error''), display_calculator_error = (\<lambda>_. [])\<rparr>"

definition ex_config :: store_config where
  "ex_config = \<lparr>store_family = Postgres, store_schema = ''public'', store_file_path = None\<rparr>"

definition ex_migration :: "string \<Rightarrow> migration_status \<Rightarrow> nat \<Rightarrow> (string, 64 word, string) migration" where
  "ex_migration name status revision =
     \<lparr>m_name = name, m_revision = revision, m_status = status, m_applied = 0, m_rolled_back = 0,
      m_datamodel_string = [], m_datamodel = [], m_datamodel_steps = [], m_database_migration = ''{}'', m_errors = [],
      m_started_at = 0, m_finished_at = None\<rparr>"

definition ex_stored :: "(string, 64 word, string) migration list \<Rightarrow> ex_db" where
  "ex_stored ms = \<lparr>ex_next = Suc (length ms), ex_table_rows = map (migration_row ex_codec Postgres) ms, ex_done = []\<rparr>"

lemma ex_selects: "selects (ex_connection fails) tab ex_rows"
  by (auto simp: selects_def ex_rows_def ex_connection_def split: if_splits)

lemma ex_inserts: "inserts 100 (ex_connection fails) tab ex_rows"
  by (auto simp: inserts_def ex_rows_def ex_connection_def ex_insert_def i64_range_def inserted_row_def unat_of_nat
      split: if_splits intro: less_SucI)

lemma ex_updates: "updates (ex_connection fails) tab ex_rows"
  by (auto simp: updates_def ex_rows_def ex_connection_def map_add_Some_iff dest!: map_of_SomeD
      split: if_splits intro: rev_image_eqI)

lemma ex_log:
  assumes "map m_revision ms = [1..<Suc (length ms)]" "length ms < 100" "\<forall>m\<in>set ms. readable ex_codec Postgres m"
  shows "sql_log ex_codec (ex_connection fails) ex_config 100 ex_rows (ex_stored ms) ms"
proof -
  have "m_revision m \<in> set [1..<Suc (length ms)]" if "m \<in> set ms" for m
    unfolding assms(1) [symmetric] using that by simp
  then have "m_revision m < Suc (length ms)" if "m \<in> set ms" for m
    using that by fastforce
  then have "ex_rows (ex_stored ms) = Some (map (migration_row ex_codec Postgres) ms)"
    using assms(3) by (auto simp: ex_rows_def ex_stored_def readable_def unat_i64)
  moreover have "reads_values (ex_connection fails)" by (simp add: reads_values_def ex_connection_def)
  ultimately show ?thesis
    using assms by (simp add: sql_log_def ex_config_def ex_selects ex_inserts ex_updates)
qed

theorem create_then_load_witness:
  "\<exists>r db'. store_create ex_codec (ex_connection (\<lambda>_. False)) ex_config (ex_migration ''two'' Pending 0)
        (ex_stored [ex_migration ''one'' MigrationSuccess 1]) = Some (ex_migration ''two'' Pending r, db')
    \<and> store_load_all ex_codec (ex_connection (\<lambda>_. False)) ex_config db'
        = Some [ex_migration ''one'' MigrationSuccess 1, ex_migration ''two'' Pending r]"
proof -
  let ?c = "ex_connection (\<lambda>_. False)"
  have log: "sql_log ex_codec ?c ex_config 100 ex_rows (ex_stored [ex_migration ''one'' MigrationSuccess 1])
      [ex_migration ''one'' MigrationSuccess 1]"
    by (rule ex_log) (simp_all add: readable_def ex_migration_def ex_codec_def i64_range_def storable_date_def json_defs)
  have creatable: "sql_creatable ex_codec (store_family ex_config) 100 [ex_migration ''one'' MigrationSuccess 1]
      (ex_migration ''two'' Pending 0) []"
    by (simp add: sql_creatable_def ex_migration_def ex_codec_def ex_config_def i64_range_def storable_date_def json_defs)
  have "(ex_migration ''two'' Pending 0)\<lparr>m_revision := r\<rparr> = ex_migration ''two'' Pending r"
    "new_entry [] r (ex_migration ''two'' Pending 0) = ex_migration ''two'' Pending r" for r
    by (simp_all add: ex_migration_def new_entry_def)
  with create_then_load [OF log creatable] show ?thesis by auto
qed

end
