(* ===== verification/Migration_Applier.thy ===== *)
theory Migration_Applier
  imports Store_Log Sql_Renderer
begin

section \<open>Applying migrations\<close>

text \<open>
  \<open>migration-connector/src/migration_applier.rs\<close>: a migration is applied step by step, and its
  progress is written to the log after each step; \<open>sql-migration-connector/src/sql_database_step_applier.rs\<close>:
  a step is rendered and sent to the database.

  The loops run until the step applier reports that there are no more steps or fails. They are
  partial functions: \<open>None\<close> is a panic or a loop that does not end.
\<close>

subsection \<open>The applier\<close>

record ('db, 'm, 'j) step_applier =
  sa_apply_step :: "'m \<Rightarrow> nat \<Rightarrow> 'db \<Rightarrow> ((connector_error + bool) \<times> 'db) option"
  sa_unapply_step :: "'m \<Rightarrow> nat \<Rightarrow> 'db \<Rightarrow> ((connector_error + bool) \<times> 'db) option"
  sa_render_steps_pretty :: "'m \<Rightarrow> (connector_error + 'j list) option"

partial_function (option) go_forward ::
    "('db, 'dm, 'dt, 'j) persistence \<Rightarrow> ('db, 'm, 'j) step_applier \<Rightarrow> 'm \<Rightarrow> nat \<Rightarrow> 'dt update_params \<Rightarrow> 'db
       \<Rightarrow> ((connector_error + unit) \<times> 'dt update_params \<times> 'db) option" where
  "go_forward pers sa database_migration step p db =
     Option.bind (sa_apply_step sa database_migration step db) (\<lambda>(r, db1).
       case r of
         Inl e \<Rightarrow> Some (Inl e, p, db1)
       | Inr has_more \<Rightarrow>
           if has_more
           then (let p' = p\<lparr>up_applied := up_applied p + 1\<rparr>
                 in Option.bind (p_update pers p' db1) (go_forward pers sa database_migration (step + 1) p'))
           else Some (Inr (), p, db1))"

partial_function (option) go_backward ::
    "('db, 'dm, 'dt, 'j) persistence \<Rightarrow> ('db, 'm, 'j) step_applier \<Rightarrow> 'm \<Rightarrow> nat \<Rightarrow> 'dt update_params \<Rightarrow> 'db
       \<Rightarrow> ((connector_error + unit) \<times> 'dt update_params \<times> 'db) option" where
  "go_backward pers sa database_migration step p db =
     Option.bind (sa_unapply_step sa database_migration step db) (\<lambda>(r, db1).
       case r of
         Inl e \<Rightarrow> Some (Inl e, p, db1)
       | Inr has_more \<Rightarrow>
           if has_more
           then (let p' = p\<lparr>up_rolled_back := up_rolled_back p + 1\<rparr>
                 in Option.bind (p_update pers p' db1) (go_backward pers sa database_migration (step + 1) p'))
           else Some (Inr (), p, db1))"

lemma go_forward_eq:
  "go_forward pers sa database_migration i p db =
     Option.bind (sa_apply_step sa database_migration i db) (\<lambda>(r, db1).
       case r of
         Inl e \<Rightarrow> Some (Inl e, p, db1)
       | Inr b \<Rightarrow>
           if b
           then Option.bind (p_update pers (p\<lparr>up_applied := up_applied p + 1\<rparr>) db1)
                  (go_forward pers sa database_migration (Suc i) (p\<lparr>up_applied := up_applied p + 1\<rparr>))
           else Some (Inr (), p, db1))"
  unfolding go_forward.simps [of _ _ _ i] Let_def Suc_eq_plus1 ..

lemma go_backward_eq:
  "go_backward pers sa database_migration i p db =
     Option.bind (sa_unapply_step sa database_migration i db) (\<lambda>(r, db1).
       case r of
         Inl e \<Rightarrow> Some (Inl e, p, db1)
       | Inr b \<Rightarrow>
           if b
           then Option.bind (p_update pers (p\<lparr>up_rolled_back := up_rolled_back p + 1\<rparr>) db1)
                  (go_backward pers sa database_migration (Suc i) (p\<lparr>up_rolled_back := up_rolled_back p + 1\<rparr>))
           else Some (Inr (), p, db1))"
  unfolding go_backward.simps [of _ _ _ i] Let_def Suc_eq_plus1 ..

text \<open>The clock reads the time from the state.\<close>

definition applier_apply ::
    "('dm, 'dt, 'j) codec \<Rightarrow> ('db \<Rightarrow> 64 word) \<Rightarrow> ('db, 'dm, 'dt, 'j) persistence \<Rightarrow> ('db, 'm, 'j) step_applier
       \<Rightarrow> ('dm, 'dt, 'j) migration \<Rightarrow> 'm \<Rightarrow> 'db \<Rightarrow> ((connector_error + unit) \<times> 'db) option" where
  "applier_apply cdc clock pers sa m database_migration db =
     (if m_status m \<noteq> Pending then None
      else
        let p = (migration_update_params m)\<lparr>up_status := MigrationInProgress\<rparr>
        in Option.bind (p_update pers p db) (\<lambda>db1.
           Option.bind (go_forward pers sa database_migration 0 p db1) (\<lambda>(apply_result, p, db2).
             case apply_result of
               Inr _ \<Rightarrow>
                 Option.bind (mark_as_finished cdc (clock db2) p) (\<lambda>p.
                   map_option (\<lambda>db3. (Inr (), db3)) (p_update pers p db2))
             | Inl err \<Rightarrow>
                 map_option (\<lambda>db3. (Inl err, db3))
                   (p_update pers (p\<lparr>up_status := MigrationFailure,
                      up_errors := [debug_connector_error cdc err]\<rparr>) db2))))"

definition applier_unapply ::
    "('dm, 'dt, 'j) codec \<Rightarrow> ('db, 'dm, 'dt, 'j) persistence \<Rightarrow> ('db, 'm, 'j) step_applier
       \<Rightarrow> ('dm, 'dt, 'j) migration \<Rightarrow> 'm \<Rightarrow> 'db \<Rightarrow> ((connector_error + unit) \<times> 'db) option" where
  "applier_unapply cdc pers sa m database_migration db =
     (if m_status m \<noteq> MigrationSuccess then None
      else
        let p = (migration_update_params m)\<lparr>up_status := RollingBack\<rparr>
        in Option.bind (p_update pers p db) (\<lambda>db1.
           Option.bind (go_backward pers sa database_migration 0 p db1) (\<lambda>(unapply_result, p, db2).
             case unapply_result of
               Inr _ \<Rightarrow>
                 map_option (\<lambda>db3. (Inr (), db3)) (p_update pers (p\<lparr>up_status := RollbackSuccess\<rparr>) db2)
             | Inl err \<Rightarrow>
                 map_option (\<lambda>db3. (Inl err, db3))
                   (p_update pers (p\<lparr>up_status := RollbackFailure,
                      up_errors := [debug_connector_error cdc err]\<rparr>) db2))))"

subsection \<open>Steps of the SQL connector\<close>

definition apply_next_step ::
    "('db, 'dt) connection \<Rightarrow> sql_family \<Rightarrow> string \<Rightarrow> sql_migration_step list \<Rightarrow> nat \<Rightarrow> 'db
       \<Rightarrow> ((sql_error + bool) \<times> 'db) option" where
  "apply_next_step conn fam schema_name steps index db =
     (if \<not> index < length steps then Some (Inr False, db)
      else Option.bind (render_raw_sql (steps ! index) fam schema_name) (\<lambda>sql_string.
        case conn_query_raw conn db sql_string of
          (Some e, db') \<Rightarrow> Some (Inl (sql_error_from_quaint e), db')
        | (None, db') \<Rightarrow> Some (Inr (index + 1 < length steps), db')))"

definition sql_apply_step ::
    "('db, 'dt) connection \<Rightarrow> sql_family \<Rightarrow> string \<Rightarrow> sql_migration \<Rightarrow> nat \<Rightarrow> 'db
       \<Rightarrow> ((connector_error + bool) \<times> 'db) option" where
  "sql_apply_step conn fam schema_name m index db =
     map_option (map_prod (map_err connector_error_from_sql) id)
       (apply_next_step conn fam schema_name (mig_corrected_steps m) index db)"

definition sql_unapply_step ::
    "('db, 'dt) connection \<Rightarrow> sql_family \<Rightarrow> string \<Rightarrow> sql_migration \<Rightarrow> nat \<Rightarrow> 'db
       \<Rightarrow> ((connector_error + bool) \<times> 'db) option" where
  "sql_unapply_step conn fam schema_name m index db =
     map_option (map_prod (map_err connector_error_from_sql) id)
       (apply_next_step conn fam schema_name (mig_rollback m) index db)"

text \<open>The JSON form of a rendered step is an argument.\<close>

definition sql_render_steps_pretty ::
    "(pretty_sql_migration_step \<Rightarrow> 'j) \<Rightarrow> sql_family \<Rightarrow> string \<Rightarrow> sql_migration \<Rightarrow> (connector_error + 'j list) option" where
  "sql_render_steps_pretty to_value fam schema_name m =
     map_option (\<lambda>ps. Inr (map to_value ps)) (render_steps_pretty m fam schema_name)"

definition sql_step_applier ::
    "(pretty_sql_migration_step \<Rightarrow> 'j) \<Rightarrow> ('db, 'dt) connection \<Rightarrow> sql_family \<Rightarrow> string
       \<Rightarrow> ('db, sql_migration, 'j) step_applier" where
  "sql_step_applier to_value conn fam schema_name =
     \<lparr>sa_apply_step = sql_apply_step conn fam schema_name, sa_unapply_step = sql_unapply_step conn fam schema_name,
      sa_render_steps_pretty = sql_render_steps_pretty to_value fam schema_name\<rparr>"

subsection \<open>The contract of the loops\<close>

text \<open>
  Statements run one after the other until the first that fails; the number of those that
  succeeded is counted.
\<close>

fun execute :: "('d \<Rightarrow> 's \<Rightarrow> 'x option \<times> 'd) \<Rightarrow> 's list \<Rightarrow> 'd \<Rightarrow> 'x option \<times> nat \<times> 'd" where
  "execute exec [] d = (None, 0, d)"
| "execute exec (s # ss) d =
     (case exec d s of
        (Some e, d') \<Rightarrow> (Some e, 0, d')
      | (None, d') \<Rightarrow> (case execute exec ss d' of (e, k, d'') \<Rightarrow> (e, Suc k, d'')))"

lemma execute_all: "execute exec ss d = (None, k, d') \<Longrightarrow> k = length ss"
  by (induction ss arbitrary: d k) (auto split: prod.splits option.splits)

definition outcome :: "('x \<Rightarrow> connector_error) \<Rightarrow> 'x option \<Rightarrow> connector_error + unit" where
  "outcome conv e = (case e of None \<Rightarrow> Inr () | Some x \<Rightarrow> Inl (conv x))"

text \<open>How often the counter of a loop is incremented: not after the last statement.\<close>

definition counted :: "'x option \<Rightarrow> nat \<Rightarrow> nat" where
  "counted e k = (case e of None \<Rightarrow> k - 1 | Some _ \<Rightarrow> k)"

text \<open>
  A step applier runs the statement of a given index on the data of the database, keeps the log and
  reports whether there are more; updates of the log keep the data. Then a loop over the steps runs
  the statements in order, and the entry of the log follows its counter.
\<close>

locale counted_loop = migration_log pers log creatable updatable
  for pers :: "('db, 'dm, 'dt, 'j) persistence" and log creatable updatable +
  fixes go :: "nat \<Rightarrow> 'dt update_params \<Rightarrow> 'db \<Rightarrow> ((connector_error + unit) \<times> 'dt update_params \<times> 'db) option"
    and step :: "nat \<Rightarrow> 'db \<Rightarrow> ((connector_error + bool) \<times> 'db) option"
    and bump :: "'dt update_params \<Rightarrow> 'dt update_params"
    and sqls :: "'s list" and exec :: "'d \<Rightarrow> 's \<Rightarrow> 'x option \<times> 'd" and data :: "'db \<Rightarrow> 'd"
    and conv :: "'x \<Rightarrow> connector_error"
  assumes go_eq: "go i p db = Option.bind (step i db) (\<lambda>(r, db1).
      case r of
        Inl e \<Rightarrow> Some (Inl e, p, db1)
      | Inr b \<Rightarrow> if b then Option.bind (p_update pers (bump p) db1) (go (Suc i) (bump p)) else Some (Inr (), p, db1))"
    and step_end: "log db ms \<Longrightarrow> length sqls \<le> i \<Longrightarrow> step i db = Some (Inr False, db)"
    and step_run: "log db ms \<Longrightarrow> i < length sqls \<Longrightarrow> exec (data db) (sqls ! i) = (e, d) \<Longrightarrow>
      \<exists>db'. step i db = Some (case e of None \<Rightarrow> Inr (Suc i < length sqls) | Some x \<Rightarrow> Inl (conv x), db')
        \<and> log db' ms \<and> data db' = d"
    and update_data: "log db ms \<Longrightarrow> p_update pers p db = Some db' \<Longrightarrow> data db' = data db"
    and bump_key: "up_name (bump p) = up_name p" "up_new_name (bump p) = up_new_name p" "up_revision (bump p) = up_revision p"
begin

lemma update_entry_twice:
  "up_name p = up_new_name p \<Longrightarrow> up_name q = up_name p \<Longrightarrow> up_revision q = up_revision p
    \<Longrightarrow> update_entry q (update_entry p m) = update_entry q m"
  by (simp add: update_entry_def)

lemma update_again:
  assumes "log db (ms @ update_entry p m # ms')" "up_name p = m_name m" "up_new_name p = m_name m"
    "up_revision p = m_revision m" "updatable q" "up_name q = up_name p" "up_revision q = up_revision p"
  shows "\<exists>db'. p_update pers q db = Some db' \<and> log db' (ms @ update_entry q m # ms') \<and> data db' = data db"
proof -
  have "up_name q = m_name (update_entry p m)" "up_revision q = m_revision (update_entry p m)"
    using assms by (simp_all add: update_entry_def)
  then obtain db' where "p_update pers q db = Some db'" "log db' (ms @ update_entry q (update_entry p m) # ms')"
    using update_one [OF assms(1,5)] by blast
  then show ?thesis using assms update_data [OF assms(1)] by (auto simp: update_entry_twice)
qed

lemma loop_runs:
  assumes "execute exec (drop i sqls) (data db) = (e, k, d)" "log db (ms @ update_entry p m # ms')"
    "up_name p = m_name m" "up_new_name p = m_name m" "up_revision p = m_revision m"
    "\<forall>j<length sqls - i. updatable ((bump ^^ Suc j) p)"
  shows "\<exists>db'. go i p db = Some (outcome conv e, (bump ^^ counted e k) p, db') \<and> data db' = d
    \<and> log db' (ms @ update_entry ((bump ^^ counted e k) p) m # ms')"
  using assms
proof (induction "drop i sqls" arbitrary: i p db k)
  case Nil
  have "drop i sqls = []" using Nil.hyps by (rule sym)
  with Nil.prems show ?case by (simp add: go_eq [of i] step_end [OF Nil.prems(2)] outcome_def counted_def)
next
  case (Cons s ss)
  have ds: "drop i sqls = s # ss" using Cons.hyps(2) by (rule sym)
  have i: "i < length sqls" using ds by (metis drop_eq_Nil linorder_not_le list.distinct(1))
  have s: "sqls ! i = s" using ds by (rule nth_via_drop)
  have ss: "drop (Suc i) sqls = ss" using ds by (metis drop_Suc list.sel(3) tl_drop)
  obtain e1 d1 where e1: "exec (data db) (sqls ! i) = (e1, d1)" by fastforce
  obtain db1 where db1: "step i db = Some (case e1 of None \<Rightarrow> Inr (Suc i < length sqls) | Some x \<Rightarrow> Inl (conv x), db1)"
    "log db1 (ms @ update_entry p m # ms')" "data db1 = d1"
    using step_run [OF Cons.prems(2) i e1] by blast
  show ?case
  proof (cases e1)
    case (Some x)
    with Cons.prems(1) ds e1 s have "e = Some x" "k = 0" "d = d1" by simp_all
    with Some db1 show ?thesis by (simp add: go_eq [of i] outcome_def counted_def)
  next
    case None
    with Cons.prems(1) e1 s obtain k' where k: "k = Suc k'" "execute exec ss d1 = (e, k', d)"
      by (auto simp: ds split: prod.splits)
    show ?thesis
    proof (cases "ss = []")
      case True
      with ss have "\<not> Suc i < length sqls" by simp
      with None True k db1 show ?thesis by (simp add: go_eq [of i] outcome_def counted_def)
    next
      case False
      with ss have "Suc i < length sqls" by auto
      obtain db2 where db2: "p_update pers (bump p) db1 = Some db2" "log db2 (ms @ update_entry (bump p) m # ms')" "data db2 = d1"
        using update_again [OF db1(2) Cons.prems(3-5), of "bump p"] Cons.prems(6) i bump_key db1(3) by force
      have "\<forall>j<length sqls - Suc i. updatable ((bump ^^ Suc j) (bump p))"
      proof (intro allI impI)
        fix j
        assume "j < length sqls - Suc i"
        then have "Suc j < length sqls - i" by simp
        with Cons.prems(6) have "updatable ((bump ^^ Suc (Suc j)) p)" by blast
        then show "updatable ((bump ^^ Suc j) (bump p))" by (simp add: funpow_swap1)
      qed
      then obtain db3 where db3: "go (Suc i) (bump p) db2 = Some (outcome conv e, (bump ^^ counted e k') (bump p), db3)"
        "data db3 = d" "log db3 (ms @ update_entry ((bump ^^ counted e k') (bump p)) m # ms')"
        using Cons.hyps(1) [OF ss [symmetric], of db2 k' "bump p"] k(2) db2 Cons.prems(3-5) bump_key by (auto simp: ss)
      have "Suc (counted e k') = counted e k"
        using False k execute_all [of exec ss d1 k' d] by (cases e) (auto simp: counted_def)
      then have "(bump ^^ counted e k') (bump p) = (bump ^^ counted e k) p" by (metis funpow_swap1 funpow.simps(2) comp_apply)
      with None db1 db2 db3 \<open>Suc i < length sqls\<close> show ?thesis by (simp add: go_eq [of i])
    qed
  qed
qed

text \<open>A whole run: the entry is updated, the loop runs, and the entry is updated to its final form.\<close>

lemma tracked_run:
  assumes "log db (ms @ m # ms')" "up_name p = m_name m" "up_new_name p = m_name m" "up_revision p = m_revision m"
    and "updatable p" "\<forall>j<length sqls. updatable ((bump ^^ Suc j) p)" "execute exec sqls (data db) = (e, k, d)"
  shows "\<exists>db1 db2. p_update pers p db = Some db1 \<and> go 0 p db1 = Some (outcome conv e, (bump ^^ counted e k) p, db2)
    \<and> (\<forall>f. updatable f \<and> up_name f = m_name m \<and> up_revision f = m_revision m \<longrightarrow>
         (\<exists>db3. p_update pers f db2 = Some db3 \<and> log db3 (ms @ update_entry f m # ms') \<and> data db3 = d))"
proof -
  define q where "q = (bump ^^ counted e k) p"
  have "up_name ((bump ^^ n) p) = up_name p \<and> up_new_name ((bump ^^ n) p) = up_new_name p
      \<and> up_revision ((bump ^^ n) p) = up_revision p" for n
    by (induction n) (simp_all add: bump_key)
  then have q: "up_name q = m_name m" "up_new_name q = m_name m" "up_revision q = m_revision m"
    unfolding q_def using assms(2-4) by simp_all
  obtain db1 where db1: "p_update pers p db = Some db1" "log db1 (ms @ update_entry p m # ms')" "data db1 = data db"
    using update_one [OF assms(1,5,2,4)] update_data [OF assms(1)] by blast
  have "execute exec (drop 0 sqls) (data db1) = (e, k, d)" "\<forall>j<length sqls - 0. updatable ((bump ^^ Suc j) p)"
    using assms(6,7) db1(3) by simp_all
  then obtain db2 where db2: "go 0 p db1 = Some (outcome conv e, q, db2)" "data db2 = d" "log db2 (ms @ update_entry q m # ms')"
    using loop_runs [OF _ db1(2) assms(2-4)] unfolding q_def by blast
  have "\<exists>db3. p_update pers f db2 = Some db3 \<and> log db3 (ms @ update_entry f m # ms') \<and> data db3 = d"
    if "updatable f" "up_name f = m_name m" "up_revision f = m_revision m" for f
    using update_again [OF db2(3) q that(1)] that q db2(2) by simp
  with db1(1) db2(1) show ?thesis unfolding q_def by blast
qed

end

end
