(* ===== verification/Commands.thy ===== *)
theory Commands
  imports Effects Migration_Applier Sql_Destructive Differ
begin

section \<open>Commands of the migration engine\<close>

text \<open>
  \<open>migration-engine/core/src/commands\<close> and \<open>migration_engine.rs\<close>: the requests a client sends. A
  command runs against a \<open>connector\<close>, the trait of \<open>migration-connector/src/lib.rs\<close>, on the state of
  its database; it returns a value or an error with the state it leaves, and \<open>None\<close> if it panics.
\<close>

subsection \<open>Errors and results\<close>

datatype command_error =
    DataModelErrors int "string list"
  | InitializationError int string
  | GenericError int string
  | InputError int string

definition command_error_from_errors :: "string list \<Rightarrow> command_error" where
  "command_error_from_errors errors = DataModelErrors 1001 errors"

definition command_error_from_connector :: "('dm, 'dt, 'j) codec \<Rightarrow> connector_error \<Rightarrow> command_error" where
  "command_error_from_connector cdc e = GenericError 1000 (debug_connector_error cdc e)"

definition command_error_from_calculator :: "('dm, 'dt, 'j) codec \<Rightarrow> calculator_error \<Rightarrow> command_error" where
  "command_error_from_calculator cdc e = GenericError 1 (display_calculator_error cdc e)"

type_synonym ('db, 'o) command = "'db \<Rightarrow> ((command_error + 'o) \<times> 'db) option"

definition cmd_calculate :: "('dm, 'dt, 'j) codec \<Rightarrow> 'o calc \<Rightarrow> ('db, 'o) command" where
  "cmd_calculate cdc r db =
     (case r of
        Inl Panic \<Rightarrow> None
      | Inl (CalculatorError e) \<Rightarrow> Some (Inl (command_error_from_calculator cdc e), db)
      | Inr x \<Rightarrow> Some (Inr x, db))"

definition cmd_connector ::
    "('dm, 'dt, 'j) codec \<Rightarrow> ('db \<Rightarrow> ((connector_error + 'o) \<times> 'db) option) \<Rightarrow> ('db, 'o) command" where
  "cmd_connector cdc f db = map_option (map_prod (map_err (command_error_from_connector cdc)) id) (f db)"

subsection \<open>Connectors\<close>

record ('db, 'dm, 'dt, 'j, 'm) connector =
  c_connector_type :: string
  c_initialize :: "'db \<Rightarrow> ((connector_error + unit) \<times> 'db) option"
  c_reset :: "'db \<Rightarrow> ((connector_error + unit) \<times> 'db) option"
  c_persistence :: "('db, 'dm, 'dt, 'j) persistence"
  c_infer :: "'dm \<Rightarrow> 'dm \<Rightarrow> migration_step list \<Rightarrow> 'db \<Rightarrow> connector_error abort + 'm"
  c_infer_from_datamodels :: "'dm \<Rightarrow> 'dm \<Rightarrow> migration_step list \<Rightarrow> connector_error abort + 'm"
  c_step_applier :: "('db, 'm, 'j) step_applier"
  c_check :: "'m \<Rightarrow> 'db \<Rightarrow> connector_error + diagnostics"
  c_serialize :: "'m \<Rightarrow> 'j"
  c_deserialize :: "'j \<Rightarrow> 'm option"

definition engine_init :: "('dm, 'dt, 'j) codec \<Rightarrow> ('db, 'dm, 'dt, 'j, 'm) connector \<Rightarrow> ('db, unit) command" where
  "engine_init cdc con = cmd_connector cdc (c_initialize con)"

definition engine_reset :: "('dm, 'dt, 'j) codec \<Rightarrow> ('db, 'dm, 'dt, 'j, 'm) connector \<Rightarrow> ('db, unit) command" where
  "engine_reset cdc con = cmd_connector cdc (c_reset con)"

definition engine_render_datamodel :: "('dm, 'dt, 'j) codec \<Rightarrow> 'dm \<Rightarrow> ('db, string) command" where
  "engine_render_datamodel cdc dm = eff_unwrap (render_datamodel_to_string cdc dm)"

definition render_pretty ::
    "('dm, 'dt, 'j) codec \<Rightarrow> ('db, 'dm, 'dt, 'j, 'm) connector \<Rightarrow> 'm \<Rightarrow> ('db, 'j list) command" where
  "render_pretty cdc con m =
     cmd_connector cdc (\<lambda>db. map_option (\<lambda>r. (r, db)) (sa_render_steps_pretty (c_step_applier con) m))"

definition check_changes ::
    "('dm, 'dt, 'j) codec \<Rightarrow> ('db, 'dm, 'dt, 'j, 'm) connector \<Rightarrow> 'm \<Rightarrow> ('db, diagnostics) command" where
  "check_changes cdc con m = cmd_connector cdc (\<lambda>db. Some (c_check con m db, db))"

record 'j migration_steps_result =
  msr_datamodel :: string
  msr_datamodel_steps :: "migration_step list"
  msr_database_steps :: "'j list"
  msr_warnings :: "migration_warning list"
  msr_errors :: "migration_error list"
  msr_general_errors :: "string list"

subsection \<open>Applying a migration\<close>

record apply_migration_input =
  ami_migration_id :: string
  ami_steps :: "migration_step list"
  ami_force :: "bool option"

definition handle_migration ::
    "('dm, 'dt, 'j) codec \<Rightarrow> ('db \<Rightarrow> 64 word) \<Rightarrow> ('db, 'dm, 'dt, 'j, 'm) connector \<Rightarrow> apply_migration_input
       \<Rightarrow> 'dm \<Rightarrow> 'dm \<Rightarrow> ('db, 'j migration_steps_result) command" where
  "handle_migration cdc clock con input current_dm next_dm =
     eff_bind (eff_try_abort (command_error_from_connector cdc) (c_infer con current_dm next_dm (ami_steps input)))
       (\<lambda>database_migration.
     eff_bind (render_pretty cdc con database_migration) (\<lambda>database_steps_json_pretty.
     eff_bind (eff_read (\<lambda>db. migration_new cdc (clock db) (ami_migration_id input))) (\<lambda>new_migration.
     eff_bind (check_changes cdc con database_migration) (\<lambda>diagnostics.
     let migration = new_migration\<lparr>m_datamodel_steps := ami_steps input,
           m_database_migration := c_serialize con database_migration, m_datamodel := next_dm\<rparr>
     in eff_bind
          (if has_warnings diagnostics \<and> ami_force input \<noteq> Some True then eff_return ()
           else
             eff_bind (\<lambda>db. map_option (\<lambda>(m, db'). (Inr m, db')) (p_create (c_persistence con) migration db))
               (\<lambda>saved_migration. cmd_connector cdc
                  (applier_apply cdc clock (c_persistence con) (c_step_applier con) saved_migration database_migration)))
          (\<lambda>_.
     eff_bind (eff_unwrap (render_datamodel_to_string cdc next_dm)) (\<lambda>datamodel.
     eff_return
       \<lparr>msr_datamodel = datamodel, msr_datamodel_steps = ami_steps input,
        msr_database_steps = database_steps_json_pretty, msr_warnings = diag_warnings diagnostics,
        msr_errors = diag_errors diagnostics, msr_general_errors = []\<rparr>))))))"

definition handle_normal_migration ::
    "('dm, 'dt, 'j) codec \<Rightarrow> ('db \<Rightarrow> 64 word) \<Rightarrow> ('db, 'dm, 'dt, 'j, 'm) connector \<Rightarrow> apply_migration_input
       \<Rightarrow> ('db, 'j migration_steps_result) command" where
  "handle_normal_migration cdc clock con input =
     eff_bind (eff_read (\<lambda>db. map_option (current_datamodel cdc) (p_last (c_persistence con) db))) (\<lambda>current_dm.
     eff_bind (eff_read (\<lambda>db. map_option (current_datamodel_ast cdc) (p_last (c_persistence con) db))) (\<lambda>current_ast.
     eff_bind (cmd_calculate cdc (calculator_infer current_ast (ami_steps input))) (\<lambda>next_datamodel_ast.
     eff_bind (eff_try command_error_from_errors (lift_ast cdc next_datamodel_ast)) (\<lambda>next_datamodel.
     handle_migration cdc clock con input current_dm next_datamodel))))"

definition handle_transition_out_of_watch_mode ::
    "('dm, 'dt, 'j) codec \<Rightarrow> ('db \<Rightarrow> 64 word) \<Rightarrow> ('db, 'dm, 'dt, 'j, 'm) connector \<Rightarrow> apply_migration_input
       \<Rightarrow> ('db, 'j migration_steps_result) command" where
  "handle_transition_out_of_watch_mode cdc clock con input =
     eff_bind (eff_read (\<lambda>db. map_option (current_datamodel cdc) (p_last (c_persistence con) db))) (\<lambda>current_dm.
     eff_bind (eff_read (\<lambda>db. map_option last_non_watch_migration (p_load_all (c_persistence con) db))) (\<lambda>last_non_watch.
     eff_bind (cmd_calculate cdc
         (calculator_infer (case last_non_watch of Some m \<Rightarrow> datamodel_ast cdc m | None \<Rightarrow> schema_empty) (ami_steps input)))
       (\<lambda>next_datamodel_ast.
     eff_bind (eff_try command_error_from_errors (lift_ast cdc next_datamodel_ast)) (\<lambda>next_datamodel.
     handle_migration cdc clock con input current_dm next_datamodel))))"

definition apply_migration ::
    "('dm, 'dt, 'j) codec \<Rightarrow> ('db \<Rightarrow> 64 word) \<Rightarrow> ('db, 'dm, 'dt, 'j, 'm) connector \<Rightarrow> apply_migration_input
       \<Rightarrow> ('db, 'j migration_steps_result) command" where
  "apply_migration cdc clock con input =
     eff_bind (eff_read (p_last (c_persistence con))) (\<lambda>last_migration.
       case last_migration of
         Some m \<Rightarrow>
           if is_watch_migration m \<and> \<not> is_watch_name (ami_migration_id input)
           then handle_transition_out_of_watch_mode cdc clock con input
           else handle_normal_migration cdc clock con input
       | None \<Rightarrow> handle_normal_migration cdc clock con input)"

subsection \<open>Commands that only compute\<close>

record calculate_database_steps_input =
  cds_assume_to_be_applied :: "migration_step list"
  cds_steps_to_apply :: "migration_step list"

definition calculate_database_steps ::
    "('dm, 'dt, 'j) codec \<Rightarrow> ('db, 'dm, 'dt, 'j, 'm) connector \<Rightarrow> calculate_database_steps_input
       \<Rightarrow> ('db, 'j migration_steps_result) command" where
  "calculate_database_steps cdc con input =
     eff_bind (cmd_calculate cdc (calculator_infer schema_empty (cds_assume_to_be_applied input))) (\<lambda>assumed_datamodel_ast.
     eff_bind (eff_try command_error_from_errors (lift_ast cdc assumed_datamodel_ast)) (\<lambda>assumed_datamodel.
     eff_bind (cmd_calculate cdc (calculator_infer assumed_datamodel_ast (cds_steps_to_apply input))) (\<lambda>next_datamodel_ast.
     eff_bind (eff_try command_error_from_errors (lift_ast cdc next_datamodel_ast)) (\<lambda>next_datamodel.
     eff_bind (eff_try_abort (command_error_from_connector cdc)
         (c_infer con assumed_datamodel next_datamodel (cds_steps_to_apply input))) (\<lambda>database_migration.
     eff_bind (check_changes cdc con database_migration) (\<lambda>diagnostics.
     eff_bind (render_pretty cdc con database_migration) (\<lambda>database_steps_json.
     eff_bind (eff_unwrap (render_schema_ast_to_string cdc next_datamodel_ast)) (\<lambda>datamodel.
     eff_return
       \<lparr>msr_datamodel = datamodel, msr_datamodel_steps = cds_steps_to_apply input,
        msr_database_steps = database_steps_json, msr_warnings = diag_warnings diagnostics,
        msr_errors = [], msr_general_errors = []\<rparr>))))))))"

definition calculate_datamodel ::
    "('dm, 'dt, 'j) codec \<Rightarrow> migration_step list \<Rightarrow> ('db, string) command" where
  "calculate_datamodel cdc steps =
     eff_bind (cmd_calculate cdc (calculator_infer schema_empty steps)) (\<lambda>datamodel.
       eff_unwrap (render_schema_ast_to_string cdc datamodel))"

record infer_migration_steps_input =
  ims_migration_id :: string
  ims_datamodel :: string
  ims_assume_to_be_applied :: "migration_step list"

text \<open>The steps a migration returns: those of a migration out of watch mode start at the last one applied there.\<close>

definition steps_since_last_non_watch ::
    "('dm, 'dt, 'j) codec \<Rightarrow> ('db, 'dm, 'dt, 'j, 'm) connector \<Rightarrow> 'dm \<Rightarrow> schema_ast
       \<Rightarrow> ('db, migration_step list \<times> 'j list) command" where
  "steps_since_last_non_watch cdc con next_datamodel next_datamodel_ast =
     eff_bind (eff_read (\<lambda>db. map_option last_non_watch_applied_migration (p_load_all (c_persistence con) db))) (\<lambda>last_applied.
     eff_bind (eff_unwrap
         (steps_inferrer_infer (case last_applied of Some m \<Rightarrow> datamodel_ast cdc m | None \<Rightarrow> schema_empty) next_datamodel_ast))
       (\<lambda>datamodel_steps.
     eff_bind (eff_try_abort (command_error_from_connector cdc)
         (\<lambda>db. c_infer_from_datamodels con (case last_applied of Some m \<Rightarrow> m_datamodel m | None \<Rightarrow> datamodel_empty cdc)
            next_datamodel datamodel_steps)) (\<lambda>full_database_migration.
     eff_bind (render_pretty cdc con full_database_migration) (\<lambda>database_steps.
     eff_return (datamodel_steps, database_steps)))))"

definition infer_migration_steps ::
    "('dm, 'dt, 'j) codec \<Rightarrow> ('db, 'dm, 'dt, 'j, 'm) connector \<Rightarrow> infer_migration_steps_input
       \<Rightarrow> ('db, 'j migration_steps_result) command" where
  "infer_migration_steps cdc con input =
     eff_bind (eff_read (\<lambda>db. map_option (current_datamodel_ast cdc) (p_last (c_persistence con) db))) (\<lambda>current_ast.
     eff_bind (cmd_calculate cdc (calculator_infer current_ast (ims_assume_to_be_applied input))) (\<lambda>assumed_datamodel_ast.
     eff_bind (eff_try command_error_from_errors (lift_ast cdc assumed_datamodel_ast)) (\<lambda>assumed_datamodel.
     eff_bind (eff_try command_error_from_errors (parse_datamodel cdc (ims_datamodel input))) (\<lambda>next_datamodel.
     eff_bind (eff_try command_error_from_errors (parse_schema_ast cdc (ims_datamodel input))) (\<lambda>next_datamodel_ast.
     eff_bind (eff_unwrap (steps_inferrer_infer assumed_datamodel_ast next_datamodel_ast)) (\<lambda>model_migration_steps.
     eff_bind (eff_try_abort (command_error_from_connector cdc)
         (c_infer con assumed_datamodel next_datamodel model_migration_steps)) (\<lambda>database_migration.
     eff_bind (check_changes cdc con database_migration) (\<lambda>diagnostics.
     eff_bind
       (if is_watch_name (ims_migration_id input)
        then eff_bind (render_pretty cdc con database_migration) (\<lambda>steps. eff_return (model_migration_steps, steps))
        else steps_since_last_non_watch cdc con next_datamodel next_datamodel_ast)
       (\<lambda>(returned_datamodel_steps, returned_database_migration).
     eff_bind (eff_unwrap (render_datamodel_to_string cdc next_datamodel)) (\<lambda>datamodel.
     eff_return
       \<lparr>msr_datamodel = datamodel, msr_datamodel_steps = returned_datamodel_steps,
        msr_database_steps = returned_database_migration, msr_warnings = diag_warnings diagnostics,
        msr_errors = [], msr_general_errors = []\<rparr>))))))))))"

subsection \<open>Commands on the log\<close>

record 'j list_migrations_output =
  lmo_id :: string
  lmo_datamodel_steps :: "migration_step list"
  lmo_database_steps :: "'j list"
  lmo_status :: migration_status
  lmo_datamodel :: string

definition convert_migration_to_list_migration_steps_output ::
    "('dm, 'dt, 'j) codec \<Rightarrow> ('db, 'dm, 'dt, 'j, 'm) connector \<Rightarrow> ('dm, 'dt, 'j) migration
       \<Rightarrow> ('db, 'j list_migrations_output) command" where
  "convert_migration_to_list_migration_steps_output cdc con m =
     eff_bind (eff_unwrap (c_deserialize con (m_database_migration m))) (\<lambda>database_migration.
     eff_bind (render_pretty cdc con database_migration) (\<lambda>database_steps_json.
     eff_bind (engine_render_datamodel cdc (m_datamodel m)) (\<lambda>datamodel.
     eff_return
       \<lparr>lmo_id = m_name m, lmo_datamodel_steps = m_datamodel_steps m, lmo_database_steps = database_steps_json,
        lmo_status = m_status m, lmo_datamodel = datamodel\<rparr>)))"

fun cmd_map :: "('a \<Rightarrow> ('db, 'o) command) \<Rightarrow> 'a list \<Rightarrow> ('db, 'o list) command" where
  "cmd_map f [] = eff_return []"
| "cmd_map f (x # xs) = eff_bind (f x) (\<lambda>y. eff_bind (cmd_map f xs) (\<lambda>ys. eff_return (y # ys)))"

definition list_migrations ::
    "('dm, 'dt, 'j) codec \<Rightarrow> ('db, 'dm, 'dt, 'j, 'm) connector \<Rightarrow> ('db, 'j list_migrations_output list) command" where
  "list_migrations cdc con =
     eff_bind (eff_read (p_load_all (c_persistence con)))
       (cmd_map (convert_migration_to_list_migration_steps_output cdc con))"

record 'dt migration_progress_output =
  mpo_status :: migration_status
  mpo_steps :: nat
  mpo_applied :: nat
  mpo_rolled_back :: nat
  mpo_errors :: "string list"
  mpo_started_at :: 'dt
  mpo_finished_at :: "'dt option"

definition migration_progress ::
    "('db, 'dm, 'dt, 'j, 'm) connector \<Rightarrow> string \<Rightarrow> ('db, 'dt migration_progress_output) command" where
  "migration_progress con migration_id =
     eff_bind (eff_read (p_by_name (c_persistence con) migration_id)) (\<lambda>found.
     eff_bind (eff_try id (ok_or found
         (InputError 1002 (''Could not load migration from database. Migration name was: '' @ migration_id)))) (\<lambda>m.
     eff_return
       \<lparr>mpo_status = m_status m, mpo_steps = length (m_datamodel_steps m), mpo_applied = m_applied m,
        mpo_rolled_back = m_rolled_back m, mpo_errors = m_errors m, mpo_started_at = m_started_at m,
        mpo_finished_at = m_finished_at m\<rparr>))"

definition reset_command ::
    "('dm, 'dt, 'j) codec \<Rightarrow> ('db, 'dm, 'dt, 'j, 'm) connector \<Rightarrow> ('db, 'j) command" where
  "reset_command cdc con =
     eff_bind (engine_reset cdc con) (\<lambda>_. eff_bind (engine_init cdc con) (\<lambda>_. eff_return (empty_object_json cdc)))"

record unapply_migration_output =
  umo_rolled_back :: string
  umo_active :: "string option"
  umo_errors :: "string list"

definition unapply_migration ::
    "('dm, 'dt, 'j) codec \<Rightarrow> ('db, 'dm, 'dt, 'j, 'm) connector \<Rightarrow> ('db, unapply_migration_output) command" where
  "unapply_migration cdc con =
     eff_bind (eff_read (p_last (c_persistence con))) (\<lambda>last_migration.
       case last_migration of
         None \<Rightarrow> eff_return \<lparr>umo_rolled_back = ''not-applicable'', umo_active = None,
                   umo_errors = [''There is no last migration that can be rolled back.'']\<rparr>
       | Some migration_to_rollback \<Rightarrow>
           eff_bind (eff_unwrap (c_deserialize con (m_database_migration migration_to_rollback))) (\<lambda>database_migration.
           eff_bind (cmd_connector cdc
               (applier_unapply cdc (c_persistence con) (c_step_applier con) migration_to_rollback database_migration)) (\<lambda>_.
           eff_bind (eff_read (\<lambda>db. map_option (map_option m_name) (p_last (c_persistence con) db))) (\<lambda>new_active_migration.
           eff_return \<lparr>umo_rolled_back = m_name migration_to_rollback, umo_active = new_active_migration, umo_errors = []\<rparr>))))"

end
