(* ===== verification/Sql_Connector.thy ===== *)
theory Sql_Connector
  imports Commands Sql_Inferrer
begin

section \<open>The SQL connector\<close>

text \<open>
  \<open>sql-migration-connector/src/lib.rs\<close>: the connector the engine uses for PostgreSQL, MySQL and
  SQLite, put together from the parts of the other theories; \<open>libs/sql-connection/src/connection_info.rs\<close>:
  what is known of a connection from its URL. Arguments are: the libraries that parse URLs, the
  describer of the database's schema, the function that computes the schema of a datamodel, the
  counting queries, the file system and the JSON form of migrations.
\<close>

subsection \<open>Connection URLs\<close>

record database_url =
  url_dbname :: string
  url_schema :: string
  url_host :: string
  url_username :: string

datatype connection_info =
    PostgresInfo database_url
  | MysqlInfo database_url
  | SqliteInfo string "string option"

record 'u url_library =
  parse_url :: "string \<Rightarrow> quaint_error + 'u"
  url_scheme :: "'u \<Rightarrow> string"
  mysql_url_new :: "'u \<Rightarrow> quaint_error + database_url"
  postgres_url_new :: "'u \<Rightarrow> quaint_error + database_url"
  sqlite_file_path :: "string \<Rightarrow> quaint_error + string"
  database_url_is_invalid :: "string \<Rightarrow> quaint_error"

definition info_from_datasource ::
    "'u url_library \<Rightarrow> string \<Rightarrow> string \<Rightarrow> quaint_error abort + connection_info" where
  "info_from_datasource lib connector_type url =
     (if connector_type = ''mysql''
      then map_err Err (and_then (parse_url lib url) (\<lambda>u. and_then (mysql_url_new lib u) (\<lambda>m. Inr (MysqlInfo m))))
      else if connector_type = ''postgresql''
      then map_err Err (and_then (parse_url lib url) (\<lambda>u. and_then (postgres_url_new lib u) (\<lambda>p. Inr (PostgresInfo p))))
      else if connector_type = ''sqlite''
      then map_err Err (and_then (sqlite_file_path lib url) (\<lambda>file_path. Inr (SqliteInfo file_path None)))
      else Inl Panics)"

definition info_from_url_str :: "'u url_library \<Rightarrow> string \<Rightarrow> quaint_error + connection_info" where
  "info_from_url_str lib url_str =
     (case parse_url lib url_str of
        Inl _ \<Rightarrow> and_then (sqlite_file_path lib url_str) (\<lambda>file_path. Inr (SqliteInfo file_path None))
      | Inr url \<Rightarrow>
          and_then (ok_or (from_scheme (url_scheme lib url))
              (database_url_is_invalid lib (url_scheme lib url @ '' is not a supported database URL scheme.'')))
            (\<lambda>fam. case fam of
               Mysql \<Rightarrow> and_then (mysql_url_new lib url) (\<lambda>m. Inr (MysqlInfo m))
             | Sqlite \<Rightarrow> and_then (sqlite_file_path lib url_str) (\<lambda>file_path. Inr (SqliteInfo file_path None))
             | Postgres \<Rightarrow> and_then (postgres_url_new lib url) (\<lambda>p. Inr (PostgresInfo p))))"

fun info_dbname :: "connection_info \<Rightarrow> string option" where
  "info_dbname (PostgresInfo url) = Some (url_dbname url)"
| "info_dbname (MysqlInfo url) = Some (url_dbname url)"
| "info_dbname (SqliteInfo _ _) = None"

fun info_schema_name :: "connection_info \<Rightarrow> string option" where
  "info_schema_name (PostgresInfo url) = Some (url_schema url)"
| "info_schema_name (MysqlInfo url) = Some (url_dbname url)"
| "info_schema_name (SqliteInfo _ db_name) = db_name"

fun info_host :: "connection_info \<Rightarrow> string" where
  "info_host (PostgresInfo url) = url_host url"
| "info_host (MysqlInfo url) = url_host url"
| "info_host (SqliteInfo _ _) = ''localhost''"

fun info_username :: "connection_info \<Rightarrow> string option" where
  "info_username (PostgresInfo url) = Some (url_username url)"
| "info_username (MysqlInfo url) = Some (url_username url)"
| "info_username (SqliteInfo _ _) = None"

fun info_file_path :: "connection_info \<Rightarrow> string option" where
  "info_file_path (PostgresInfo _) = None"
| "info_file_path (MysqlInfo _) = None"
| "info_file_path (SqliteInfo file_path _) = Some file_path"

fun info_sql_family :: "connection_info \<Rightarrow> sql_family" where
  "info_sql_family (PostgresInfo _) = Postgres"
| "info_sql_family (MysqlInfo _) = Mysql"
| "info_sql_family (SqliteInfo _ _) = Sqlite"

subsection \<open>Databases and schemas\<close>

definition raw_or_error :: "('db, 'dt) connection \<Rightarrow> string \<Rightarrow> 'db \<Rightarrow> (connector_error + unit) \<times> 'db" where
  "raw_or_error conn sql db =
     (case conn_query_raw conn db sql of
        (Some e, db') \<Rightarrow> (Inl (connector_error_from_quaint e), db')
      | (None, db') \<Rightarrow> (Inr (), db'))"

definition connector_create_database ::
    "('db, 'dt) connection \<Rightarrow> store_config \<Rightarrow> string \<Rightarrow> 'db \<Rightarrow> (connector_error + unit) \<times> 'db" where
  "connector_create_database conn cfg db_name db =
     (case store_family cfg of
        Postgres \<Rightarrow> raw_or_error conn (''CREATE DATABASE '' @ [CHR 0x22] @ db_name @ [CHR 0x22]) db
      | Sqlite \<Rightarrow> (Inr (), db)
      | Mysql \<Rightarrow> raw_or_error conn (''CREATE DATABASE '' @ [CHR 0x60] @ db_name @ [CHR 0x60]) db)"

text \<open>
  The second argument creates the directories above a file; it has no value if that fails, on which
  the code panics.
\<close>

definition connector_initialize ::
    "('db, 'dt) connection \<Rightarrow> (string \<Rightarrow> 'db \<Rightarrow> 'db option) \<Rightarrow> make_from \<Rightarrow> store_config \<Rightarrow> 'db
       \<Rightarrow> ((connector_error + unit) \<times> 'db) option" where
  "connector_initialize conn create_parent_dirs make_from cfg db =
     Option.bind
       (case store_family cfg of
          Sqlite \<Rightarrow>
            (case store_file_path cfg of
               Some file_path \<Rightarrow> map_option (\<lambda>db'. (Inr (), db')) (create_parent_dirs file_path db)
             | None \<Rightarrow> Some (Inr (), db))
        | Postgres \<Rightarrow>
            Some (raw_or_error conn (''CREATE SCHEMA IF NOT EXISTS '' @ [CHR 0x22] @ store_schema cfg @ [CHR 0x22] @ '';'') db)
        | Mysql \<Rightarrow>
            Some (raw_or_error conn (''CREATE SCHEMA IF NOT EXISTS '' @ [CHR 0x60] @ store_schema cfg @ [CHR 0x60]
              @ '' DEFAULT CHARACTER SET latin1;'') db))
       (\<lambda>(r, db1). Some (case r of Inl e \<Rightarrow> (Inl e, db1) | Inr _ \<Rightarrow> (Inr (), store_init conn make_from cfg db1)))"

definition connector_reset ::
    "('db, 'dt) connection \<Rightarrow> store_config \<Rightarrow> 'db \<Rightarrow> ((connector_error + unit) \<times> 'db) option" where
  "connector_reset conn cfg db = map_option (\<lambda>db'. (Inr (), db')) (store_reset conn cfg db)"

subsection \<open>The connector\<close>

text \<open>What the connector calls that is not modelled, in one record.\<close>

record ('db, 'dm, 'v, 'j) sql_environment =
  env_describe :: "'db \<Rightarrow> string \<Rightarrow> sql_schema_describer_error + sql_schema"
  env_calculate :: "'dm \<Rightarrow> sql_error + sql_schema"
  env_database :: "'db \<Rightarrow> 'v database"
  env_create_parent_dirs :: "string \<Rightarrow> 'db \<Rightarrow> 'db option"
  env_make_from :: make_from
  env_pretty_to_value :: "pretty_sql_migration_step \<Rightarrow> 'j"
  env_serialize :: "sql_migration \<Rightarrow> 'j"
  env_deserialize :: "'j \<Rightarrow> sql_migration option"

definition sql_connector ::
    "('dm, 'dt, 'j) codec \<Rightarrow> ('db, 'dt) connection \<Rightarrow> ('db, 'dm, 'v, 'j) sql_environment \<Rightarrow> store_config
       \<Rightarrow> ('db, 'dm, 'dt, 'j, sql_migration) connector" where
  "sql_connector cdc conn env cfg =
     \<lparr>c_connector_type = connector_type_string (store_family cfg),
      c_initialize = connector_initialize conn (env_create_parent_dirs env) (env_make_from env) cfg,
      c_reset = connector_reset conn cfg,
      c_persistence = sql_persistence cdc conn (env_make_from env) cfg,
      c_infer = (\<lambda>prev next steps db.
        inferrer_infer (env_describe env db) (env_calculate env) (store_family cfg) (store_schema cfg) prev next),
      c_infer_from_datamodels = (\<lambda>prev next steps.
        infer_from_datamodels (env_calculate env) (store_family cfg) (store_schema cfg) prev next),
      c_step_applier = sql_step_applier (env_pretty_to_value env) conn (store_family cfg) (store_schema cfg),
      c_check = (\<lambda>m db. destructive_check (env_database env db) (store_schema cfg) m),
      c_serialize = env_serialize env,
      c_deserialize = env_deserialize env\<rparr>"

text \<open>A connection is tried with a query before the connector is made.\<close>

definition create_connector ::
    "('dm, 'dt, 'j) codec \<Rightarrow> ('db, 'dt) connection \<Rightarrow> ('db, 'dm, 'v, 'j) sql_environment \<Rightarrow> connection_info \<Rightarrow> 'db
       \<Rightarrow> (connector_error + ('db, 'dm, 'dt, 'j, sql_migration) connector) \<times> 'db" where
  "create_connector cdc conn env info db =
     (case raw_or_error conn ''SELECT 1'' db of
        (Inl e, db') \<Rightarrow> (Inl e, db')
      | (Inr _, db') \<Rightarrow>
          (Inr (sql_connector cdc conn env
             \<lparr>store_family = info_sql_family info,
              store_schema = (case info_schema_name info of Some s \<Rightarrow> s | None \<Rightarrow> ''lift''),
              store_file_path = info_file_path info\<rparr>), db'))"

end
