(* ===== verification/Applied_Migrations.thy ===== *)
theory Applied_Migrations
  imports Migration_Applier
begin

section \<open>What applying and unapplying a migration does\<close>

text \<open>
  The loops of the applier meet their contract with the SQL connector. Its steps are executed in
  order until one fails, each exactly once, and the log records how it ended.
\<close>

subsection \<open>The SQL connector\<close>

text \<open>
  The connection keeps two things apart: the statements of a migration change the \<open>data\<close> of the
  database as \<open>exec\<close> says and leave the table of migrations alone, and updating this table leaves
  the data alone.
\<close>

definition separate ::
    "('db, 'dt) connection \<Rightarrow> table_ref \<Rightarrow> ('db \<Rightarrow> 'dt row list option) \<Rightarrow> ('db \<Rightarrow> 'd)
       \<Rightarrow> ('d \<Rightarrow> string \<Rightarrow> quaint_error option \<times> 'd) \<Rightarrow> string list \<Rightarrow> bool" where
  "separate conn tab rows data exec sqls \<longleftrightarrow>
     (\<forall>db sql. sql \<in> set sqls \<longrightarrow> rows (snd (conn_query_raw conn db sql)) = rows db
        \<and> exec (data db) sql = (fst (conn_query_raw conn db sql), data (snd (conn_query_raw conn db sql))))
     \<and> (\<forall>db vals conds db'. conn_update conn db \<lparr>upd_table = tab, upd_values = vals, upd_conditions = conds\<rparr> = Some db'
          \<longrightarrow> data db' = data db)"

definition render_all :: "store_config \<Rightarrow> sql_migration_step list \<Rightarrow> string list option" where
  "render_all cfg steps = map_opt (\<lambda>s. render_raw_sql s (store_family cfg) (store_schema cfg)) steps"

definition sql_run_log ::
    "('dm, 'dt, 'j) codec \<Rightarrow> ('db, 'dt) connection \<Rightarrow> store_config \<Rightarrow> nat \<Rightarrow> ('db \<Rightarrow> 'dt row list option) \<Rightarrow> ('db \<Rightarrow> 'd)
       \<Rightarrow> ('d \<Rightarrow> string \<Rightarrow> quaint_error option \<times> 'd) \<Rightarrow> sql_migration_step list \<Rightarrow> string list
       \<Rightarrow> 'db \<Rightarrow> ('dm, 'dt, 'j) migration list \<Rightarrow> bool" where
  "sql_run_log cdc conn cfg capacity rows data exec steps sqls db ms \<longleftrightarrow>
     sql_log cdc conn cfg capacity rows db ms \<and> render_all cfg steps = Some sqls
     \<and> separate conn (store_table cfg) rows data exec sqls"

abbreviation sql_error_conversion :: "quaint_error \<Rightarrow> connector_error" where
  "sql_error_conversion e \<equiv> connector_error_from_sql (sql_error_from_quaint e)"

lemma migration_log_and:
  assumes "migration_log pers log creatable updatable"
  shows "migration_log pers (\<lambda>db ms. log db ms \<and> P) creatable updatable"
  using assms by (cases P) (simp, simp add: migration_log_def)

lemma sql_run_migration_log:
  "migration_log (sql_persistence cdc conn make_from cfg) (sql_run_log cdc conn cfg capacity rows data exec steps sqls)
     (sql_creatable cdc (store_family cfg) capacity) (sql_updatable cdc (store_family cfg))"
  unfolding sql_run_log_def by (rule migration_log_and [OF sql_store.migration_log_axioms])

lemma map_opt_nth: "map_opt f xs = Some ys \<Longrightarrow> i < length xs \<Longrightarrow> f (xs ! i) = Some (ys ! i)"
  by (induction xs arbitrary: ys i) (auto simp: nth_Cons bind_eq_Some_conv split: nat.splits)

lemma map_opt_length: "map_opt f xs = Some ys \<Longrightarrow> length ys = length xs"
  by (induction xs arbitrary: ys) (auto simp: bind_eq_Some_conv)

lemma next_step_end:
  assumes "render_all cfg steps = Some sqls" "length sqls \<le> i"
  shows "apply_next_step conn (store_family cfg) (store_schema cfg) steps i db = Some (Inr False, db)"
  using assms map_opt_length [of _ steps sqls] by (simp add: apply_next_step_def render_all_def)

lemma next_step_run:
  assumes "sql_run_log cdc conn cfg capacity rows data exec steps sqls db ms" "i < length sqls"
    and "exec (data db) (sqls ! i) = (e, d)"
  shows "\<exists>db'. apply_next_step conn (store_family cfg) (store_schema cfg) steps i db
      = Some (case e of None \<Rightarrow> Inr (Suc i < length sqls) | Some x \<Rightarrow> Inl (sql_error_from_quaint x), db')
    \<and> sql_run_log cdc conn cfg capacity rows data exec steps sqls db' ms \<and> data db' = d"
proof -
  have r: "render_all cfg steps = Some sqls" and sep: "separate conn (store_table cfg) rows data exec sqls"
    using assms(1) by (auto simp: sql_run_log_def)
  have len: "length steps = length sqls" using map_opt_length [OF r [unfolded render_all_def]] by simp
  have sql: "render_raw_sql (steps ! i) (store_family cfg) (store_schema cfg) = Some (sqls ! i)"
    using map_opt_nth [OF r [unfolded render_all_def], of i] assms(2) len by simp
  obtain db' where db': "conn_query_raw conn db (sqls ! i) = (e, db')" "rows db' = rows db" "data db' = d"
    using sep assms(2,3) unfolding separate_def by (metis fst_conv nth_mem prod.collapse snd_conv)
  then have "sql_run_log cdc conn cfg capacity rows data exec steps sqls db' ms"
    using assms(1) by (simp add: sql_run_log_def sql_log_def)
  with db' sql assms(2) len show ?thesis by (cases e) (simp_all add: apply_next_step_def)
qed

lemma sql_update_data:
  assumes "sql_run_log cdc conn cfg capacity rows data exec steps sqls db ms"
    and "p_update (sql_persistence cdc conn make_from cfg) p db = Some db'"
  shows "data db' = data db"
  using assms by (auto simp: sql_run_log_def separate_def sql_persistence_def store_update_def)

lemma step_as_connector:
  assumes "\<exists>db'. s = Some (case e of None \<Rightarrow> Inr b | Some x \<Rightarrow> Inl (f x), db') \<and> P db'"
  shows "\<exists>db'. map_option (map_prod (map_err g) id) s = Some (case e of None \<Rightarrow> Inr b | Some x \<Rightarrow> Inl (g (f x)), db') \<and> P db'"
  using assms by (cases e) auto

lemma sql_counted_loop:
  assumes "\<And>i p db. go i p db = Option.bind (map_option (map_prod (map_err connector_error_from_sql) id)
        (apply_next_step conn (store_family cfg) (store_schema cfg) steps i db)) (\<lambda>(r, db1).
      case r of
        Inl e \<Rightarrow> Some (Inl e, p, db1)
      | Inr b \<Rightarrow> if b then Option.bind (p_update (sql_persistence cdc conn make_from cfg) (bump p) db1) (go (Suc i) (bump p))
                 else Some (Inr (), p, db1))"
    and "\<And>p. up_name (bump p) = up_name p \<and> up_new_name (bump p) = up_new_name p \<and> up_revision (bump p) = up_revision p"
  shows "counted_loop (sql_persistence cdc conn make_from cfg) (sql_run_log cdc conn cfg capacity rows data exec steps sqls)
    (sql_creatable cdc (store_family cfg) capacity) (sql_updatable cdc (store_family cfg)) go
    (\<lambda>i db. map_option (map_prod (map_err connector_error_from_sql) id)
       (apply_next_step conn (store_family cfg) (store_schema cfg) steps i db))
    bump sqls exec data sql_error_conversion"
proof (intro counted_loop.intro sql_run_migration_log counted_loop_axioms.intro, goal_cases)
  case (1 i p db)
  show ?case by (rule assms(1))
next
  case (2 db ms i)
  then have "render_all cfg steps = Some sqls" by (simp add: sql_run_log_def)
  then show ?case using 2(2) by (simp add: next_step_end)
next
  case (3 db ms i e d)
  then show ?case by (intro step_as_connector next_step_run)
next
  case (4 db ms p db')
  then show ?case by (rule sql_update_data)
qed (simp_all add: assms(2))

interpretation forward: counted_loop "sql_persistence cdc conn make_from cfg"
  "sql_run_log cdc conn cfg capacity rows data exec (mig_corrected_steps mig) sqls"
  "sql_creatable cdc (store_family cfg) capacity" "sql_updatable cdc (store_family cfg)"
  "go_forward (sql_persistence cdc conn make_from cfg)
     (sql_step_applier to_value conn (store_family cfg) (store_schema cfg)) mig"
  "\<lambda>i db. map_option (map_prod (map_err connector_error_from_sql) id)
     (apply_next_step conn (store_family cfg) (store_schema cfg) (mig_corrected_steps mig) i db)"
  "\<lambda>p. p\<lparr>up_applied := up_applied p + 1\<rparr>" sqls exec data sql_error_conversion
  for cdc conn make_from cfg capacity rows data exec mig sqls to_value
  by (rule sql_counted_loop, subst go_forward_eq) (simp_all add: sql_step_applier_def sql_apply_step_def)

interpretation backward: counted_loop "sql_persistence cdc conn make_from cfg"
  "sql_run_log cdc conn cfg capacity rows data exec (mig_rollback mig) sqls"
  "sql_creatable cdc (store_family cfg) capacity" "sql_updatable cdc (store_family cfg)"
  "go_backward (sql_persistence cdc conn make_from cfg)
     (sql_step_applier to_value conn (store_family cfg) (store_schema cfg)) mig"
  "\<lambda>i db. map_option (map_prod (map_err connector_error_from_sql) id)
     (apply_next_step conn (store_family cfg) (store_schema cfg) (mig_rollback mig) i db)"
  "\<lambda>p. p\<lparr>up_rolled_back := up_rolled_back p + 1\<rparr>" sqls exec data sql_error_conversion
  for cdc conn make_from cfg capacity rows data exec mig sqls to_value
  by (rule sql_counted_loop, subst go_backward_eq) (simp_all add: sql_step_applier_def sql_unapply_step_def)

subsection \<open>The two operations\<close>

text \<open>The entry of a migration when the applier is done with it.\<close>

definition applied_params ::
    "('dm, 'dt, 'j) codec \<Rightarrow> 'dt \<Rightarrow> quaint_error option \<Rightarrow> nat \<Rightarrow> ('dm, 'dt, 'j) migration \<Rightarrow> 'dt update_params" where
  "applied_params cdc t e k m =
     (let p = (migration_update_params m)\<lparr>up_applied := m_applied m + counted e k\<rparr>
      in case e of
           None \<Rightarrow> p\<lparr>up_status := MigrationSuccess, up_finished_at := Some t\<rparr>
         | Some x \<Rightarrow> p\<lparr>up_status := MigrationFailure, up_errors := [debug_connector_error cdc (sql_error_conversion x)]\<rparr>)"

definition unapplied_params ::
    "('dm, 'dt, 'j) codec \<Rightarrow> quaint_error option \<Rightarrow> nat \<Rightarrow> ('dm, 'dt, 'j) migration \<Rightarrow> 'dt update_params" where
  "unapplied_params cdc e k m =
     (let p = (migration_update_params m)\<lparr>up_rolled_back := m_rolled_back m + counted e k\<rparr>
      in case e of
           None \<Rightarrow> p\<lparr>up_status := RollbackSuccess\<rparr>
         | Some x \<Rightarrow> p\<lparr>up_status := RollbackFailure, up_errors := [debug_connector_error cdc (sql_error_conversion x)]\<rparr>)"

text \<open>
  The numbers of a migration stay in range while its steps are counted, its errors can be stored,
  and the clock gives times that can be stored.
\<close>

definition countable_steps :: "('dm, 'dt, 'j) codec \<Rightarrow> sql_family \<Rightarrow> nat \<Rightarrow> ('dm, 'dt, 'j) migration \<Rightarrow> bool" where
  "countable_steps cdc fam n m \<longleftrightarrow>
     i64_range (m_revision m) \<and> i64_range (m_applied m + n) \<and> i64_range (m_rolled_back m + n)
     \<and> errors_survive cdc (m_errors m) \<and> (\<forall>t. m_finished_at m = Some t \<longrightarrow> storable_date cdc fam t)"

definition errors_storable :: "('dm, 'dt, 'j) codec \<Rightarrow> bool" where
  "errors_storable cdc \<longleftrightarrow> (\<forall>e. errors_survive cdc [debug_connector_error cdc e])"

definition clock_storable :: "('dm, 'dt, 'j) codec \<Rightarrow> sql_family \<Rightarrow> ('db \<Rightarrow> 64 word) \<Rightarrow> bool" where
  "clock_storable cdc fam clock \<longleftrightarrow>
     (\<forall>db. \<exists>t. timestamp_without_nanos cdc (clock db) = Some t \<and> storable_date cdc fam t)"

lemma bump_applied_funpow:
  "((\<lambda>p. p\<lparr>up_applied := up_applied p + 1\<rparr>) ^^ k) p = p\<lparr>up_applied := up_applied p + k\<rparr>"
  by (induction k) simp_all

lemma bump_rolled_back_funpow:
  "((\<lambda>p. p\<lparr>up_rolled_back := up_rolled_back p + 1\<rparr>) ^^ k) p = p\<lparr>up_rolled_back := up_rolled_back p + k\<rparr>"
  by (induction k) simp_all

lemma execute_count: "execute exec ss d = (e, k, d') \<Longrightarrow> k \<le> length ss"
  by (induction ss arbitrary: d k) (auto split: prod.splits option.splits)

lemma counted_le: "execute exec ss d = (e, k, d') \<Longrightarrow> counted e k \<le> length ss"
  using execute_count [of exec ss d e k d'] by (cases e) (simp_all add: counted_def)

lemma i64_range_mono: "i64_range n \<Longrightarrow> k \<le> n \<Longrightarrow> i64_range k"
  by (simp add: i64_range_def)

lemma apply_log:
  assumes "sql_run_log cdc conn cfg capacity rows data exec (mig_corrected_steps mig) sqls db (ms @ x # ms')"
    and "m_name x = m_name m" "m_revision x = m_revision m" "m_status m = Pending"
    and "countable_steps cdc (store_family cfg) (length sqls) m" "errors_storable cdc"
    and "clock_storable cdc (store_family cfg) clock" "execute exec sqls (data db) = (e, k, d)"
  shows "\<exists>db' t. applier_apply cdc clock (sql_persistence cdc conn make_from cfg)
      (sql_step_applier to_value conn (store_family cfg) (store_schema cfg)) m mig db
        = Some (outcome sql_error_conversion e, db') \<and> data db' = d
    \<and> sql_run_log cdc conn cfg capacity rows data exec (mig_corrected_steps mig) sqls db'
        (ms @ update_entry (applied_params cdc t e k m) x # ms')"
proof -
  let ?pers = "sql_persistence cdc conn make_from cfg" and ?ok = "sql_updatable cdc (store_family cfg)"
  define p where "p = (migration_update_params m)\<lparr>up_status := MigrationInProgress\<rparr>"
  have keys: "up_name p = m_name x" "up_new_name p = m_name x" "up_revision p = m_revision x" and pc: "up_applied p = m_applied m"
    using assms(2,3) by (simp_all add: p_def migration_update_params_def)
  have ok: "?ok (p\<lparr>up_applied := m_applied m + j\<rparr>)" if "j \<le> length sqls" for j
    using assms(5) that
    by (auto simp: p_def migration_update_params_def sql_updatable_def countable_steps_def elim: i64_range_mono)
  have okp: "?ok p" using ok [of 0] by (simp add: p_def migration_update_params_def)
  have "\<forall>j<length sqls. ?ok (((\<lambda>p. p\<lparr>up_applied := up_applied p + 1\<rparr>) ^^ Suc j) p)"
    unfolding bump_applied_funpow pc by (intro allI impI ok) simp
  from forward.tracked_run [OF assms(1) keys okp this assms(8), where make_from = make_from and to_value = to_value,
      unfolded bump_applied_funpow pc]
  obtain db1 db2 where run: "p_update ?pers p db = Some db1"
    "go_forward ?pers (sql_step_applier to_value conn (store_family cfg) (store_schema cfg)) mig 0 p db1
       = Some (outcome sql_error_conversion e, p\<lparr>up_applied := m_applied m + counted e k\<rparr>, db2)"
    "\<And>f. ?ok f \<Longrightarrow> up_name f = m_name x \<Longrightarrow> up_revision f = m_revision x \<Longrightarrow> \<exists>db3. p_update ?pers f db2 = Some db3
       \<and> sql_run_log cdc conn cfg capacity rows data exec (mig_corrected_steps mig) sqls db3 (ms @ update_entry f x # ms')
       \<and> data db3 = d" by blast
  obtain t where t: "timestamp_without_nanos cdc (clock db2) = Some t" "storable_date cdc (store_family cfg) t"
    using assms(7) by (auto simp: clock_storable_def)
  define f where "f = applied_params cdc t e k m"
  have "?ok f" "up_name f = m_name x" "up_revision f = m_revision x"
    using ok [OF counted_le [OF assms(8)]] t(2) assms(2,3,6)
    by (auto simp: f_def applied_params_def Let_def p_def migration_update_params_def sql_updatable_def
        errors_storable_def split: option.split)
  from run(3) [OF this] obtain db3 where db3: "p_update ?pers f db2 = Some db3" "data db3 = d"
    "sql_run_log cdc conn cfg capacity rows data exec (mig_corrected_steps mig) sqls db3 (ms @ update_entry f x # ms')"
    by blast
  then show ?thesis
    using assms(4) run(1,2) t(1) unfolding f_def
    by (intro exI [of _ db3] exI [of _ t]; cases e)
       (simp_all add: applier_apply_def outcome_def mark_as_finished_def applied_params_def Let_def p_def migration_update_params_def)
qed

lemma unapply_log:
  assumes "sql_run_log cdc conn cfg capacity rows data exec (mig_rollback mig) sqls db (ms @ x # ms')"
    and "m_name x = m_name m" "m_revision x = m_revision m" "m_status m = MigrationSuccess"
    and "countable_steps cdc (store_family cfg) (length sqls) m" "errors_storable cdc"
    and "execute exec sqls (data db) = (e, k, d)"
  shows "\<exists>db'. applier_unapply cdc (sql_persistence cdc conn make_from cfg)
      (sql_step_applier to_value conn (store_family cfg) (store_schema cfg)) m mig db
        = Some (outcome sql_error_conversion e, db') \<and> data db' = d
    \<and> sql_run_log cdc conn cfg capacity rows data exec (mig_rollback mig) sqls db'
        (ms @ update_entry (unapplied_params cdc e k m) x # ms')"
proof -
  let ?pers = "sql_persistence cdc conn make_from cfg" and ?ok = "sql_updatable cdc (store_family cfg)"
  define p where "p = (migration_update_params m)\<lparr>up_status := RollingBack\<rparr>"
  have keys: "up_name p = m_name x" "up_new_name p = m_name x" "up_revision p = m_revision x" and pc: "up_rolled_back p = m_rolled_back m"
    using assms(2,3) by (simp_all add: p_def migration_update_params_def)
  have ok: "?ok (p\<lparr>up_rolled_back := m_rolled_back m + j\<rparr>)" if "j \<le> length sqls" for j
    using assms(5) that
    by (auto simp: p_def migration_update_params_def sql_updatable_def countable_steps_def elim: i64_range_mono)
  have okp: "?ok p" using ok [of 0] by (simp add: p_def migration_update_params_def)
  have "\<forall>j<length sqls. ?ok (((\<lambda>p. p\<lparr>up_rolled_back := up_rolled_back p + 1\<rparr>) ^^ Suc j) p)"
    unfolding bump_rolled_back_funpow pc by (intro allI impI ok) simp
  from backward.tracked_run [OF assms(1) keys okp this assms(7), where make_from = make_from and to_value = to_value,
      unfolded bump_rolled_back_funpow pc]
  obtain db1 db2 where run: "p_update ?pers p db = Some db1"
    "go_backward ?pers (sql_step_applier to_value conn (store_family cfg) (store_schema cfg)) mig 0 p db1
       = Some (outcome sql_error_conversion e, p\<lparr>up_rolled_back := m_rolled_back m + counted e k\<rparr>, db2)"
    "\<And>f. ?ok f \<Longrightarrow> up_name f = m_name x \<Longrightarrow> up_revision f = m_revision x \<Longrightarrow> \<exists>db3. p_update ?pers f db2 = Some db3
       \<and> sql_run_log cdc conn cfg capacity rows data exec (mig_rollback mig) sqls db3 (ms @ update_entry f x # ms')
       \<and> data db3 = d" by blast
  define f where "f = unapplied_params cdc e k m"
  have "?ok f" "up_name f = m_name x" "up_revision f = m_revision x"
    using ok [OF counted_le [OF assms(7)]] assms(2,3,6)
    by (auto simp: f_def unapplied_params_def Let_def p_def migration_update_params_def sql_updatable_def
        errors_storable_def split: option.split)
  from run(3) [OF this] obtain db3 where db3: "p_update ?pers f db2 = Some db3" "data db3 = d"
    "sql_run_log cdc conn cfg capacity rows data exec (mig_rollback mig) sqls db3 (ms @ update_entry f x # ms')"
    by blast
  then show ?thesis
    using assms(4) run(1,2) unfolding f_def
    by (intro exI [of _ db3]; cases e)
       (simp_all add: applier_unapply_def outcome_def unapplied_params_def Let_def p_def migration_update_params_def)
qed

subsection \<open>Properties\<close>

text \<open>C25: Applying a pending migration returns, without a panic: its statements are sent to the database in
  order, each once, up to the first that fails. If none fails the log has the migration as successful,
  otherwise as failed with that error, which is also returned; the other entries are unchanged. The
  counter of applied steps is the number of statements that succeeded, except that it stays one short
  for a migration that was applied completely.\<close>

theorem apply_executes_in_order:
  assumes "sql_run_log cdc conn cfg capacity rows data exec (mig_corrected_steps mig) sqls db (ms @ x # ms')"
    and "m_name x = m_name m" "m_revision x = m_revision m" "m_status m = Pending"
    and "countable_steps cdc (store_family cfg) (length sqls) m" "errors_storable cdc"
    and "clock_storable cdc (store_family cfg) clock" "execute exec sqls (data db) = (e, k, d)"
  shows "\<exists>db' y. applier_apply cdc clock (sql_persistence cdc conn make_from cfg)
      (sql_step_applier to_value conn (store_family cfg) (store_schema cfg)) m mig db
        = Some (outcome sql_error_conversion e, db') \<and> data db' = d
    \<and> store_load_all cdc conn cfg db' = Some (ms @ y # ms')
    \<and> m_status y = (if e = None then MigrationSuccess else MigrationFailure)
    \<and> m_applied y = m_applied m + (if e = None then length sqls - 1 else k)
    \<and> m_errors y = (case e of None \<Rightarrow> m_errors m | Some x \<Rightarrow> [debug_connector_error cdc (sql_error_conversion x)])"
proof -
  obtain db' t where a: "applier_apply cdc clock (sql_persistence cdc conn make_from cfg)
      (sql_step_applier to_value conn (store_family cfg) (store_schema cfg)) m mig db
        = Some (outcome sql_error_conversion e, db')" "data db' = d"
    and log: "sql_run_log cdc conn cfg capacity rows data exec (mig_corrected_steps mig) sqls db'
        (ms @ update_entry (applied_params cdc t e k m) x # ms')"
    using apply_log [OF assms] by blast
  have "store_load_all cdc conn cfg db' = Some (ms @ update_entry (applied_params cdc t e k m) x # ms')"
    using forward.load_all_log [OF log] by (simp add: sql_persistence_def)
  with a show ?thesis
    using assms(2,3,8) execute_all [of exec sqls "data db" k d]
    by (cases e; intro exI [of _ db'] exI [of _ "update_entry (applied_params cdc t e k m) x"])
       (simp_all add: update_entry_def applied_params_def migration_update_params_def counted_def)
qed

definition ex_exec :: "(string \<Rightarrow> bool) \<Rightarrow> string list \<Rightarrow> string \<Rightarrow> quaint_error option \<times> string list" where
  "ex_exec fails d sql = (if fails sql then (Some QTimeout, d) else (None, d @ [sql]))"

definition ex_sql_migration :: "string list \<Rightarrow> string list \<Rightarrow> sql_migration" where
  "ex_sql_migration sqls rollback =
     sql_migration_empty\<lparr>mig_corrected_steps := map RawSql sqls, mig_rollback := map RawSql rollback\<rparr>"

lemma ex_sql_migration_steps:
  "mig_corrected_steps (ex_sql_migration sqls rollback) = map RawSql sqls"
  "mig_rollback (ex_sql_migration sqls rollback) = map RawSql rollback"
  by (simp_all add: ex_sql_migration_def)

lemma ex_separate: "separate (ex_connection fails) tab ex_rows ex_done (ex_exec fails) sqls"
  by (auto simp: separate_def ex_connection_def ex_exec_def ex_rows_def)

lemma ex_render_all: "render_all cfg (map RawSql sqls) = Some sqls"
  by (induction sqls) (simp_all add: render_all_def)

lemma ex_readable [simp]: "i64_range r \<Longrightarrow> readable ex_codec Postgres (ex_migration n s r)"
  by (simp add: readable_def ex_migration_def ex_codec_def i64_range_def storable_date_def json_defs)

lemma ex_run_log:
  assumes "map m_revision ms = [1..<Suc (length ms)]" "length ms < 100" "\<forall>m\<in>set ms. readable ex_codec Postgres m"
  shows "sql_run_log ex_codec (ex_connection fails) ex_config 100 ex_rows ex_done (ex_exec fails) (map RawSql sqls) sqls
    (ex_stored ms) ms"
  using ex_log [OF assms] by (simp add: sql_run_log_def ex_separate ex_render_all)

lemma ex_hypotheses:
  "errors_storable ex_codec" "clock_storable ex_codec Postgres clock"
  "r < 100 \<Longrightarrow> n < 100 \<Longrightarrow> countable_steps ex_codec Postgres n (ex_migration name s r)"
  by (simp_all add: errors_storable_def clock_storable_def countable_steps_def ex_codec_def errors_survive_def
      timestamp_without_nanos_def storable_date_def ex_migration_def i64_range_def)

theorem apply_executes_in_order_witness:
  "\<exists>db' y. applier_apply ex_codec (\<lambda>_. 0) (sql_persistence ex_codec (ex_connection (\<lambda>s. s = ''c'')) (\<lambda>_ _ _ _ _. []) ex_config)
      (sql_step_applier (\<lambda>_. []) (ex_connection (\<lambda>s. s = ''c'')) Postgres ''public'')
      (ex_migration ''two'' Pending 2) (ex_sql_migration [''a'', ''b'', ''c'', ''d''] [])
      (ex_stored [ex_migration ''one'' MigrationSuccess 1, ex_migration ''two'' Pending 2])
        = Some (Inl ConnectorTimeout, db') \<and> ex_done db' = [''a'', ''b'']
    \<and> store_load_all ex_codec (ex_connection (\<lambda>s. s = ''c'')) ex_config db' = Some [ex_migration ''one'' MigrationSuccess 1, y]
    \<and> m_status y = MigrationFailure \<and> m_applied y = 2 \<and> m_errors y = [''error'']"
proof -
  let ?fails = "\<lambda>s :: string. s = ''c''" and ?sqls = "[''a'', ''b'', ''c'', ''d'']"
  let ?ms = "[ex_migration ''one'' MigrationSuccess 1] @ ex_migration ''two'' Pending 2 # []"
  let ?mig = "ex_sql_migration ?sqls []" and ?m = "ex_migration ''two'' Pending 2"
  have "map m_revision ?ms = [1..<Suc (length ?ms)]" by (simp add: ex_migration_def)
  then have log: "sql_run_log ex_codec (ex_connection ?fails) ex_config 100 ex_rows ex_done (ex_exec ?fails)
      (mig_corrected_steps ?mig) ?sqls (ex_stored ?ms) ?ms"
    unfolding ex_sql_migration_steps by (rule ex_run_log) (simp_all add: i64_range_def)
  have ex: "execute (ex_exec ?fails) ?sqls (ex_done (ex_stored ?ms)) = (Some QTimeout, 2, [''a'', ''b''])"
    by (simp add: ex_exec_def ex_stored_def)
  have fam: "store_family ex_config = Postgres" "store_schema ex_config = ''public''" by (simp_all add: ex_config_def)
  have m: "m_status ?m = Pending" "m_applied ?m = 0" by (simp_all add: ex_migration_def)
  have c: "countable_steps ex_codec (store_family ex_config) (length ?sqls) ?m"
    "clock_storable ex_codec (store_family ex_config) (\<lambda>_. 0)"
    unfolding fam by (rule ex_hypotheses; simp)+
  have "debug_connector_error ex_codec e = ''error''" for e by (simp add: ex_codec_def)
  then show ?thesis
    using apply_executes_in_order [of ex_codec "ex_connection ?fails" ex_config 100 ex_rows ex_done "ex_exec ?fails" ?mig
        ?sqls "ex_stored ?ms" "[ex_migration ''one'' MigrationSuccess 1]" ?m "[]" ?m "\<lambda>_. 0" "Some QTimeout" 2
        "[''a'', ''b'']" "\<lambda>_ _ _ _ _. []" "\<lambda>_. []", OF log refl refl m(1) c(1) ex_hypotheses(1) c(2) ex]
    unfolding fam m(2) by (simp add: outcome_def numeral_2_eq_2)
qed

text \<open>C26: A migration that was applied can be taken back: if its statements and then those of its rollback
  succeed, unapplying the migration the log names as the last one returns as well. All statements of
  the rollback are executed on the data the migration left, and the last migration is again the one
  before.\<close>

theorem apply_then_unapply:
  assumes "sql_log cdc conn cfg capacity rows db (ms @ [m])" "m_status m = Pending"
    and "render_all cfg (mig_corrected_steps mig) = Some sqls" "render_all cfg (mig_rollback mig) = Some back_sqls"
    and "separate conn (store_table cfg) rows data exec (sqls @ back_sqls)"
    and "i64_range (m_applied m + length sqls + length back_sqls)" "i64_range (m_rolled_back m + length sqls + length back_sqls)"
    and "errors_storable cdc" "clock_storable cdc (store_family cfg) clock"
    and "execute exec sqls (data db) = (None, k, d)" "execute exec back_sqls d = (None, k', d')"
  shows "\<exists>db1 y db2. applier_apply cdc clock (sql_persistence cdc conn make_from cfg)
        (sql_step_applier to_value conn (store_family cfg) (store_schema cfg)) m mig db = Some (Inr (), db1)
    \<and> store_last cdc conn cfg db1 = Some (Some y) \<and> m_name y = m_name m
    \<and> applier_unapply cdc (sql_persistence cdc conn make_from cfg)
        (sql_step_applier to_value conn (store_family cfg) (store_schema cfg)) y mig db1 = Some (Inr (), db2)
    \<and> data db2 = d' \<and> store_last cdc conn cfg db2 = store_last cdc conn cfg db"
proof -
  let ?fam = "store_family cfg"
  have sep: "separate conn (store_table cfg) rows data exec sqls" "separate conn (store_table cfg) rows data exec back_sqls"
    using assms(5) by (simp_all add: separate_def)
  have log: "sql_run_log cdc conn cfg capacity rows data exec (mig_corrected_steps mig) sqls db (ms @ m # [])"
    using assms(1,3) sep(1) by (simp add: sql_run_log_def)
  have "readable cdc ?fam m" using assms(1) by (simp add: sql_log_def)
  then have "countable_steps cdc ?fam (length sqls) m"
    using assms(6,7) by (auto simp: countable_steps_def readable_def elim: i64_range_mono)
  from apply_log [OF log refl refl assms(2) this assms(8,9,10), of make_from to_value]
  obtain db1 t where db1: "applier_apply cdc clock (sql_persistence cdc conn make_from cfg)
      (sql_step_applier to_value conn ?fam (store_schema cfg)) m mig db = Some (Inr (), db1)" "data db1 = d"
    "sql_run_log cdc conn cfg capacity rows data exec (mig_corrected_steps mig) sqls db1
       (ms @ [update_entry (applied_params cdc t None k m) m])"
    by (auto simp: outcome_def)
  define y where "y = update_entry (applied_params cdc t None k m) m"
  have y: "m_name y = m_name m" "m_status y = MigrationSuccess" "m_applied y = m_applied m + (k - 1)" "m_rolled_back y = m_rolled_back m"
    by (simp_all add: y_def update_entry_def applied_params_def migration_update_params_def counted_def)
  have log1: "sql_log cdc conn cfg capacity rows db1 (ms @ [y])" using db1(3) by (simp add: sql_run_log_def y_def)
  then have "readable cdc ?fam y" by (simp add: sql_log_def)
  then have "countable_steps cdc ?fam (length back_sqls) y"
    using assms(6,7) y(3,4) execute_all [OF assms(10)]
    by (auto simp: countable_steps_def readable_def elim: i64_range_mono)
  moreover have "sql_run_log cdc conn cfg capacity rows data exec (mig_rollback mig) back_sqls db1 (ms @ y # [])"
    using log1 assms(4) sep(2) by (simp add: sql_run_log_def)
  moreover have "execute exec back_sqls (data db1) = (None, k', d')" using assms(11) db1(2) by simp
  ultimately obtain db2 where db2: "applier_unapply cdc (sql_persistence cdc conn make_from cfg)
      (sql_step_applier to_value conn ?fam (store_schema cfg)) y mig db1 = Some (Inr (), db2)" "data db2 = d'"
    "sql_log cdc conn cfg capacity rows db2 (ms @ [update_entry (unapplied_params cdc None k' y) y])"
    using unapply_log [OF _ refl refl y(2) _ assms(8), of conn cfg capacity rows data exec mig back_sqls db1 ms "[]" None k' d'
        make_from to_value] by (auto simp: outcome_def sql_run_log_def)
  have "store_last cdc conn cfg db1 = Some (Some y)"
    using sql_store.last_log [OF log1] y(2) by (simp add: sql_persistence_def is_successful_def)
  moreover have "store_last cdc conn cfg db2 = store_last cdc conn cfg db"
    using sql_store.last_log [OF db2(3)] sql_store.last_log [OF assms(1)] assms(2)
    by (simp add: sql_persistence_def is_successful_def update_entry_def unapplied_params_def migration_update_params_def)
  ultimately show ?thesis using db1(1) db2(1,2) y(1) by blast
qed

theorem apply_then_unapply_witness:
  "\<exists>db1 y db2. applier_apply ex_codec (\<lambda>_. 0) (sql_persistence ex_codec (ex_connection (\<lambda>_. False)) (\<lambda>_ _ _ _ _. []) ex_config)
        (sql_step_applier (\<lambda>_. []) (ex_connection (\<lambda>_. False)) (store_family ex_config) (store_schema ex_config))
        (ex_migration ''two'' Pending 2) (ex_sql_migration [''a'', ''b''] [''c''])
        (ex_stored [ex_migration ''one'' MigrationSuccess 1, ex_migration ''two'' Pending 2]) = Some (Inr (), db1)
    \<and> store_last ex_codec (ex_connection (\<lambda>_. False)) ex_config db1 = Some (Some y) \<and> m_name y = ''two''
    \<and> applier_unapply ex_codec (sql_persistence ex_codec (ex_connection (\<lambda>_. False)) (\<lambda>_ _ _ _ _. []) ex_config)
        (sql_step_applier (\<lambda>_. []) (ex_connection (\<lambda>_. False)) (store_family ex_config) (store_schema ex_config))
        y (ex_sql_migration [''a'', ''b''] [''c'']) db1 = Some (Inr (), db2)
    \<and> ex_done db2 = [''a'', ''b'', ''c'']"
proof -
  let ?c = "ex_connection (\<lambda>_. False)" and ?m = "ex_migration ''two'' Pending 2" and ?mig = "ex_sql_migration [''a'', ''b''] [''c'']"
  let ?ms = "[ex_migration ''one'' MigrationSuccess 1] @ [?m]"
  have "map m_revision ?ms = [1..<Suc (length ?ms)]" by (simp add: ex_migration_def)
  then have log: "sql_log ex_codec ?c ex_config 100 ex_rows (ex_stored ?ms) ?ms"
    by (rule ex_log) (simp_all add: i64_range_def)
  have m: "m_status ?m = Pending" "m_name ?m = ''two''" and n: "m_applied ?m = 0" "m_rolled_back ?m = 0"
    by (simp_all add: ex_migration_def)
  have r: "render_all ex_config (mig_corrected_steps ?mig) = Some [''a'', ''b'']" "render_all ex_config (mig_rollback ?mig) = Some [''c'']"
    unfolding ex_sql_migration_steps by (rule ex_render_all)+
  have i: "i64_range (m_applied ?m + length [''a'', ''b''] + length [''c''])" "i64_range (m_rolled_back ?m + length [''a'', ''b''] + length [''c''])"
    by (simp_all add: n i64_range_def)
  have c: "clock_storable ex_codec (store_family ex_config) (\<lambda>_. 0)" using ex_hypotheses(2) by (simp add: ex_config_def)
  have e: "execute (ex_exec (\<lambda>_. False)) [''a'', ''b''] (ex_done (ex_stored ?ms)) = (None, 2, [''a'', ''b''])"
    "execute (ex_exec (\<lambda>_. False)) [''c''] [''a'', ''b''] = (None, 1, [''a'', ''b'', ''c''])"
    by (simp_all add: ex_exec_def ex_stored_def)
  show ?thesis
    using apply_then_unapply [of ex_codec ?c ex_config 100 ex_rows "ex_stored ?ms" "[ex_migration ''one'' MigrationSuccess 1]" ?m ?mig
        "[''a'', ''b'']" "[''c'']" ex_done "ex_exec (\<lambda>_. False)" "\<lambda>_. 0" 2 "[''a'', ''b'']" 1 "[''a'', ''b'', ''c'']"
        "\<lambda>_ _ _ _ _. []" "\<lambda>_. []", OF log m(1) r ex_separate i ex_hypotheses(1) c e]
    unfolding append.simps m(2) by blast
qed

text \<open>C27: The loop of the applier ends for every connector whose steps end: if no call panics and from some
  index on no step is followed by more, the loop returns, and has counted at most the steps before
  that index.\<close>

theorem go_forward_terminates:
  assumes "\<forall>j db. sa_apply_step sa mig j db \<noteq> None" "\<forall>p db. p_update pers p db \<noteq> None"
    and "\<forall>j db db'. n \<le> j \<longrightarrow> sa_apply_step sa mig j db \<noteq> Some (Inr True, db')"
  shows "\<exists>r q db'. go_forward pers sa mig i p db = Some (r, q, db')
    \<and> up_applied p \<le> up_applied q \<and> up_applied q \<le> up_applied p + (n - i)"
proof (induction "n - i" arbitrary: i p db)
  case 0
  then have "n \<le> i" by simp
  obtain r db1 where s: "sa_apply_step sa mig i db = Some (r, db1)" using assms(1) by fastforce
  with assms(3) \<open>n \<le> i\<close> have "r \<noteq> Inr True" by blast
  with s show ?case by (cases r) (auto simp: go_forward_eq [of _ _ _ i])
next
  case (Suc k)
  obtain r db1 where s: "sa_apply_step sa mig i db = Some (r, db1)" using assms(1) by fastforce
  show ?case
  proof (cases "r = Inr True")
    case True
    obtain db2 where "p_update pers (p\<lparr>up_applied := up_applied p + 1\<rparr>) db1 = Some db2" using assms(2) by fastforce
    moreover have "k = n - Suc i" using Suc.hyps(2) by simp
    moreover from this obtain r' q db' where "go_forward pers sa mig (Suc i) (p\<lparr>up_applied := up_applied p + 1\<rparr>) db2 = Some (r', q, db')"
      "up_applied p + 1 \<le> up_applied q" "up_applied q \<le> up_applied p + 1 + (n - Suc i)"
      using Suc.hyps(1) [of "Suc i" "p\<lparr>up_applied := up_applied p + 1\<rparr>" db2] by auto
    ultimately show ?thesis
      using True s Suc.hyps(2) by (intro exI [of _ r'] exI [of _ q] exI [of _ db']) (simp add: go_forward_eq [of _ _ _ i])
  next
    case False
    with s show ?thesis by (cases r) (auto simp: go_forward_eq [of _ _ _ i])
  qed
qed

theorem go_forward_terminates_witness:
  "\<exists>r q db'. go_forward (sql_persistence ex_codec (ex_connection (\<lambda>_. False)) (\<lambda>_ _ _ _ _. []) ex_config)
      (sql_step_applier (\<lambda>_. []) (ex_connection (\<lambda>_. False)) Mysql ''db'') (ex_sql_migration [''a'', ''b'', ''c''] []) 0
      (migration_update_params (ex_migration ''one'' Pending 1)) (ex_stored []) = Some (r, q, db')
    \<and> up_applied q \<le> 3"
proof -
  let ?sa = "sql_step_applier (\<lambda>_. []) (ex_connection (\<lambda>_. False)) Mysql ''db'' :: (ex_db, sql_migration, string) step_applier"
  let ?mig = "ex_sql_migration [''a'', ''b'', ''c''] []"
  let ?pers = "sql_persistence ex_codec (ex_connection (\<lambda>_. False)) (\<lambda>_ _ _ _ _. []) ex_config"
  have "\<exists>sql. render_raw_sql (map RawSql sqls ! j) Mysql ''db'' = Some sql" if "j < length sqls" for j sqls
    using that by simp
  from this [of _ "[''a'', ''b'', ''c'']"] have "\<forall>j db. sa_apply_step ?sa ?mig j db \<noteq> None"
    by (fastforce simp: sql_step_applier_def sql_apply_step_def apply_next_step_def ex_sql_migration_steps ex_connection_def)
  moreover have "\<forall>p db. p_update ?pers p db \<noteq> None"
    by (simp add: sql_persistence_def store_update_def ex_connection_def)
  moreover have "\<forall>j db db'. 3 \<le> j \<longrightarrow> sa_apply_step ?sa ?mig j db \<noteq> Some (Inr True, db')"
    by (simp add: sql_step_applier_def sql_apply_step_def apply_next_step_def ex_sql_migration_steps)
  moreover have "up_applied (migration_update_params (ex_migration ''one'' Pending 1)) = 0"
    by (simp add: migration_update_params_def ex_migration_def)
  ultimately show ?thesis
    using go_forward_terminates [of ?sa ?mig ?pers 3 0 "migration_update_params (ex_migration ''one'' Pending 1)" "ex_stored []"]
    by auto
qed

end
