(* ===== verification/Command_Facts.thy ===== *)
theory Command_Facts
  imports Sql_Connector Applied_Migrations Diff_Empty
begin

section \<open>What the commands guarantee\<close>

text \<open>
  Properties of the commands of \<open>migration-engine/core/src/commands\<close>: when a migration is not
  applied, that the steps one command infers are those another can apply, and what applying and
  unapplying leave behind on the SQL connector.
\<close>

lemma cmd_calculate_Inr [eff_simps]: "cmd_calculate cdc r db = Some (Inr x, db') \<longleftrightarrow> r = Inr x \<and> db = db'"
  by (auto simp: cmd_calculate_def split: sum.splits failure.splits)

lemma cmd_connector_Inr [eff_simps]: "cmd_connector cdc f db = Some (Inr x, db') \<longleftrightarrow> f db = Some (Inr x, db')"
  by (auto simp: cmd_connector_def)

lemma render_pretty_Inr [eff_simps]:
  "render_pretty cdc con m db = Some (Inr x, db') \<longleftrightarrow> sa_render_steps_pretty (c_step_applier con) m = Some (Inr x) \<and> db = db'"
  by (auto simp: render_pretty_def eff_simps)

lemma check_changes_Inr [eff_simps]:
  "check_changes cdc con m db = Some (Inr x, db') \<longleftrightarrow> c_check con m db = Inr x \<and> db = db'"
  by (auto simp: check_changes_def eff_simps)

subsection \<open>Warnings\<close>

lemma cmd_bind_calculate: "r = Inr x \<Longrightarrow> eff_bind (cmd_calculate cdc r) g db = g x db"
  by (simp add: eff_bind_def cmd_calculate_def)

lemma handle_migration_warned:
  assumes "handle_migration cdc clock con input current next db = Some (Inr out, db')"
    and "msr_warnings out \<noteq> []" "ami_force input \<noteq> Some True"
  shows "db' = db"
  using assms by (auto simp: handle_migration_def eff_simps Let_def has_warnings_def)

lemma handled_migration:
  "handle_transition_out_of_watch_mode cdc clock con input db = Some (Inr out, db') \<Longrightarrow>
     \<exists>current next. handle_migration cdc clock con input current next db = Some (Inr out, db')"
  "handle_normal_migration cdc clock con input db = Some (Inr out, db') \<Longrightarrow>
     \<exists>current next. handle_migration cdc clock con input current next db = Some (Inr out, db')"
  unfolding handle_transition_out_of_watch_mode_def handle_normal_migration_def
  by (auto simp only: eff_simps)

text \<open>C28: A migration with warnings is not applied unless the client insists: if the command returns with
  warnings and the flag \<open>force\<close> is not set, the database is as it was, the log of migrations
  included. This holds for every connector.\<close>

theorem warned_migration_not_applied:
  assumes "apply_migration cdc clock con input db = Some (Inr out, db')"
    and "msr_warnings out \<noteq> []" "ami_force input \<noteq> Some True"
  shows "db' = db"
proof -
  obtain l where l: "p_last (c_persistence con) db = Some l"
    using assms(1) by (cases "p_last (c_persistence con) db") (simp_all add: apply_migration_def eff_bind_def eff_read_def)
  have "handle_transition_out_of_watch_mode cdc clock con input db = Some (Inr out, db')
      \<or> handle_normal_migration cdc clock con input db = Some (Inr out, db')"
    using assms(1) unfolding apply_migration_def eff_bind_read [of "p_last (c_persistence con)", OF l]
    by (auto split: option.splits if_splits)
  then show ?thesis
    using handled_migration handle_migration_warned [OF _ assms(2,3)] by metis
qed

subsection \<open>From inferred to applied steps\<close>

text \<open>The schema the steps of a migration outside watch mode start from, when they are inferred.\<close>

definition inferred_base :: "('dm, 'dt, 'j) codec \<Rightarrow> ('dm, 'dt, 'j) migration list \<Rightarrow> schema_ast" where
  "inferred_base cdc ms =
     (case last_non_watch_applied_migration ms of Some m \<Rightarrow> datamodel_ast cdc m | None \<Rightarrow> schema_empty)"

lemma current_datamodel_ast_Some: "current_datamodel_ast cdc (Some m) = datamodel_ast cdc m"
  by (simp add: current_datamodel_ast_def datamodel_ast_def split: sum.split)

lemma last_applied_None:
  "find is_successful (rev ms) = None \<Longrightarrow> last_non_watch_applied_migration ms = None"
  by (auto simp: last_non_watch_applied_migration_def find_None_iff is_successful_def)

lemma find_conj: "find P xs = Some x \<Longrightarrow> Q x \<Longrightarrow> find (\<lambda>x. Q x \<and> P x) xs = Some x"
  by (induction xs) (auto split: if_splits)

lemma last_applied_Some:
  "find is_successful (rev ms) = Some m \<Longrightarrow> \<not> is_watch_migration m \<Longrightarrow> last_non_watch_applied_migration ms = Some m"
  unfolding last_non_watch_applied_migration_def is_successful_def [symmetric] by (rule find_conj)

lemma infer_migration_steps_Inr:
  assumes "infer_migration_steps cdc con input db = Some (Inr out, db')" "\<not> is_watch_name (ims_migration_id input)"
    and "p_load_all (c_persistence con) db = Some ms"
  shows "db' = db" "\<exists>next_ast. parse_schema_ast cdc (ims_datamodel input) = Inr next_ast
    \<and> steps_inferrer_infer (inferred_base cdc ms) next_ast = Some (msr_datamodel_steps out)"
  using assms by (auto simp: infer_migration_steps_def steps_since_last_non_watch_def inferred_base_def eff_simps)

lemma apply_migration_normal:
  assumes "p_last (c_persistence con) db = Some l"
    and "\<And>m. l = Some m \<Longrightarrow> \<not> is_watch_migration m \<or> is_watch_name (ami_migration_id input)"
  shows "apply_migration cdc clock con input db =
    eff_bind (cmd_calculate cdc (calculator_infer (current_datamodel_ast cdc l) (ami_steps input))) (\<lambda>s.
    eff_bind (eff_try command_error_from_errors (lift_ast cdc s))
      (handle_migration cdc clock con input (current_datamodel cdc l))) db"
  using assms
  by (cases l) (auto simp: apply_migration_def handle_normal_migration_def eff_bind_read)

lemma apply_migration_out_of_watch_mode:
  assumes "p_last (c_persistence con) db = Some (Some m)" "is_watch_migration m" "\<not> is_watch_name (ami_migration_id input)"
    and "p_load_all (c_persistence con) db = Some ms"
  shows "apply_migration cdc clock con input db =
    eff_bind (cmd_calculate cdc (calculator_infer
        (case last_non_watch_migration ms of Some m \<Rightarrow> datamodel_ast cdc m | None \<Rightarrow> schema_empty) (ami_steps input))) (\<lambda>s.
    eff_bind (eff_try command_error_from_errors (lift_ast cdc s))
      (handle_migration cdc clock con input (current_datamodel cdc (Some m)))) db"
  using assms by (simp add: apply_migration_def handle_transition_out_of_watch_mode_def eff_bind_read)


text \<open>C30: A failed migration breaks the way out of watch mode. If the last successful migration is a watch
  migration and the last one outside watch mode, \<open>b\<close>, has failed, then the steps are inferred from
  the schema of an older migration, but applying them starts from the schema of \<open>b\<close>.\<close>

theorem failed_migration_shifts_base:
  assumes "p_load_all (c_persistence con) db = Some ms" "p_last (c_persistence con) db = Some (Some w)" "is_watch_migration w"
    and "last_non_watch_migration ms = Some b" "m_status b \<noteq> MigrationSuccess"
    and "infer_migration_steps cdc con input db = Some (Inr out, db')" "\<not> is_watch_name (ims_migration_id input)"
    and "\<not> is_watch_name (ami_migration_id a)"
  shows "\<exists>next_ast. parse_schema_ast cdc (ims_datamodel input) = Inr next_ast
    \<and> steps_inferrer_infer (inferred_base cdc ms) next_ast = Some (msr_datamodel_steps out)
    \<and> last_non_watch_applied_migration ms \<noteq> Some b
    \<and> apply_migration cdc clock con a db' =
        eff_bind (cmd_calculate cdc (calculator_infer (datamodel_ast cdc b) (ami_steps a))) (\<lambda>s.
        eff_bind (eff_try command_error_from_errors (lift_ast cdc s))
          (handle_migration cdc clock con a (current_datamodel cdc (Some w)))) db"
proof -
  have "last_non_watch_applied_migration ms \<noteq> Some b"
    using assms(5) by (auto simp: last_non_watch_applied_migration_def find_Some_iff)
  then show ?thesis
    using infer_migration_steps_Inr [OF assms(6,7,1)] apply_migration_out_of_watch_mode [OF assms(2,3,8,1)] assms(4)
    by auto
qed

subsection \<open>Examples\<close>

text \<open>A persistence that is a list, and a connector whose migrations are empty.\<close>

type_synonym ex_log_state = "(string, 64 word, string) migration list"

definition ex_pers :: "(ex_log_state, string, 64 word, string) persistence" where
  "ex_pers =
     \<lparr>p_init = id, p_reset = Some, p_last = (\<lambda>ms. Some (find is_successful (rev ms))),
      p_by_name = (\<lambda>n ms. Some (find (\<lambda>m. m_name m = n) (rev ms))), p_load_all = Some,
      p_create = (\<lambda>m ms. Some (m, ms @ [m])), p_update = (\<lambda>p ms. Some (map (update_entry p) ms))\<rparr>"

definition ex_connector ::
    "migration_warning list \<Rightarrow> (ex_log_state, string, 64 word, string, sql_migration) connector" where
  "ex_connector warnings =
     \<lparr>c_connector_type = ''sqlite'', c_initialize = (\<lambda>db. Some (Inr (), db)), c_reset = (\<lambda>db. Some (Inr (), [])),
      c_persistence = ex_pers, c_infer = (\<lambda>_ _ _ _. Inr sql_migration_empty),
      c_infer_from_datamodels = (\<lambda>_ _ _. Inr sql_migration_empty),
      c_step_applier = \<lparr>sa_apply_step = (\<lambda>_ _ db. Some (Inr False, db)), sa_unapply_step = (\<lambda>_ _ db. Some (Inr False, db)),
        sa_render_steps_pretty = (\<lambda>_. Some (Inr []))\<rparr>,
      c_check = (\<lambda>_ _. Inr \<lparr>diag_errors = [], diag_warnings = warnings\<rparr>),
      c_serialize = (\<lambda>_. []), c_deserialize = (\<lambda>_. Some sql_migration_empty)\<rparr>"

definition ex_schema_codec :: "(string, 64 word, string) codec" where
  "ex_schema_codec = ex_codec\<lparr>parse_schema_ast := \<lambda>s.
     if s = ''before'' then Inr example_before else if s = ''after'' then Inr example_after else Inr schema_empty\<rparr>"

definition ex_entry :: "string \<Rightarrow> migration_status \<Rightarrow> string \<Rightarrow> (string, 64 word, string) migration" where
  "ex_entry name status schema = (ex_migration name status 0)\<lparr>m_datamodel_string := schema\<rparr>"

definition ex_infer_input :: infer_migration_steps_input where
  "ex_infer_input = \<lparr>ims_migration_id = ''next'', ims_datamodel = ''after'', ims_assume_to_be_applied = []\<rparr>"

definition ex_apply_input :: "migration_step list \<Rightarrow> apply_migration_input" where
  "ex_apply_input steps = \<lparr>ami_migration_id = ''next'', ami_steps = steps, ami_force = None\<rparr>"

lemmas ex_cmd_defs = ex_pers_def ex_connector_def ex_schema_codec_def ex_entry_def ex_infer_input_def ex_apply_input_def
  ex_migration_def ex_codec_def

theorem warned_migration_not_applied_witness:
  "\<exists>out db'. apply_migration ex_codec (\<lambda>_. 0) (ex_connector [\<lparr>warning_description = ''data loss''\<rparr>]) (ex_apply_input [])
      [ex_migration ''one'' MigrationSuccess 1] = Some (Inr out, db')
    \<and> msr_warnings out = [\<lparr>warning_description = ''data loss''\<rparr>] \<and> db' = [ex_migration ''one'' MigrationSuccess 1]"
proof -
  let ?con = "ex_connector [\<lparr>warning_description = ''data loss''\<rparr>]" and ?db = "[ex_migration ''one'' MigrationSuccess 1]"
  have last: "p_last (c_persistence ?con) ?db = Some (Some (ex_migration ''one'' MigrationSuccess 1))"
    by (simp add: ex_cmd_defs is_successful_def)
  have "\<exists>out db'. apply_migration ex_codec (\<lambda>_. 0) ?con (ex_apply_input []) ?db = Some (Inr out, db')
      \<and> msr_warnings out = [\<lparr>warning_description = ''data loss''\<rparr>]"
    by (subst apply_migration_normal [OF last])
       (simp_all add: ex_cmd_defs is_watch_migration_def is_watch_name_def eff_simps handle_migration_def Let_def
         calculator_infer_def apply_steps_def migration_new_def timestamp_without_nanos_def has_warnings_def)
  then obtain out db' where "apply_migration ex_codec (\<lambda>_. 0) ?con (ex_apply_input []) ?db = Some (Inr out, db')"
    "msr_warnings out = [\<lparr>warning_description = ''data loss''\<rparr>]" by blast
  with warned_migration_not_applied [OF this(1)] show ?thesis by (simp add: ex_apply_input_def)
qed

lemma ex_infers:
  assumes "last_non_watch_applied_migration ms = Some (ex_entry n MigrationSuccess ''before'')"
    and "find is_successful (rev ms) = Some m" "datamodel_ast ex_schema_codec m = schema"
    and "steps_inferrer_infer schema example_after = Some steps'"
    and "steps_inferrer_infer example_before example_after = Some steps"
  shows "\<exists>out. infer_migration_steps ex_schema_codec (ex_connector []) ex_infer_input ms = Some (Inr out, ms)
    \<and> msr_datamodel_steps out = steps"
proof -
  have "datamodel_ast ex_schema_codec (ex_entry n MigrationSuccess ''before'') = example_before"
    by (simp add: datamodel_ast_def ex_cmd_defs)
  with assms show ?thesis
    by (simp add: infer_migration_steps_def steps_since_last_non_watch_def eff_simps ex_connector_def ex_pers_def
        ex_infer_input_def is_watch_name_def current_datamodel_ast_Some calculator_infer_def apply_steps_def)
       (simp add: ex_schema_codec_def ex_codec_def)
qed


text \<open>
  The example for the broken way: the failed migration had already created what the inferred steps
  create again.
\<close>

theorem failed_migration_shifts_base_witness:
  "\<exists>ms out. last_non_watch_migration ms = Some (ex_entry ''two'' MigrationFailure ''after'')
    \<and> infer_migration_steps ex_schema_codec (ex_connector []) ex_infer_input ms = Some (Inr out, ms)
    \<and> apply_migration ex_schema_codec (\<lambda>_. 0) (ex_connector []) (ex_apply_input (msr_datamodel_steps out)) ms
        = Some (Inl (GenericError 1 []), ms)"
proof -
  let ?a = "ex_entry ''one'' MigrationSuccess ''before''" and ?b = "ex_entry ''two'' MigrationFailure ''after''"
  let ?w = "ex_entry ''watch-1'' MigrationSuccess ''before''"
  let ?ms = "[?a, ?b, ?w]"
  have ms: "p_load_all (c_persistence (ex_connector [])) ?ms = Some ?ms"
    "p_last (c_persistence (ex_connector [])) ?ms = Some (Some ?w)"
    by (simp_all add: ex_pers_def ex_connector_def is_successful_def ex_entry_def ex_migration_def)
  have found: "last_non_watch_applied_migration ?ms = Some ?a" "last_non_watch_migration ?ms = Some ?b"
    "find is_successful (rev ?ms) = Some ?w" and st: "is_watch_migration ?w" "m_status ?b \<noteq> MigrationSuccess"
    by (simp_all add: last_non_watch_applied_migration_def last_non_watch_migration_def is_successful_def
        is_watch_migration_def is_watch_name_def ex_entry_def ex_migration_def)
  have ast: "datamodel_ast ex_schema_codec ?w = example_before" "datamodel_ast ex_schema_codec ?b = example_after"
    by (simp_all add: datamodel_ast_def ex_cmd_defs)
  obtain steps where steps: "steps_inferrer_infer example_before example_after = Some steps"
    using diff_applies [OF example_wf] by (auto simp: steps_inferrer_infer_def)
  from ex_infers [OF found(1,3) ast(1) this this] obtain out where
    out: "infer_migration_steps ex_schema_codec (ex_connector []) ex_infer_input ?ms = Some (Inr out, ?ms)"
      "msr_datamodel_steps out = steps" by blast
  have err: "case steps_inferrer_infer example_before example_after of
      Some steps \<Rightarrow> (case calculator_infer example_after steps of Inl (CalculatorError e) \<Rightarrow> True | _ \<Rightarrow> False) | None \<Rightarrow> False"
    by code_simp
  then obtain e where e: "calculator_infer example_after steps = Inl (CalculatorError e)"
    using steps by (auto split: sum.splits failure.splits)
  have "\<not> is_watch_name (ims_migration_id ex_infer_input)" "\<not> is_watch_name (ami_migration_id (ex_apply_input steps))"
    by (simp_all add: ex_cmd_defs is_watch_name_def)
  from failed_migration_shifts_base [OF ms st(1) found(2) st(2) out(1) this, of "\<lambda>_. 0"]
  have "apply_migration ex_schema_codec (\<lambda>_. 0) (ex_connector []) (ex_apply_input steps) ?ms = Some (Inl (GenericError 1 []), ?ms)"
    using e ast(2)
    by (auto simp: eff_bind_def cmd_calculate_def ex_apply_input_def command_error_from_calculator_def ex_schema_codec_def ex_codec_def)
  with found(2) out show ?thesis by blast
qed

end
