(* ===== verification/Datamodel_Error.thy ===== *)
theory Datamodel_Error
  imports Ast
begin

section \<open>Errors of the datamodel library\<close>

text \<open>
  \<open>libs/datamodel/src/error\<close>: the errors of parsing and validation with the text they display and the
  place they point to, and collections of errors. The functions \<open>new_..\<close> of the source only fill in
  the fields of a constructor, so the constructors stand for them.
\<close>

datatype (plugins only: code) datamodel_error =
    ArgumentNotFound string span
  | ArgumentCountMissmatch string nat nat span
  | DirectiveArgumentNotFound string string span
  | SourceArgumentNotFound string string span
  | GeneratorArgumentNotFound string string span
  | DirectiveValidationError string string span
  | DuplicateDirectiveError string span
  | ReservedScalarTypeError string span
  | DuplicateTopError string string string span
  | DuplicateConfigKeyError string string span
  | DuplicateDefaultArgumentError string span
  | DuplicateArgumentError string span
  | UnusedArgumentError string span
  | DuplicateFieldError string string span
  | DuplicateEnumValueError string string span
  | DirectiveNotKnownError string span
  | FunctionNotKnownError string span
  | SourceNotKnownError string span
  | LiteralParseError string string span
  | TypeNotFoundError string span
  | ScalarTypeNotFoundError string span
  | ParserError "string list" string span
  | LegacyParserError string span
  | FunctionalEvaluationError string span
  | EnvironmentFunctionalEvaluationError string span
  | TypeMismatchError string string string span
  | ValueParserError string string string span
  | ModelValidationError string string span
  | ValidationError string span

definition new_parser_error :: "string list \<Rightarrow> span \<Rightarrow> datamodel_error" where
  "new_parser_error expected s = ParserError expected (join '', '' expected) s"

primrec error_span :: "datamodel_error \<Rightarrow> span" where
  "error_span (ArgumentNotFound _ s) = s"
| "error_span (DirectiveArgumentNotFound _ _ s) = s"
| "error_span (ArgumentCountMissmatch _ _ _ s) = s"
| "error_span (SourceArgumentNotFound _ _ s) = s"
| "error_span (GeneratorArgumentNotFound _ _ s) = s"
| "error_span (DirectiveValidationError _ _ s) = s"
| "error_span (DirectiveNotKnownError _ s) = s"
| "error_span (ReservedScalarTypeError _ s) = s"
| "error_span (FunctionNotKnownError _ s) = s"
| "error_span (SourceNotKnownError _ s) = s"
| "error_span (LiteralParseError _ _ s) = s"
| "error_span (TypeNotFoundError _ s) = s"
| "error_span (ScalarTypeNotFoundError _ s) = s"
| "error_span (ParserError _ _ s) = s"
| "error_span (FunctionalEvaluationError _ s) = s"
| "error_span (EnvironmentFunctionalEvaluationError _ s) = s"
| "error_span (TypeMismatchError _ _ _ s) = s"
| "error_span (ValueParserError _ _ _ s) = s"
| "error_span (ValidationError _ s) = s"
| "error_span (LegacyParserError _ s) = s"
| "error_span (ModelValidationError _ _ s) = s"
| "error_span (DuplicateDirectiveError _ s) = s"
| "error_span (DuplicateConfigKeyError _ _ s) = s"
| "error_span (DuplicateTopError _ _ _ s) = s"
| "error_span (DuplicateFieldError _ _ s) = s"
| "error_span (DuplicateEnumValueError _ _ s) = s"
| "error_span (DuplicateArgumentError _ s) = s"
| "error_span (DuplicateDefaultArgumentError _ s) = s"
| "error_span (UnusedArgumentError _ s) = s"

text \<open>\<open>Display\<close>; \<open>quoted\<close> is a name between double quotes.\<close>

definition quoted :: "string \<Rightarrow> string" where
  "quoted s = [CHR 0x22] @ s @ [CHR 0x22]"

primrec error_description :: "datamodel_error \<Rightarrow> string" where
  "error_description (ArgumentNotFound a _) = ''Argument '' @ quoted a @ '' is missing.''"
| "error_description (ArgumentCountMissmatch f r g _) =
     ''Function '' @ quoted f @ '' takes '' @ show_nat r @ '' arguments, but received '' @ show_nat g @ ''.''"
| "error_description (DirectiveArgumentNotFound a d _) =
     ''Argument '' @ quoted a @ '' is missing in attribute '' @ quoted (''@'' @ d) @ ''.''"
| "error_description (SourceArgumentNotFound a s _) =
     ''Argument '' @ quoted a @ '' is missing in data source block '' @ quoted s @ ''.''"
| "error_description (GeneratorArgumentNotFound a g _) =
     ''Argument '' @ quoted a @ '' is missing in generator block '' @ quoted g @ ''.''"
| "error_description (DirectiveValidationError m d _) =
     ''Error parsing attribute '' @ quoted (''@'' @ d) @ '': '' @ m @ ''.''"
| "error_description (DuplicateDirectiveError d _) =
     ''Attribute '' @ quoted (''@'' @ d) @ '' is defined twice.''"
| "error_description (ReservedScalarTypeError t _) =
     quoted t @ '' is a reserved scalar type name and can not be used.''"
| "error_description (DuplicateTopError n t e _) =
     ''The '' @ t @ '' '' @ quoted n @ '' cannot be defined because a '' @ e @ '' with that name already exists.''"
| "error_description (DuplicateConfigKeyError b k _) =
     ''Key '' @ quoted k @ '' is already defined in '' @ b @ ''.''"
| "error_description (DuplicateDefaultArgumentError a _) =
     ''Argument '' @ quoted a @ '' is already specified as unnamed argument.''"
| "error_description (DuplicateArgumentError a _) = ''Argument '' @ quoted a @ '' is already specified.''"
| "error_description (UnusedArgumentError _ _) = ''No such argument.''"
| "error_description (DuplicateFieldError m f _) =
     ''Field '' @ quoted f @ '' is already defined on model '' @ quoted m @ ''.''"
| "error_description (DuplicateEnumValueError e v _) =
     ''Value '' @ quoted v @ '' is already defined on enum '' @ quoted e @ ''.''"
| "error_description (DirectiveNotKnownError d _) = ''Attribute not known: '' @ quoted (''@'' @ d) @ ''.''"
| "error_description (FunctionNotKnownError f _) = ''Function not known: '' @ quoted f @ ''.''"
| "error_description (SourceNotKnownError s _) = ''Datasource provider not known: '' @ quoted s @ ''.''"
| "error_description (LiteralParseError l r _) = quoted r @ '' is not a valid value for '' @ l @ ''.''"
| "error_description (TypeNotFoundError t _) =
     ''Type '' @ quoted t @ '' is neither a built-in type, nor refers to another model, custom type, or enum.''"
| "error_description (ScalarTypeNotFoundError t _) = ''Type '' @ quoted t @ '' is not a built-in type.''"
| "error_description (ParserError _ e _) = ''Unexpected token. Expected one of: '' @ e @ ''.''"
| "error_description (LegacyParserError m _) = m"
| "error_description (FunctionalEvaluationError m _) = m"
| "error_description (EnvironmentFunctionalEvaluationError v _) =
     ''Environment variable not found: '' @ v @ ''.''"
| "error_description (TypeMismatchError e r w _) =
     ''Expected a '' @ e @ '' value, but received '' @ r @ '' value '' @ quoted w @ ''.''"
| "error_description (ValueParserError e p w _) =
     ''Expected a '' @ e @ '' value, but failed while parsing '' @ quoted w @ '': '' @ p @ ''.''"
| "error_description (ModelValidationError m n _) =
     ''Error validating model '' @ quoted n @ '': '' @ m @ ''.''"
| "error_description (ValidationError m _) = ''Error validating: '' @ m @ ''.''"

subsection \<open>Collections\<close>

text \<open>An \<open>ErrorCollection\<close> is the list of its errors: \<open>push\<close> and \<open>append\<close> are list operations.\<close>

type_synonym error_collection = "datamodel_error list"

definition has_errors :: "error_collection \<Rightarrow> bool" where
  "has_errors es \<longleftrightarrow> length es > 0"

definition errors_ok :: "error_collection \<Rightarrow> error_collection + unit" where
  "errors_ok es = (if has_errors es then Inl es else Inr ())"

definition collection_from :: "datamodel_error \<Rightarrow> error_collection" where
  "collection_from e = [e]"

definition errors_of :: "error_collection + 'a \<Rightarrow> error_collection" where
  "errors_of r = (case r of Inl es \<Rightarrow> es | Inr _ \<Rightarrow> [])"

lemma has_errors_iff [simp]: "has_errors es \<longleftrightarrow> es \<noteq> []"
  by (simp add: has_errors_def)

lemma errors_ok_Inr [simp]: "errors_ok es = Inr u \<longleftrightarrow> es = []"
  by (simp add: errors_ok_def)

lemma errors_of_simps [simp]: "errors_of (Inl es) = es" "errors_of (Inr x) = []"
  by (simp_all add: errors_of_def)

lemma errors_of_errors_ok [simp]: "errors_of (errors_ok es) = es"
  by (simp add: errors_ok_def)

end
