(* ===== verification/Dml.thy ===== *)
theory Dml
  imports Datamodel_Error "HOL-Library.Word"
begin

section \<open>Datamodels\<close>

text \<open>
  \<open>libs/datamodel/src/dml\<close>: a datamodel after validation, with its models, fields, relations and
  enums, and \<open>libs/datamodel/src/common/mod.rs\<close>: the scalar types and values. Floating point numbers
  and dates are type parameters, as the code only stores and prints them. Names of this theory carry
  the prefix \<open>dml\<close> where the schema AST has a type of the same name.
\<close>

subsection \<open>Types and values\<close>

datatype prisma_type = PInt | PFloat | PDecimal | PBoolean | PString | PDateTime

definition prisma_type_from_str :: "string \<Rightarrow> span \<Rightarrow> datamodel_error + prisma_type" where
  "prisma_type_from_str s sp =
     (if s = ''Int'' then Inr PInt
      else if s = ''Float'' then Inr PFloat
      else if s = ''Decimal'' then Inr PDecimal
      else if s = ''Boolean'' then Inr PBoolean
      else if s = ''String'' then Inr PString
      else if s = ''DateTime'' then Inr PDateTime
      else Inl (TypeNotFoundError s sp))"

fun prisma_type_to_string :: "prisma_type \<Rightarrow> string" where
  "prisma_type_to_string PInt = ''Int''"
| "prisma_type_to_string PFloat = ''Float''"
| "prisma_type_to_string PDecimal = ''Decimal''"
| "prisma_type_to_string PBoolean = ''Boolean''"
| "prisma_type_to_string PString = ''String''"
| "prisma_type_to_string PDateTime = ''DateTime''"

lemma prisma_type_from_to [simp]: "prisma_type_from_str (prisma_type_to_string t) sp = Inr t"
  by (cases t) (simp_all add: prisma_type_from_str_def)

datatype ('f, 't) prisma_value =
    IntVal "32 word"
  | FloatVal 'f
  | DecimalVal 'f
  | BooleanVal bool
  | StringVal string
  | DateTimeVal 't
  | ConstantLiteral string
  | ExpressionVal string prisma_type "('f, 't) prisma_value list"

fun value_get_type :: "('f, 't) prisma_value \<Rightarrow> prisma_type option" where
  "value_get_type (IntVal _) = Some PInt"
| "value_get_type (FloatVal _) = Some PFloat"
| "value_get_type (DecimalVal _) = Some PDecimal"
| "value_get_type (BooleanVal _) = Some PBoolean"
| "value_get_type (StringVal _) = Some PString"
| "value_get_type (DateTimeVal _) = Some PDateTime"
| "value_get_type (ExpressionVal _ t _) = Some t"
| "value_get_type (ConstantLiteral _) = None"

text \<open>
  What the code uses of floating point numbers, of the library \<open>chrono\<close>, of the process environment and
  of the error report of \<open>pest\<close>: a failed conversion returns the description of its error.
\<close>

record ('f, 't) text_lib =
  show_f32 :: "'f \<Rightarrow> string"
  parse_f32 :: "string \<Rightarrow> string + 'f"
  show_datetime :: "'t \<Rightarrow> string"
  datetime_to_rfc3339 :: "'t \<Rightarrow> string"
  parse_datetime :: "string \<Rightarrow> string + 't"
  env_var :: "string \<Rightarrow> string option"
  interpolation_failure :: "string \<Rightarrow> string list \<times> span"

definition show_i32 :: "32 word \<Rightarrow> string" where
  "show_i32 w = (if sint w < 0 then ''-'' @ show_nat (nat (- sint w)) else show_nat (nat (sint w)))"

definition show_bool :: "bool \<Rightarrow> string" where
  "show_bool b = (if b then ''true'' else ''false'')"

fun value_to_text :: "('f, 't) text_lib \<Rightarrow> ('f, 't) prisma_value \<Rightarrow> string" where
  "value_to_text d (IntVal x) = show_i32 x"
| "value_to_text d (FloatVal x) = show_f32 d x"
| "value_to_text d (DecimalVal x) = show_f32 d x"
| "value_to_text d (BooleanVal x) = show_bool x"
| "value_to_text d (StringVal x) = x"
| "value_to_text d (DateTimeVal x) = show_datetime d x"
| "value_to_text d (ConstantLiteral x) = x"
| "value_to_text d (ExpressionVal _ t _) = ''Function<'' @ prisma_type_to_string t @ ''>''"

subsection \<open>Fields\<close>

datatype dml_arity = DRequired | DOptional | DList

definition is_singular :: "dml_arity \<Rightarrow> bool" where
  "is_singular a \<longleftrightarrow> a = DRequired \<or> a = DOptional"

datatype on_delete_strategy = OnDeleteCascade | OnDeleteNone

definition on_delete_from_str :: "string \<Rightarrow> span \<Rightarrow> datamodel_error + on_delete_strategy" where
  "on_delete_from_str s sp =
     (if s = ''CASCADE'' then Inr OnDeleteCascade
      else if s = ''NONE'' then Inr OnDeleteNone
      else Inl (LiteralParseError ''onDelete strategy'' s sp))"

fun on_delete_to_string :: "on_delete_strategy \<Rightarrow> string" where
  "on_delete_to_string OnDeleteCascade = ''CASCADE''"
| "on_delete_to_string OnDeleteNone = ''NONE''"

record relation_info =
  rel_to :: string
  rel_to_fields :: "string list"
  rel_name :: string
  rel_on_delete :: on_delete_strategy

definition relation_info_new :: "string \<Rightarrow> relation_info" where
  "relation_info_new to = \<lparr>rel_to = to, rel_to_fields = [], rel_name = [], rel_on_delete = OnDeleteNone\<rparr>"

definition relation_info_new_with_field :: "string \<Rightarrow> string \<Rightarrow> relation_info" where
  "relation_info_new_with_field to to_field =
     \<lparr>rel_to = to, rel_to_fields = [to_field], rel_name = [], rel_on_delete = OnDeleteNone\<rparr>"

definition relation_info_new_with_fields :: "string \<Rightarrow> string list \<Rightarrow> relation_info" where
  "relation_info_new_with_fields to to_fields =
     \<lparr>rel_to = to, rel_to_fields = to_fields, rel_name = [], rel_on_delete = OnDeleteNone\<rparr>"

datatype dml_field_type =
    EnumType string
  | RelationType relation_info
  | ConnectorSpecificType prisma_type "string option"
  | BaseType prisma_type

datatype id_strategy = IdAuto | IdNone

definition id_strategy_from_str :: "string \<Rightarrow> span \<Rightarrow> datamodel_error + id_strategy" where
  "id_strategy_from_str s sp =
     (if s = ''AUTO'' then Inr IdAuto
      else if s = ''NONE'' then Inr IdNone
      else Inl (LiteralParseError ''id strategy'' s sp))"

fun id_strategy_to_string :: "id_strategy \<Rightarrow> string" where
  "id_strategy_to_string IdAuto = ''AUTO''"
| "id_strategy_to_string IdNone = ''NONE''"

record dml_sequence =
  dseq_name :: string
  dseq_initial_value :: "32 word"
  dseq_allocation_size :: "32 word"

record id_info =
  id_strategy :: id_strategy
  id_sequence :: "dml_sequence option"

datatype scalar_list_strategy = ListEmbedded | ListRelation

definition scalar_list_strategy_from_str :: "string \<Rightarrow> span \<Rightarrow> datamodel_error + scalar_list_strategy" where
  "scalar_list_strategy_from_str s sp =
     (if s = ''EMBEDDED'' then Inr ListEmbedded
      else if s = ''RELATION'' then Inr ListRelation
      else Inl (LiteralParseError ''id strategy'' s sp))"

fun scalar_list_strategy_to_string :: "scalar_list_strategy \<Rightarrow> string" where
  "scalar_list_strategy_to_string ListEmbedded = ''EMBEDDED''"
| "scalar_list_strategy_to_string ListRelation = ''RELATION''"

record ('f, 't) dml_field =
  df_name :: string
  df_arity :: dml_arity
  df_type :: dml_field_type
  df_database_name :: "string option"
  df_default_value :: "('f, 't) prisma_value option"
  df_is_unique :: bool
  df_id_info :: "id_info option"
  df_scalar_list_strategy :: "scalar_list_strategy option"
  df_documentation :: "string option"
  df_is_generated :: bool
  df_is_updated_at :: bool

definition dml_field_new :: "string \<Rightarrow> dml_field_type \<Rightarrow> ('f, 't) dml_field" where
  "dml_field_new name ft =
     \<lparr>df_name = name, df_arity = DRequired, df_type = ft, df_database_name = None, df_default_value = None,
      df_is_unique = False, df_id_info = None, df_scalar_list_strategy = None, df_documentation = None,
      df_is_generated = False, df_is_updated_at = False\<rparr>"

definition dml_field_new_generated :: "string \<Rightarrow> dml_field_type \<Rightarrow> ('f, 't) dml_field" where
  "dml_field_new_generated name ft =
     \<lparr>df_name = name, df_arity = DOptional, df_type = ft, df_database_name = None, df_default_value = None,
      df_is_unique = False, df_id_info = None, df_scalar_list_strategy = None, df_documentation = None,
      df_is_generated = True, df_is_updated_at = False\<rparr>"

subsection \<open>Models and enums\<close>

datatype dml_index_type = UniqueIndex | NormalIndex

record index_definition =
  idef_name :: "string option"
  idef_fields :: "string list"
  idef_tpe :: dml_index_type

record ('f, 't) dml_model =
  dm_name :: string
  dm_fields :: "('f, 't) dml_field list"
  dm_documentation :: "string option"
  dm_database_name :: "string option"
  dm_is_embedded :: bool
  dm_indexes :: "index_definition list"
  dm_id_fields :: "string list"
  dm_is_generated :: bool

definition dml_model_new :: "string \<Rightarrow> ('f, 't) dml_model" where
  "dml_model_new name =
     \<lparr>dm_name = name, dm_fields = [], dm_documentation = None, dm_database_name = None, dm_is_embedded = False,
      dm_indexes = [], dm_id_fields = [], dm_is_generated = False\<rparr>"

definition dml_add_field :: "('f, 't) dml_field \<Rightarrow> ('f, 't) dml_model \<Rightarrow> ('f, 't) dml_model" where
  "dml_add_field f m = m\<lparr>dm_fields := dm_fields m @ [f]\<rparr>"

definition dml_remove_field :: "string \<Rightarrow> ('f, 't) dml_model \<Rightarrow> ('f, 't) dml_model" where
  "dml_remove_field name m = m\<lparr>dm_fields := filter (\<lambda>f. df_name f \<noteq> name) (dm_fields m)\<rparr>"

definition dml_find_field :: "('f, 't) dml_model \<Rightarrow> string \<Rightarrow> ('f, 't) dml_field option" where
  "dml_find_field m name = find (\<lambda>f. df_name f = name) (dm_fields m)"

definition dml_find_field_mut ::
    "string \<Rightarrow> (('f, 't) dml_field \<Rightarrow> ('f, 't) dml_field) \<Rightarrow> ('f, 't) dml_model \<Rightarrow> ('f, 't) dml_model" where
  "dml_find_field_mut name g m = m\<lparr>dm_fields := update_first (\<lambda>f. df_name f = name) g (dm_fields m)\<rparr>"

definition singular_id_fields :: "('f, 't) dml_model \<Rightarrow> ('f, 't) dml_field list" where
  "singular_id_fields m = filter (\<lambda>f. df_id_info f \<noteq> None) (dm_fields m)"

definition id_field_names :: "('f, 't) dml_model \<Rightarrow> string list" where
  "id_field_names m = (case singular_id_fields m of f # _ \<Rightarrow> [df_name f] | [] \<Rightarrow> dm_id_fields m)"

definition model_related_field ::
    "('f, 't) dml_model \<Rightarrow> string \<Rightarrow> string \<Rightarrow> string \<Rightarrow> ('f, 't) dml_field option" where
  "model_related_field m to relation_name exclude_field =
     find (\<lambda>f. case df_type f of
             RelationType info \<Rightarrow>
               rel_to info = to \<and> rel_name info = relation_name \<and> (dm_name m \<noteq> to \<or> df_name f \<noteq> exclude_field)
           | _ \<Rightarrow> False) (dm_fields m)"

fun is_relation_type :: "dml_field_type \<Rightarrow> bool" where
  "is_relation_type (RelationType _) = True"
| "is_relation_type _ = False"

definition is_relation_model :: "('f, 't) dml_model \<Rightarrow> bool" where
  "is_relation_model m \<longleftrightarrow>
     length (filter (\<lambda>f. is_relation_type (df_type f) \<and> df_arity f = DRequired) (dm_fields m)) = 2"

definition is_pure_relation_model :: "('f, 't) dml_model \<Rightarrow> bool" where
  "is_pure_relation_model m \<longleftrightarrow> is_relation_model m \<and> length (dm_fields m) = 2"

definition dml_add_index :: "index_definition \<Rightarrow> ('f, 't) dml_model \<Rightarrow> ('f, 't) dml_model" where
  "dml_add_index i m = m\<lparr>dm_indexes := dm_indexes m @ [i]\<rparr>"

definition dml_has_index :: "('f, 't) dml_model \<Rightarrow> index_definition \<Rightarrow> bool" where
  "dml_has_index m i \<longleftrightarrow> list_ex (\<lambda>own_index. own_index = i) (dm_indexes m)"

record dml_enum =
  de_name :: string
  de_values :: "string list"
  de_documentation :: "string option"
  de_database_name :: "string option"

definition dml_enum_new :: "string \<Rightarrow> string list \<Rightarrow> dml_enum" where
  "dml_enum_new name values = \<lparr>de_name = name, de_values = values, de_documentation = None, de_database_name = None\<rparr>"

subsection \<open>Datamodels\<close>

record ('f, 't) datamodel =
  dml_enums :: "dml_enum list"
  dml_models :: "('f, 't) dml_model list"

definition datamodel_new :: "('f, 't) datamodel" where
  "datamodel_new = \<lparr>dml_enums = [], dml_models = []\<rparr>"

definition dml_find_model :: "('f, 't) datamodel \<Rightarrow> string \<Rightarrow> ('f, 't) dml_model option" where
  "dml_find_model d name = find (\<lambda>m. dm_name m = name) (dml_models d)"

definition dml_find_enum :: "('f, 't) datamodel \<Rightarrow> string \<Rightarrow> dml_enum option" where
  "dml_find_enum d name = find (\<lambda>e. de_name e = name) (dml_enums d)"

definition has_model :: "('f, 't) datamodel \<Rightarrow> string \<Rightarrow> bool" where
  "has_model d name \<longleftrightarrow> dml_find_model d name \<noteq> None"

definition has_enum :: "('f, 't) datamodel \<Rightarrow> string \<Rightarrow> bool" where
  "has_enum d name \<longleftrightarrow> dml_find_enum d name \<noteq> None"

definition add_enum :: "dml_enum \<Rightarrow> ('f, 't) datamodel \<Rightarrow> ('f, 't) datamodel" where
  "add_enum e d = d\<lparr>dml_enums := dml_enums d @ [e]\<rparr>"

definition remove_enum :: "string \<Rightarrow> ('f, 't) datamodel \<Rightarrow> ('f, 't) datamodel" where
  "remove_enum name d = d\<lparr>dml_enums := filter (\<lambda>e. de_name e \<noteq> name) (dml_enums d)\<rparr>"

definition add_model :: "('f, 't) dml_model \<Rightarrow> ('f, 't) datamodel \<Rightarrow> ('f, 't) datamodel" where
  "add_model m d = d\<lparr>dml_models := dml_models d @ [m]\<rparr>"

definition remove_model :: "string \<Rightarrow> ('f, 't) datamodel \<Rightarrow> ('f, 't) datamodel" where
  "remove_model name d = d\<lparr>dml_models := filter (\<lambda>m. dm_name m \<noteq> name) (dml_models d)\<rparr>"

definition dml_find_model_mut ::
    "string \<Rightarrow> (('f, 't) dml_model \<Rightarrow> ('f, 't) dml_model) \<Rightarrow> ('f, 't) datamodel \<Rightarrow> ('f, 't) datamodel" where
  "dml_find_model_mut name g d = d\<lparr>dml_models := update_first (\<lambda>m. dm_name m = name) g (dml_models d)\<rparr>"

definition dml_find_enum_mut ::
    "string \<Rightarrow> (dml_enum \<Rightarrow> dml_enum) \<Rightarrow> ('f, 't) datamodel \<Rightarrow> ('f, 't) datamodel" where
  "dml_find_enum_mut name g d = d\<lparr>dml_enums := update_first (\<lambda>e. de_name e = name) g (dml_enums d)\<rparr>"

definition datamodel_find_field :: "('f, 't) datamodel \<Rightarrow> string \<times> string \<Rightarrow> ('f, 't) dml_field option" where
  "datamodel_find_field d field = Option.bind (dml_find_model d (fst field)) (\<lambda>m. dml_find_field m (snd field))"

definition datamodel_related_field ::
    "('f, 't) datamodel \<Rightarrow> string \<Rightarrow> string \<Rightarrow> string \<Rightarrow> string \<Rightarrow> ('f, 't) dml_field option" where
  "datamodel_related_field d from to name exclude_field =
     Option.bind (dml_find_model d to) (\<lambda>related_model.
       find (\<lambda>f. case df_type f of
               RelationType info \<Rightarrow> rel_to info = from \<and> rel_name info = name \<and> df_name f \<noteq> exclude_field
             | _ \<Rightarrow> False) (dm_fields related_model))"

end
