(* ===== verification/Values.thy ===== *)
theory Values
  imports Dml Expression_Codec
begin

section \<open>Values in schema files\<close>

text \<open>
  \<open>libs/datamodel/src/common/value\<close>, \<open>common/functions\<close> and \<open>common/interpolation\<close>: an expression is
  evaluated, with the functions \<open>env\<close>, \<open>now\<close>, \<open>cuid\<close> and \<open>uuid\<close> and with \<open>${..}\<close> in strings, and
  converted to a value of a type. \<open>Inl Panics\<close> stands for a panic.
\<close>

type_synonym 'a dm_result = "datamodel_error abort + 'a"

datatype ('f, 't) maybe_expression =
    MaybeValue "string option" expression
  | MaybeExpression "('f, 't) prisma_value" span

subsection \<open>Parsing literals of the standard library\<close>

text \<open>\<open>i32::from_str\<close> and \<open>bool::from_str\<close> with the descriptions of their errors.\<close>

fun parse_digits :: "bool \<Rightarrow> string \<Rightarrow> int \<Rightarrow> string + int" where
  "parse_digits pos [] n = Inr n"
| "parse_digits pos (c # cs) n =
     (if \<not> ascii_digit c then Inl ''invalid digit found in string''
      else
        let d = int (code c) - 48; m = (if pos then n * 10 + d else n * 10 - d)
        in if pos \<and> m \<ge> 2 ^ 31 then Inl ''number too large to fit in target type''
           else if \<not> pos \<and> m < - (2 ^ 31) then Inl ''number too small to fit in target type''
           else parse_digits pos cs m)"

definition parse_i32 :: "string \<Rightarrow> string + 32 word" where
  "parse_i32 s =
     (let (pos, digits) =
        (case s of
           [] \<Rightarrow> (True, [])
         | c # cs \<Rightarrow> if c = CHR ''+'' then (True, cs) else if c = CHR ''-'' then (False, cs) else (True, s))
      in if digits = [] then Inl ''cannot parse integer from empty string''
         else case parse_digits pos digits 0 of Inl e \<Rightarrow> Inl e | Inr n \<Rightarrow> Inr (word_of_int n))"

definition parse_bool :: "string \<Rightarrow> string + bool" where
  "parse_bool s = (if s = ''true'' then Inr True else if s = ''false'' then Inr False else Inl ''failed to parse bool'')"

subsection \<open>Conversions\<close>

fun expression_span :: "expression \<Rightarrow> span" where
  "expression_span (StringValue _ s) = s"
| "expression_span (NumericValue _ s) = s"
| "expression_span (BooleanValue _ s) = s"
| "expression_span (ConstantValue _ s) = s"
| "expression_span (Function _ _ s) = s"
| "expression_span (Array _ s) = s"
| "expression_span (AnyValue _ s) = s"

fun vv_raw :: "('f, 't) text_lib \<Rightarrow> ('f, 't) maybe_expression \<Rightarrow> string" where
  "vv_raw lib (MaybeValue _ e) = expression_to_string e"
| "vv_raw lib (MaybeExpression v _) = value_to_text lib v"

fun vv_span :: "('f, 't) maybe_expression \<Rightarrow> span" where
  "vv_span (MaybeValue _ e) = expression_span e"
| "vv_span (MaybeExpression _ s) = s"

fun construct_error :: "('f, 't) text_lib \<Rightarrow> ('f, 't) maybe_expression \<Rightarrow> string \<Rightarrow> datamodel_error option" where
  "construct_error lib (MaybeValue env e) expected_type =
     Some (TypeMismatchError expected_type (describe_value_type e) (vv_raw lib (MaybeValue env e))
       (vv_span (MaybeValue env e :: ('f, 't) maybe_expression)))"
| "construct_error lib (MaybeExpression v s) expected_type =
     map_option (\<lambda>t. TypeMismatchError expected_type (prisma_type_to_string t) (vv_raw lib (MaybeExpression v s)) s)
       (value_get_type v)"

definition mismatch :: "('f, 't) text_lib \<Rightarrow> ('f, 't) maybe_expression \<Rightarrow> string \<Rightarrow> 'a dm_result" where
  "mismatch lib v expected_type =
     (case construct_error lib v expected_type of None \<Rightarrow> Inl Panics | Some e \<Rightarrow> Inl (Err e))"

definition wrap_error_from_result ::
    "('f, 't) text_lib \<Rightarrow> ('f, 't) maybe_expression \<Rightarrow> string + 'a \<Rightarrow> string \<Rightarrow> 'a dm_result" where
  "wrap_error_from_result lib v r expected_type =
     map_err (\<lambda>description. Err (ValueParserError expected_type description (vv_raw lib v) (vv_span v))) r"

definition as_str_from_env ::
    "('f, 't) text_lib \<Rightarrow> ('f, 't) maybe_expression \<Rightarrow> (string option \<times> string) dm_result" where
  "as_str_from_env lib v =
     (case v of
        MaybeValue env (StringValue s _) \<Rightarrow> Inr (env, s)
      | MaybeValue env (AnyValue s _) \<Rightarrow> Inr (env, s)
      | _ \<Rightarrow> mismatch lib v ''String'')"

definition as_str :: "('f, 't) text_lib \<Rightarrow> ('f, 't) maybe_expression \<Rightarrow> string dm_result" where
  "as_str lib v = and_then (as_str_from_env lib v) (\<lambda>p. Inr (snd p))"

definition is_from_env :: "('f, 't) maybe_expression \<Rightarrow> bool" where
  "is_from_env v = (case v of MaybeValue (Some _) _ \<Rightarrow> True | _ \<Rightarrow> False)"

definition as_int :: "('f, 't) text_lib \<Rightarrow> ('f, 't) maybe_expression \<Rightarrow> 32 word dm_result" where
  "as_int lib v =
     (case v of
        MaybeValue _ (NumericValue s _) \<Rightarrow> wrap_error_from_result lib v (parse_i32 s) ''numeric''
      | MaybeValue _ (AnyValue s _) \<Rightarrow> wrap_error_from_result lib v (parse_i32 s) ''numeric''
      | _ \<Rightarrow> mismatch lib v ''numeric'')"

definition as_float :: "('f, 't) text_lib \<Rightarrow> ('f, 't) maybe_expression \<Rightarrow> 'f dm_result" where
  "as_float lib v =
     (case v of
        MaybeValue _ (NumericValue s _) \<Rightarrow> wrap_error_from_result lib v (parse_f32 lib s) ''numeric''
      | MaybeValue _ (AnyValue s _) \<Rightarrow> wrap_error_from_result lib v (parse_f32 lib s) ''numeric''
      | _ \<Rightarrow> mismatch lib v ''numeric'')"

definition as_decimal :: "('f, 't) text_lib \<Rightarrow> ('f, 't) maybe_expression \<Rightarrow> 'f dm_result" where
  "as_decimal lib v =
     (case v of
        MaybeValue _ (NumericValue s _) \<Rightarrow> wrap_error_from_result lib v (parse_f32 lib s) ''numeric''
      | MaybeValue _ (AnyValue s _) \<Rightarrow> wrap_error_from_result lib v (parse_f32 lib s) ''numeric''
      | _ \<Rightarrow> mismatch lib v ''numeric'')"

definition as_bool :: "('f, 't) text_lib \<Rightarrow> ('f, 't) maybe_expression \<Rightarrow> bool dm_result" where
  "as_bool lib v =
     (case v of
        MaybeValue _ (BooleanValue s _) \<Rightarrow> wrap_error_from_result lib v (parse_bool s) ''boolean''
      | MaybeValue _ (AnyValue s _) \<Rightarrow> wrap_error_from_result lib v (parse_bool s) ''boolean''
      | _ \<Rightarrow> mismatch lib v ''boolean'')"

definition as_date_time :: "('f, 't) text_lib \<Rightarrow> ('f, 't) maybe_expression \<Rightarrow> 't dm_result" where
  "as_date_time lib v =
     (case v of
        MaybeValue _ (StringValue s _) \<Rightarrow> wrap_error_from_result lib v (parse_datetime lib s) ''datetime''
      | MaybeValue _ (AnyValue s _) \<Rightarrow> wrap_error_from_result lib v (parse_datetime lib s) ''datetime''
      | _ \<Rightarrow> mismatch lib v ''dateTime'')"

definition as_constant_literal :: "('f, 't) text_lib \<Rightarrow> ('f, 't) maybe_expression \<Rightarrow> string dm_result" where
  "as_constant_literal lib v =
     (case v of
        MaybeValue _ (ConstantValue s _) \<Rightarrow> Inr s
      | MaybeValue _ (AnyValue s _) \<Rightarrow> Inr s
      | _ \<Rightarrow> mismatch lib v ''constant literal'')"

definition as_type ::
    "('f, 't) text_lib \<Rightarrow> ('f, 't) maybe_expression \<Rightarrow> prisma_type \<Rightarrow> ('f, 't) prisma_value dm_result" where
  "as_type lib v t =
     (case v of
        MaybeValue _ _ \<Rightarrow>
          (case t of
             PInt \<Rightarrow> and_then (as_int lib v) (\<lambda>x. Inr (IntVal x))
           | PFloat \<Rightarrow> and_then (as_float lib v) (\<lambda>x. Inr (FloatVal x))
           | PDecimal \<Rightarrow> and_then (as_decimal lib v) (\<lambda>x. Inr (DecimalVal x))
           | PBoolean \<Rightarrow> and_then (as_bool lib v) (\<lambda>x. Inr (BooleanVal x))
           | PDateTime \<Rightarrow> and_then (as_date_time lib v) (\<lambda>x. Inr (DateTimeVal x))
           | PString \<Rightarrow> and_then (as_str lib v) (\<lambda>x. Inr (StringVal x)))
      | MaybeExpression e _ \<Rightarrow>
          and_then (unwrap (value_get_type e)) (\<lambda>et.
            if et = t then Inr e else mismatch lib v (prisma_type_to_string t)))"

definition parse_literal ::
    "(string \<Rightarrow> span \<Rightarrow> datamodel_error + 'a) \<Rightarrow> ('f, 't) text_lib \<Rightarrow> ('f, 't) maybe_expression \<Rightarrow> 'a dm_result" where
  "parse_literal from_str lib v =
     and_then (as_constant_literal lib v) (\<lambda>s. map_err Err (from_str s (vv_span v)))"

subsection \<open>Functions\<close>

definition check_arg_count :: "string \<Rightarrow> 'a list \<Rightarrow> nat \<Rightarrow> span \<Rightarrow> unit dm_result" where
  "check_arg_count name values count s =
     (if length values = count then Inr ()
      else Inl (Err (ArgumentCountMissmatch name count (length values) s)))"

definition env_functional_apply ::
    "('f, 't) text_lib \<Rightarrow> ('f, 't) maybe_expression list \<Rightarrow> span \<Rightarrow> ('f, 't) maybe_expression dm_result" where
  "env_functional_apply lib values s =
     and_then (check_arg_count ''env'' values 1 s) (\<lambda>_.
     and_then (as_str lib (hd values)) (\<lambda>var_name.
       case env_var lib var_name of
         Some var \<Rightarrow> Inr (MaybeValue (Some var_name) (AnyValue var s))
       | None \<Rightarrow> Inl (Err (EnvironmentFunctionalEvaluationError var_name (vv_span (hd values))))))"

definition trivial_functional_apply ::
    "string \<Rightarrow> prisma_type \<Rightarrow> ('f, 't) maybe_expression list \<Rightarrow> span \<Rightarrow> ('f, 't) maybe_expression dm_result" where
  "trivial_functional_apply name return_type values s =
     and_then (check_arg_count name values 0 s) (\<lambda>_. Inr (MaybeExpression (ExpressionVal name return_type []) s))"

definition builtin_functionals ::
    "('f, 't) text_lib \<Rightarrow>
      (string \<times> (('f, 't) maybe_expression list \<Rightarrow> span \<Rightarrow> ('f, 't) maybe_expression dm_result)) list" where
  "builtin_functionals lib =
     [(''env'', env_functional_apply lib),
      (''now'', trivial_functional_apply ''now'' PDateTime),
      (''cuid'', trivial_functional_apply ''cuid'' PString),
      (''uuid'', trivial_functional_apply ''uuid'' PString)]"

subsection \<open>Interpolated strings\<close>

text \<open>
  The rule \<open>string_interpolated\<close> of the grammar: characters, escaped \<open>${\<close> and expressions between
  \<open>${\<close> and \<open>}\<close>. \<open>None\<close> is a text the rule does not match.
\<close>

datatype piece = RawPiece string | ExpressionPiece expression

definition escaped_interpolation :: string where
  "escaped_interpolation = CHR 0x5C # interpolation_start"

lemma interpolation_step:
  assumes "p_expression (skip (advance 2 i)) = Some (e, i2)" "token [CHR 0x7D] (skip i2) = Some i3"
  shows "length (snd i3) < length (snd i)"
proof -
  have "length (snd i2) < length (snd (skip (advance 2 i)))" using assms(1) by (rule parser_shrinks(1))
  also have "\<dots> \<le> length (snd i)" using length_skip [of "advance 2 i"] by (simp add: length_advance)
  finally show ?thesis using token_skip_shrinks [OF assms(2)] by simp
qed

function interpolation_pieces :: "pinput \<Rightarrow> piece list option" where
  "interpolation_pieces i =
     (if snd i = [] then Some []
      else if starts_with interpolation_start (snd i) then
        (case p_expression (skip (advance 2 i)) of
           None \<Rightarrow> None
         | Some (e, i2) \<Rightarrow>
             (case token [CHR 0x7D] (skip i2) of
                None \<Rightarrow> None
              | Some i3 \<Rightarrow> map_option (\<lambda>ps. ExpressionPiece e # ps) (interpolation_pieces i3)))
      else if starts_with escaped_interpolation (snd i) then
        map_option (\<lambda>ps. RawPiece interpolation_start # ps) (interpolation_pieces (advance 3 i))
      else map_option (\<lambda>ps. RawPiece [hd (snd i)] # ps) (interpolation_pieces (advance 1 i)))"
  by pat_completeness auto

termination
  by (relation "measure (\<lambda>i. length (snd i))") (auto simp: length_advance dest: interpolation_step)

declare interpolation_pieces.simps [simp del]

subsection \<open>Size of what is parsed\<close>

text \<open>An expression is at most as large as the text it was read from.\<close>

fun weight :: "expression \<Rightarrow> nat" where
  "weight (StringValue s _) = length s + 1"
| "weight (Function _ args _) = Suc (sum_list (map (\<lambda>e. Suc (weight e)) args))"
| "weight (Array vals _) = Suc (sum_list (map (\<lambda>e. Suc (weight e)) vals))"
| "weight _ = 1"

definition weights :: "expression list \<Rightarrow> nat" where
  "weights es = sum_list (map (\<lambda>e. Suc (weight e)) es)"

lemma weights_simps [simp]: "weights [] = 0" "weights (e # es) = Suc (weight e) + weights es"
  by (simp_all add: weights_def)

lemma weight_lifted [simp]: "weight (with_lifted_span e n) = weight e"
  by (induction e) (simp_all add: comp_def cong: map_cong)

lemma weight_Function: "weight (Function n es s) = Suc (weights es)" "weight (Array es s) = Suc (weights es)"
  by (simp_all add: weights_def)

fun piece_weight :: "piece \<Rightarrow> nat" where
  "piece_weight (RawPiece _) = 1"
| "piece_weight (ExpressionPiece e) = Suc (weight e)"

definition pieces_weight :: "piece list \<Rightarrow> nat" where
  "pieces_weight ps = sum_list (map piece_weight ps)"

lemma pieces_weight_simps [simp]:
  "pieces_weight [] = 0" "pieces_weight (p # ps) = piece_weight p + pieces_weight ps"
  by (simp_all add: pieces_weight_def)

text \<open>\<open>consumes n i j\<close>: from \<open>i\<close> to \<open>j\<close> at least \<open>n\<close> bytes are read, and the position counts them.\<close>

definition consumes :: "nat \<Rightarrow> pinput \<Rightarrow> pinput \<Rightarrow> bool" where
  "consumes n i j \<longleftrightarrow>
     n + length (snd j) \<le> length (snd i) \<and> fst j + length (snd j) = fst i + length (snd i)"

lemma consumes_trans [trans]: "consumes n i j \<Longrightarrow> consumes m j k \<Longrightarrow> consumes (n + m) i k"
  by (simp add: consumes_def)

lemma consumes_weaken: "consumes n i j \<Longrightarrow> m \<le> n \<Longrightarrow> consumes m i j"
  by (simp add: consumes_def)

lemma consumes_refl: "consumes 0 i i"
  by (simp add: consumes_def)

lemma consumes_advance: "n \<le> length (snd i) \<Longrightarrow> consumes n i (advance n i)"
  by (simp add: consumes_def advance_def)

lemma consumes_token: "token t i = Some j \<Longrightarrow> consumes (length t) i j"
  by (auto simp: token_def intro!: consumes_advance dest: starts_with_length split: if_splits)

lemma newline_len_le: "newline_len s \<le> length s"
  by (auto simp: newline_len_def dest: starts_with_length split: if_splits)

lemma to_line_end_le: "to_line_end s \<le> length s"
proof (induction s)
  case (Cons c cs)
  then show ?case using newline_len_le [of "c # cs"] by simp
qed simp

lemma gap_len_le: "gap_len s \<le> length s"
proof -
  have "whitespace_len s \<le> length s"
    using newline_len_le [of s]
    by (auto simp: whitespace_len_def dest: starts_with_length find_Some_mem split: option.splits)
  moreover have "comment_len s \<le> length s"
    using to_line_end_le [of "drop 2 s"] by (auto simp: comment_len_def dest: starts_with_length)
  ultimately show ?thesis by (simp add: gap_len_def)
qed

lemma consumes_skip: "consumes 0 i (skip i)"
proof (induction i rule: skip.induct)
  case (1 i)
  show ?case
  proof (cases "snd i = [] \<or> gap_len (snd i) = 0")
    case True
    then show ?thesis by (subst skip.simps) (simp add: consumes_refl)
  next
    case False
    then have "consumes (gap_len (snd i) + 0) i (skip (advance (gap_len (snd i)) i))"
      by (intro consumes_trans [OF consumes_advance [OF gap_len_le]] 1) simp_all
    then have "consumes 0 i (skip (advance (gap_len (snd i)) i))" by (rule consumes_weaken) simp
    with False show ?thesis by (subst skip.simps) simp
  qed
qed

lemma consumes_to_skip: "consumes n i j \<Longrightarrow> consumes n i (skip j)"
  using consumes_trans [OF _ consumes_skip] by fastforce

lemma consumes_from_skip: "consumes n (skip i) j \<Longrightarrow> consumes n i j"
  using consumes_trans [OF consumes_skip] by fastforce

lemma length_takeWhile: "length (takeWhile p xs) \<le> length xs"
  by (rule length_takeWhile_le)

lemma consumes_identifier: "p_identifier i = Some (n, j) \<Longrightarrow> consumes 1 i j"
proof -
  assume a: "p_identifier i = Some (n, j)"
  then obtain c cs where i: "snd i = c # cs" "j = advance (Suc (length (takeWhile ident_char cs))) i"
    by (auto simp: p_identifier_def Let_def split: list.splits if_splits)
  have "Suc (length (takeWhile ident_char cs)) \<le> length (snd i)" using i(1) length_takeWhile by simp
  then have "consumes (Suc (length (takeWhile ident_char cs))) i j" using consumes_advance i(2) by blast
  then show ?thesis by (rule consumes_weaken) simp
qed

lemma digits_len_le: "digits_len s \<le> length s"
  by (simp add: digits_len_def length_takeWhile)

lemma numeric_len_le: "numeric_len s \<le> length s"
proof -
  define sgn where "sgn = (if starts_with ''-'' s then 1 else 0 :: nat)"
  define whole where "whole = digits_len (drop sgn s)"
  have s: "sgn \<le> length s" by (auto simp: sgn_def dest: starts_with_length)
  have w: "whole \<le> length s - sgn" using digits_len_le [of "drop sgn s"] by (simp add: whole_def)
  have f: "starts_with ''.'' (drop (sgn + whole) s) \<Longrightarrow>
      1 + digits_len (drop 1 (drop (sgn + whole) s)) \<le> length s - (sgn + whole)"
    using digits_len_le [of "drop 1 (drop (sgn + whole) s)"] starts_with_length [of "''.''" "drop (sgn + whole) s"] by simp
  show ?thesis using s w f
    by (simp add: numeric_len_def Let_def flip: sgn_def, simp flip: whole_def, linarith)
qed

lemma boolean_len_le: "boolean_len s \<le> length s"
  by (auto simp: boolean_len_def dest: starts_with_length)

lemma escape_len_le: "escape_len s \<le> length s"
proof -
  have "Suc (length e) \<le> length s" if "find (\<lambda>e. starts_with e (drop 1 s)) string_escapes = Some e"
    "starts_with [CHR 0x5C] s" for e
    using that starts_with_length [of e "drop 1 s"] starts_with_length [of "[CHR 0x5C]" s]
    by (auto dest: find_Some_mem)
  then show ?thesis by (auto simp: escape_len_def split: option.splits)
qed

lemma literal_consumes:
  "p_numeric i = Some (e, j) \<Longrightarrow> consumes (weight e) i j"
  "p_boolean i = Some (e, j) \<Longrightarrow> consumes (weight e) i j"
  "p_constant i = Some (e, j) \<Longrightarrow> consumes (weight e) i j"
proof -
  show "p_numeric i = Some (e, j) \<Longrightarrow> consumes (weight e) i j"
    using consumes_advance [OF numeric_len_le, of i]
    by (auto simp: p_numeric_def Let_def split: if_splits elim: consumes_weaken)
  show "p_boolean i = Some (e, j) \<Longrightarrow> consumes (weight e) i j"
    using consumes_advance [OF boolean_len_le, of i]
    by (auto simp: p_boolean_def Let_def split: if_splits elim: consumes_weaken)
  show "p_constant i = Some (e, j) \<Longrightarrow> consumes (weight e) i j"
    using consumes_identifier [of i] by (fastforce simp: p_constant_def split: option.splits)
qed

lemma parser_consumes:
  "p_expression i = Some (e, j) \<Longrightarrow> consumes (weight e) i j"
  "p_array i = Some (e, j) \<Longrightarrow> consumes (weight e) i j"
  "p_function i = Some (e, j) \<Longrightarrow> consumes (weight e) i j"
  "p_string i = Some (e, j) \<Longrightarrow> consumes (weight e) i j"
  "consumes (weights (fst (p_tail i))) i (snd (p_tail i))"
  "consumes 0 i (p_content i)"
proof (induction i and i and i and i and i and i arbitrary: e j and e j and e j and e j
    rule: p_expression_p_array_p_function_p_string_p_tail_p_content.induct)
  case (1 i)
  then show ?case
    by (simp add: p_expression.simps split: option.splits) (auto dest: literal_consumes)
next
  case (2 i)
  from "2.prems" obtain i1 e0 i2 es i3 where r: "token ''['' i = Some i1"
      "p_expression (skip i1) = Some (e0, i2)" "shrinks i2 i" "p_tail i2 = (es, i3)"
      "token '']'' (skip i3) = Some j" and e: "e = Array (e0 # es) (span_new (fst i) (fst j))"
    by (auto simp: p_array.simps split: option.splits if_splits prod.splits)
  have "consumes 1 i i1" using consumes_token [OF r(1)] by simp
  also have "consumes (weight e0) i1 i2" using "2.IH"(1) [OF r(1,2)] by (rule consumes_from_skip)
  also have "consumes (weights es) i2 i3" using "2.IH"(2) [OF r(1,2) _ r(3)] r(4) by simp
  also have "consumes 1 i3 j" using consumes_from_skip [OF consumes_token [OF r(5)]] by simp
  finally show ?case by (rule consumes_weaken) (simp add: e weight_Function del: weight.simps)
next
  case (3 i)
  from "3.prems" obtain n i1 i2 where r: "p_identifier i = Some (n, i1)"
      "token ''('' (skip i1) = Some i2" "shrinks i2 i"
    by (auto simp: p_function.simps split: option.splits if_splits prod.splits)
  have "consumes 1 i i1" using consumes_identifier [OF r(1)] .
  also have "consumes 1 i1 i2" using consumes_from_skip [OF consumes_token [OF r(2)]] by simp
  finally have i2: "consumes (1 + 1) i i2" .
  show ?case
  proof (cases "p_expression (skip i2)")
    case None
    with "3.prems" r have "token '')'' (skip i2) = Some j" and e: "e = Function n [] (span_new (fst i) (fst j))"
      by (auto simp: p_function.simps split: option.splits if_splits)
    then have "consumes 1 i2 j" using consumes_from_skip [OF consumes_token] by fastforce
    from consumes_trans [OF i2 this] show ?thesis by (rule consumes_weaken) (simp add: e)
  next
    case (Some x)
    obtain e0 i3 where x: "x = (e0, i3)" by (cases x)
    obtain es i4 where t: "p_tail i3 = (es, i4)" by (cases "p_tail i3")
    from "3.prems" r Some x t have s: "shrinks i3 i" "token '')'' (skip i4) = Some j"
      and e: "e = Function n (e0 # es) (span_new (fst i) (fst j))"
      by (auto simp: p_function.simps split: option.splits if_splits)
    note i2
    also have "consumes (weight e0) i2 i3"
      by (rule consumes_from_skip) (use "3.IH"(1) [OF r(1) _ r(2,3)] Some x in auto)
    also have "consumes (weights es) i3 i4"
      using "3.IH"(2) [OF r(1) _ r(2,3) Some x [symmetric] s(1)] t by simp
    also have "consumes 1 i4 j" using consumes_from_skip [OF consumes_token [OF s(2)]] by simp
    finally show ?thesis by (rule consumes_weaken) (simp add: e weight_Function del: weight.simps)
  qed
next
  case (4 i)
  from "4.prems" obtain i1 where r: "token [CHR 0x22] i = Some i1"
      "token [CHR 0x22] (skip (p_content (skip i1))) = Some j"
      and e: "e = StringValue (take (fst (p_content (skip i1)) - fst (skip i1)) (snd (skip i1))) (span_new (fst i) (fst j))"
    by (auto simp: p_string.simps Let_def split: option.splits)
  have c: "consumes 0 (skip i1) (p_content (skip i1))" using "4.IH" [OF r(1)] .
  have "consumes 1 i (skip i1)" using consumes_to_skip [OF consumes_token [OF r(1)]] by simp
  also have "consumes (length (snd (skip i1)) - length (snd (p_content (skip i1)))) (skip i1) (p_content (skip i1))"
    using c by (auto simp: consumes_def)
  also have "consumes 1 (p_content (skip i1)) j" using consumes_from_skip [OF consumes_token [OF r(2)]] by simp
  finally show ?case by (rule consumes_weaken) (use c in \<open>auto simp: e consumes_def\<close>)
next
  case (5 i)
  show ?case
  proof (cases "\<exists>i1 e0 i2. token '','' (skip i) = Some i1 \<and> p_expression (skip i1) = Some (e0, i2) \<and> shrinks i2 i")
    case True
    then obtain i1 e0 i2 where r: "token '','' (skip i) = Some i1"
      "p_expression (skip i1) = Some (e0, i2)" "shrinks i2 i" by auto
    have "consumes 1 i i1" using consumes_from_skip [OF consumes_token [OF r(1)]] by simp
    also have "consumes (weight e0) i1 i2" using "5.IH"(1) [OF r(1,2)] by (rule consumes_from_skip)
    also have "consumes (weights (fst (p_tail i2))) i2 (snd (p_tail i2))" using "5.IH"(2) [OF r(1,2) _ r(3)] by simp
    finally show ?thesis using r by (cases "p_tail i2") (simp add: p_tail.simps [of i])
  next
    case False
    then have "p_tail i = ([], i)" by (subst p_tail.simps) (auto split: option.splits)
    then show ?thesis by (simp add: consumes_refl)
  qed
next
  case (6 i)
  show ?case
  proof (cases "raw_char (snd i) \<or> escape_len (snd i) > 0")
    case True
    define n where "n = (if raw_char (snd i) then 1 else escape_len (snd i))"
    have "n \<le> length (snd i)" using escape_len_le [of "snd i"] by (cases "snd i") (auto simp: n_def raw_char_def)
    moreover have "consumes 0 (advance n i) (p_content (advance n i))"
      using "6.IH"(1,2) True by (auto simp: n_def)
    moreover have "p_content i = p_content (advance n i)"
      using True by (subst p_content.simps) (auto simp: n_def)
    ultimately have "consumes (n + 0) i (p_content i)" using consumes_trans [OF consumes_advance] by metis
    then show ?thesis by (rule consumes_weaken) simp
  next
    case False
    show ?thesis
    proof (cases "\<exists>i1 e0 i2 i3. token interpolation_start i = Some i1 \<and> p_expression (skip i1) = Some (e0, i2)
        \<and> token [CHR 0x7D] (skip i2) = Some i3 \<and> shrinks i3 i")
      case True
      then obtain i1 e0 i2 i3 where r: "token interpolation_start i = Some i1"
        "p_expression (skip i1) = Some (e0, i2)" "token [CHR 0x7D] (skip i2) = Some i3" "shrinks i3 i"
        by auto
      note consumes_token [OF r(1)]
      also have "consumes (weight e0) i1 i2"
        by (rule consumes_from_skip) (use "6.IH"(3) [OF _ _ r(1)] r(2) False in auto)
      also have "consumes 1 i2 i3" using consumes_from_skip [OF consumes_token [OF r(3)]] by simp
      also have "consumes 0 i3 (p_content i3)" using "6.IH"(4) [OF _ _ r(1,2) _ r(3,4)] False by simp
      finally have "consumes 0 i (p_content i3)" by (rule consumes_weaken) simp
      with False r show ?thesis by (simp add: p_content.simps [of i])
    next
      case no: False
      with False have "p_content i = i" by (subst p_content.simps) (auto split: option.splits)
      then show ?thesis by (simp add: consumes_refl)
    qed
  qed
qed

lemma interpolation_pieces_weight:
  "interpolation_pieces i = Some ps \<Longrightarrow> pieces_weight ps \<le> length (snd i)"
proof (induction i arbitrary: ps rule: interpolation_pieces.induct)
  case (1 i)
  consider "snd i = []" | "starts_with interpolation_start (snd i)" "snd i \<noteq> []"
    | "\<not> starts_with interpolation_start (snd i)" "starts_with escaped_interpolation (snd i)" "snd i \<noteq> []"
    | "\<not> starts_with interpolation_start (snd i)" "\<not> starts_with escaped_interpolation (snd i)" "snd i \<noteq> []"
    by blast
  then show ?case
  proof cases
    case 1
    with "1.prems" show ?thesis by (simp add: interpolation_pieces.simps [of i])
  next
    case 2
    with "1.prems" obtain e i2 i3 qs where r: "p_expression (skip (advance 2 i)) = Some (e, i2)"
        "token [CHR 0x7D] (skip i2) = Some i3" "interpolation_pieces i3 = Some qs" "ps = ExpressionPiece e # qs"
      by (auto simp: interpolation_pieces.simps [of i] split: option.splits)
    have "2 \<le> length (snd i)" using starts_with_length [OF 2(1)] by (simp add: interpolation_start_def)
    then have "consumes 2 i (skip (advance 2 i))" by (intro consumes_to_skip consumes_advance)
    also have "consumes (weight e) (skip (advance 2 i)) i2" using parser_consumes(1) [OF r(1)] .
    also have "consumes 1 i2 i3" using consumes_from_skip [OF consumes_token [OF r(2)]] by simp
    finally have "3 + weight e + length (snd i3) \<le> length (snd i)" by (simp add: consumes_def)
    moreover have "pieces_weight qs \<le> length (snd i3)"
      using "1.IH"(1) [OF 2(2,1) r(1) refl r(2,3)] .
    ultimately show ?thesis by (simp add: r(4))
  next
    case 3
    with "1.prems" obtain qs where r: "interpolation_pieces (advance 3 i) = Some qs"
        "ps = RawPiece interpolation_start # qs"
      by (auto simp: interpolation_pieces.simps [of i])
    have "3 \<le> length (snd i)"
      using starts_with_length [OF 3(2)] by (simp add: interpolation_start_def escaped_interpolation_def)
    with "1.IH"(2) [OF 3(3,1,2) r(1)] r(2) show ?thesis by (simp add: length_advance)
  next
    case 4
    with "1.prems" obtain qs where r: "interpolation_pieces (advance 1 i) = Some qs" "ps = RawPiece [hd (snd i)] # qs"
      by (auto simp: interpolation_pieces.simps [of i])
    have "1 \<le> length (snd i)" using 4(3) by (cases "snd i") auto
    with "1.IH"(3) [OF 4(3,1,2) r(1)] r(2) show ?thesis by (simp add: length_advance)
  qed
qed

subsection \<open>Evaluation\<close>

text \<open>
  \<open>ValueValidator::new\<close> with the evaluation of functions and interpolated strings it calls. The text of a
  string is parsed as a whole before its expressions are evaluated.
\<close>

definition interpolation_error :: "('f, 't) text_lib \<Rightarrow> string \<Rightarrow> datamodel_error" where
  "interpolation_error lib s = (case interpolation_failure lib s of (expected, location) \<Rightarrow> new_parser_error expected location)"

definition lift_piece :: "span \<Rightarrow> expression \<Rightarrow> expression dm_result" where
  "lift_piece s e =
     (case e of
        Array _ es \<Rightarrow>
          Inl (Err (ValidationError ''Arrays cannot be interpolated into strings.'' (lift_span es (span_start s + 1))))
      | _ \<Rightarrow> Inr (with_lifted_span e (span_start s + 1)))"

lemma lift_piece_weight: "lift_piece s e = Inr e' \<Longrightarrow> weight e' = weight e"
proof -
  assume "lift_piece s e = Inr e'"
  then have "e' = with_lifted_span e (span_start s + 1)" by (cases e) (auto simp: lift_piece_def)
  then show ?thesis by (simp del: with_lifted_span.simps)
qed

function (sequential)
  value_new :: "('f, 't) text_lib \<Rightarrow> expression \<Rightarrow> ('f, 't) maybe_expression dm_result" and
  value_news :: "('f, 't) text_lib \<Rightarrow> expression list \<Rightarrow> ('f, 't) maybe_expression list dm_result" and
  eval_pieces :: "('f, 't) text_lib \<Rightarrow> span \<Rightarrow> piece list \<Rightarrow> string list dm_result"
where
  "value_new lib (StringValue str s) =
     (case interpolation_pieces (0, str) of
        None \<Rightarrow> Inl (Err (interpolation_error lib str))
      | Some ps \<Rightarrow>
          and_then (eval_pieces lib s ps) (\<lambda>parts. Inr (MaybeValue None (StringValue (concat parts) s))))"
| "value_new lib (Function name args s) =
     (case map_of (builtin_functionals lib) name of
        None \<Rightarrow> Inl (Err (FunctionNotKnownError name s))
      | Some f \<Rightarrow> and_then (value_news lib args) (\<lambda>resolved_args. f resolved_args s))"
| "value_new lib e = Inr (MaybeValue None e)"
| "value_news lib [] = Inr []"
| "value_news lib (e # es) =
     and_then (value_new lib e) (\<lambda>v. and_then (value_news lib es) (\<lambda>vs. Inr (v # vs)))"
| "eval_pieces lib s [] = Inr []"
| "eval_pieces lib s (RawPiece r # ps) = and_then (eval_pieces lib s ps) (\<lambda>parts. Inr (r # parts))"
| "eval_pieces lib s (ExpressionPiece e # ps) =
     (case lift_piece s e of
        Inl err \<Rightarrow> Inl err
      | Inr e' \<Rightarrow>
          and_then (value_new lib e') (\<lambda>v.
          and_then (eval_pieces lib s ps) (\<lambda>parts. Inr (vv_raw lib v # parts))))"
  by pat_completeness auto

termination
  by (relation "measure (\<lambda>x. case x of
        Inl (lib, e) \<Rightarrow> weight e
      | Inr (Inl (lib, es)) \<Rightarrow> weights es
      | Inr (Inr (lib, s, ps)) \<Rightarrow> pieces_weight ps)")
    (auto dest: interpolation_pieces_weight lift_piece_weight simp: weight_Function simp del: weight.simps(2))

definition as_array ::
    "('f, 't) text_lib \<Rightarrow> ('f, 't) maybe_expression \<Rightarrow> ('f, 't) maybe_expression list dm_result" where
  "as_array lib v = (case v of MaybeValue _ (Array vals _) \<Rightarrow> value_news lib vals | _ \<Rightarrow> Inr [v])"

fun to_str_vec :: "('f, 't) text_lib \<Rightarrow> ('f, 't) maybe_expression list \<Rightarrow> string list dm_result" where
  "to_str_vec lib [] = Inr []"
| "to_str_vec lib (v # vs) = and_then (as_str lib v) (\<lambda>x. and_then (to_str_vec lib vs) (\<lambda>xs. Inr (x # xs)))"

fun to_literal_vec :: "('f, 't) text_lib \<Rightarrow> ('f, 't) maybe_expression list \<Rightarrow> string list dm_result" where
  "to_literal_vec lib [] = Inr []"
| "to_literal_vec lib (v # vs) =
     and_then (as_constant_literal lib v) (\<lambda>x. and_then (to_literal_vec lib vs) (\<lambda>xs. Inr (x # xs)))"

text \<open>\<open>impl Into<ast::Expression> for &dml::Value\<close>.\<close>

fun value_to_expression :: "('f, 't) text_lib \<Rightarrow> ('f, 't) prisma_value \<Rightarrow> expression" where
  "value_to_expression lib (BooleanVal b) = BooleanValue (show_bool b) span_empty"
| "value_to_expression lib (StringVal s) = StringValue s span_empty"
| "value_to_expression lib (ConstantLiteral s) = ConstantValue s span_empty"
| "value_to_expression lib (DateTimeVal d) = ConstantValue (datetime_to_rfc3339 lib d) span_empty"
| "value_to_expression lib (DecimalVal x) = NumericValue (show_f32 lib x) span_empty"
| "value_to_expression lib (FloatVal x) = NumericValue (show_f32 lib x) span_empty"
| "value_to_expression lib (IntVal n) = NumericValue (show_i32 n) span_empty"
| "value_to_expression lib (ExpressionVal name _ args) =
     Function name (map (value_to_expression lib) args) span_empty"

subsection \<open>Values survive being written and read\<close>

lemma parse_digits_append:
  "parse_digits pos (xs @ ys) n = and_then (parse_digits pos xs n) (parse_digits pos ys)"
  by (induction xs arbitrary: n) (auto simp: Let_def)

lemma digit_char: "n < 10 \<Longrightarrow> ascii_digit (char_of (48 + n)) \<and> code (char_of (48 + n)) = 48 + (n::nat)"
  by (simp add: ascii_digit_def of_char_of)

lemma parse_show_nat_pos: "n < 2 ^ 31 \<Longrightarrow> parse_digits True (show_nat n) 0 = Inr (int n)"
proof (induction n rule: show_nat.induct)
  case (1 n)
  show ?case
  proof (cases "n < 10")
    case True
    then show ?thesis using digit_char [of n] by (subst show_nat.simps) (simp add: Let_def)
  next
    case False
    then have "parse_digits True (show_nat (n div 10)) 0 = Inr (int (n div 10))" using 1 by simp
    moreover have "int (n div 10) * 10 + int (n mod 10) = int n" by presburger
    ultimately show ?thesis using False digit_char [of "n mod 10"] "1.prems"
      by (subst show_nat.simps) (simp add: Let_def parse_digits_append)
  qed
qed

lemma parse_show_nat_neg: "n \<le> 2 ^ 31 \<Longrightarrow> parse_digits False (show_nat n) 0 = Inr (- int n)"
proof (induction n rule: show_nat.induct)
  case (1 n)
  show ?case
  proof (cases "n < 10")
    case True
    then show ?thesis using digit_char [of n] by (subst show_nat.simps) (simp add: Let_def)
  next
    case False
    then have "parse_digits False (show_nat (n div 10)) 0 = Inr (- int (n div 10))" using 1 by simp
    moreover have "- int (n div 10) * 10 - int (n mod 10) = - int n" by presburger
    ultimately show ?thesis using False digit_char [of "n mod 10"] "1.prems"
      by (subst show_nat.simps) (simp add: Let_def parse_digits_append)
  qed
qed

lemma show_nat_digits: "show_nat n \<noteq> [] \<and> list_all ascii_digit (show_nat n)"
proof (induction n rule: show_nat.induct)
  case (1 n)
  then show ?case using digit_char [of n] digit_char [of "n mod 10"] by (subst (1 2) show_nat.simps) auto
qed

lemma show_nat_head: "\<exists>c cs. show_nat n = c # cs \<and> c \<noteq> CHR ''+'' \<and> c \<noteq> CHR ''-''"
  using show_nat_digits [of n] by (cases "show_nat n") (auto simp: ascii_digit_def)

lemma parse_show_i32 [simp]: "parse_i32 (show_i32 w) = Inr w"
proof (cases "sint w < 0")
  case True
  have "- (2 ^ 31) \<le> sint w" using sint_greater_eq [of w] by simp
  then have "nat (- sint w) \<le> 2 ^ 31" by simp
  from parse_show_nat_neg [OF this] True show_nat_digits [of "nat (- sint w)"] show ?thesis
    by (simp add: parse_i32_def show_i32_def)
next
  case False
  have "sint w < 2 ^ 31" using sint_less [of w] by simp
  with False have "nat (sint w) < 2 ^ 31" by simp
  from parse_show_nat_pos [OF this] False show_nat_head [of "nat (sint w)"] show ?thesis
    by (auto simp: parse_i32_def show_i32_def)
qed

lemma parse_show_bool [simp]: "parse_bool (show_bool b) = Inr b"
  by (simp add: parse_bool_def show_bool_def)

text \<open>A text without \<open>${\<close> is read as it is.\<close>

fun no_interpolation :: "string \<Rightarrow> bool" where
  "no_interpolation [] = True"
| "no_interpolation (c # cs) = (\<not> starts_with interpolation_start (c # cs) \<and> no_interpolation cs)"

lemma interpolation_pieces_raw:
  "no_interpolation s \<Longrightarrow> interpolation_pieces (n, s) = Some (map (\<lambda>c. RawPiece [c]) s)"
proof (induction s arbitrary: n)
  case (Cons c cs)
  then have "\<not> starts_with escaped_interpolation (c # cs)"
    by (cases cs) (auto simp: escaped_interpolation_def interpolation_start_def)
  with Cons show ?case by (subst interpolation_pieces.simps) (simp add: advance_def)
qed (simp add: interpolation_pieces.simps)

lemma eval_raw_pieces: "eval_pieces lib s (map (\<lambda>c. RawPiece [c]) cs) = Inr (map (\<lambda>c. [c]) cs)"
  by (induction cs) simp_all

lemma value_new_string:
  "no_interpolation str \<Longrightarrow> value_new lib (StringValue str s) = Inr (MaybeValue None (StringValue str s))"
  by (simp add: interpolation_pieces_raw eval_raw_pieces)

text \<open>
  The values a schema file can hold: floating point numbers that the printer of the standard library
  writes so that its parser reads them back, strings without \<open>${\<close>, and calls of the functions that are
  evaluated by the server.
\<close>

fun storable :: "('f, 't) text_lib \<Rightarrow> ('f, 't) prisma_value \<Rightarrow> bool" where
  "storable lib (FloatVal x) = (parse_f32 lib (show_f32 lib x) = Inr x)"
| "storable lib (DecimalVal x) = (parse_f32 lib (show_f32 lib x) = Inr x)"
| "storable lib (StringVal s) = no_interpolation s"
| "storable lib (ExpressionVal name t args) =
     (args = [] \<and> (name = ''now'' \<and> t = PDateTime \<or> name = ''cuid'' \<and> t = PString \<or> name = ''uuid'' \<and> t = PString))"
| "storable lib (DateTimeVal _) = False"
| "storable lib (ConstantLiteral _) = False"
| "storable lib _ = True"

text \<open>C32: A value that is written as an expression of a schema and read again with its type is the same
  value: integers of all 32 bits, booleans, numbers whose printed form is read back, strings without
  an interpolation and the functions of the server. A date is written as a constant, which is not
  accepted for a date: reading fails with a type mismatch for every date.\<close>

theorem value_write_read:
  "(storable lib v \<longrightarrow> (\<exists>m t. value_get_type v = Some t \<and>
      value_new lib (value_to_expression lib v) = Inr m \<and> as_type lib m t = Inr v)) \<and>
   and_then (value_new lib (value_to_expression lib (DateTimeVal d))) (\<lambda>m. as_type lib m PDateTime) =
     Inl (Err (TypeMismatchError ''dateTime'' ''literal'' (datetime_to_rfc3339 lib d) span_empty))"
proof
  show "storable lib v \<longrightarrow> (\<exists>m t. value_get_type v = Some t \<and>
      value_new lib (value_to_expression lib v) = Inr m \<and> as_type lib m t = Inr v)"
    by (cases v) (auto simp: as_type_def as_int_def as_float_def as_decimal_def as_bool_def as_str_def
        as_str_from_env_def wrap_error_from_result_def value_new_string builtin_functionals_def
        trivial_functional_apply_def check_arg_count_def simp del: value_new.simps(1))
  show "and_then (value_new lib (value_to_expression lib (DateTimeVal d))) (\<lambda>m. as_type lib m PDateTime) =
     Inl (Err (TypeMismatchError ''dateTime'' ''literal'' (datetime_to_rfc3339 lib d) span_empty))"
    by (simp add: as_type_def as_date_time_def mismatch_def)
qed

text \<open>Numbers as their decimal digits and dates as their text.\<close>

definition ex_text_lib :: "(string, string) text_lib" where
  "ex_text_lib = \<lparr>show_f32 = (\<lambda>x. x), parse_f32 = Inr, show_datetime = (\<lambda>x. x),
     datetime_to_rfc3339 = (\<lambda>x. x), parse_datetime = Inr, env_var = (\<lambda>_. None),
     interpolation_failure = (\<lambda>_. ([], span_empty))\<rparr>"

theorem value_write_read_witness:
  "storable ex_text_lib (IntVal (-7)) \<and> storable ex_text_lib (FloatVal ''1.5'') \<and>
   (\<exists>m. value_new ex_text_lib (NumericValue ''-7'' span_empty) = Inr m \<and> as_type ex_text_lib m PInt = Inr (IntVal (-7)))"
proof -
  have s: "show_i32 (-7) = ''-7''" by code_simp
  show ?thesis using value_write_read [of ex_text_lib "IntVal (-7)"]
    by (auto simp: ex_text_lib_def s simp del: value_new.simps)
qed

end
