(* ===== verification/Directives.thy ===== *)
theory Directives
  imports Values Effects "HOL-Library.Char_ord" "HOL-Library.List_Lexorder"
begin

section \<open>Directives\<close>

text \<open>
  \<open>libs/datamodel/src/common/argument\<close> and \<open>validator/directive\<close>: the arguments of a directive, the
  built-in directives, each with the check that applies it to a field, model or enum and the
  function that writes it back, and the validator of a list of directives.
\<close>

subsection \<open>Arguments\<close>

record arguments =
  args_arguments :: "argument list"
  args_used :: "string set"
  args_span :: span

definition arguments_new :: "argument list \<Rightarrow> span \<Rightarrow> arguments" where
  "arguments_new as s = \<lparr>args_arguments = as, args_used = {}, args_span = s\<rparr>"

fun duplicate_argument_errors :: "string set \<Rightarrow> argument list \<Rightarrow> error_collection" where
  "duplicate_argument_errors names [] = []"
| "duplicate_argument_errors names (a # as) =
     (if aname a \<in> names then [DuplicateArgumentError (aname a) (arg_span a)] else [])
     @ duplicate_argument_errors (insert (aname a) names) as"

definition check_for_duplicate_arguments :: "arguments \<Rightarrow> error_collection + unit" where
  "check_for_duplicate_arguments args = errors_ok (duplicate_argument_errors {} (args_arguments args))"

definition check_for_unused_arguments :: "arguments \<Rightarrow> error_collection + unit" where
  "check_for_unused_arguments args =
     errors_ok (map (\<lambda>a. UnusedArgumentError (aname a) (arg_span a))
       (filter (\<lambda>a. aname a \<notin> args_used args) (args_arguments args)))"

definition arg_internal :: "string \<Rightarrow> arguments \<Rightarrow> argument option \<times> arguments" where
  "arg_internal name args =
     (case find (\<lambda>a. aname a = name) (args_arguments args) of
        Some a \<Rightarrow> (Some a, args\<lparr>args_used := insert (aname a) (args_used args)\<rparr>)
      | None \<Rightarrow> (None, args))"

text \<open>A validator runs on its arguments and the object the directive is attached to.\<close>

type_synonym ('o, 'a) directive_run = "(arguments \<times> 'o, datamodel_error, 'a) effect"

definition run_lift :: "'a dm_result \<Rightarrow> ('o, 'a) directive_run" where
  "run_lift r = eff_try_abort (\<lambda>e. e) (\<lambda>_. r)"

definition run_fail :: "datamodel_error \<Rightarrow> ('o, 'a) directive_run" where
  "run_fail e st = Some (Inl e, st)"

definition run_object :: "('o, 'o) directive_run" where
  "run_object st = Some (Inr (snd st), st)"

definition run_modify :: "('o \<Rightarrow> 'o) \<Rightarrow> ('o, unit) directive_run" where
  "run_modify f st = Some (Inr (), (fst st, f (snd st)))"

definition run_span :: "('o, span) directive_run" where
  "run_span st = Some (Inr (args_span (fst st)), st)"

text \<open>\<open>if let Ok(..)\<close>: an error is dropped.\<close>

definition run_ok :: "('o, 'a) directive_run \<Rightarrow> ('o, 'a option) directive_run" where
  "run_ok c st = map_option (\<lambda>(r, st'). (Inr (result_ok r), st')) (c st)"

definition run_map_err :: "(datamodel_error \<Rightarrow> datamodel_error) \<Rightarrow> ('o, 'a) directive_run \<Rightarrow> ('o, 'a) directive_run" where
  "run_map_err f c st = map_option (\<lambda>(r, st'). (map_err f r, st')) (c st)"

definition run_arg :: "('f, 't) text_lib \<Rightarrow> string \<Rightarrow> ('o, ('f, 't) maybe_expression) directive_run" where
  "run_arg lib name st =
     (case arg_internal name (fst st) of
        (None, args) \<Rightarrow> Some (Inl (ArgumentNotFound name (args_span args)), (args, snd st))
      | (Some a, args) \<Rightarrow> run_lift (value_new lib (arg_value a)) (args, snd st))"

definition run_optional_arg ::
    "('f, 't) text_lib \<Rightarrow> string \<Rightarrow> ('o, ('f, 't) maybe_expression option) directive_run" where
  "run_optional_arg lib name st =
     (case arg_internal name (fst st) of
        (None, args) \<Rightarrow> Some (Inr None, (args, snd st))
      | (Some a, args) \<Rightarrow>
          run_lift (and_then (value_new lib (arg_value a)) (\<lambda>v. Inr (Some v))) (args, snd st))"

definition run_default_arg :: "('f, 't) text_lib \<Rightarrow> string \<Rightarrow> ('o, ('f, 't) maybe_expression) directive_run" where
  "run_default_arg lib name st =
     (case arg_internal name (fst st) of (named, args1) \<Rightarrow>
        (case arg_internal '''' args1 of (unnamed, args) \<Rightarrow>
           (case (named, unnamed) of
              (Some a, None) \<Rightarrow> run_lift (value_new lib (arg_value a)) (args, snd st)
            | (None, Some a) \<Rightarrow> run_lift (value_new lib (arg_value a)) (args, snd st)
            | (Some a, Some _) \<Rightarrow> Some (Inl (DuplicateDefaultArgumentError name (arg_span a)), (args, snd st))
            | (None, None) \<Rightarrow> Some (Inl (ArgumentNotFound name (args_span args)), (args, snd st)))))"

subsection \<open>Validators\<close>

text \<open>
  A field is written back together with the model that holds it, which the code finds by the address
  of the field (\<open>find_model_by_field_ref\<close>).
\<close>

record ('f, 't, 'o, 'r) directive_validator =
  dv_name :: string
  dv_duplicate_allowed :: bool
  dv_apply :: "('o, unit) directive_run"
  dv_serialize :: "'r \<Rightarrow> ('f, 't) datamodel \<Rightarrow> directive list dm_result"

type_synonym ('f, 't) field_ref = "('f, 't) dml_model \<times> ('f, 't) dml_field"
type_synonym ('f, 't) field_validator = "('f, 't, ('f, 't) dml_field, ('f, 't) field_ref) directive_validator"
type_synonym ('f, 't) model_validator = "('f, 't, ('f, 't) dml_model, ('f, 't) dml_model) directive_validator"
type_synonym ('f, 't) enum_validator = "('f, 't, dml_enum, dml_enum) directive_validator"

definition run_error :: "string \<Rightarrow> string \<Rightarrow> span \<Rightarrow> ('o, 'a) directive_run" where
  "run_error name msg s = run_fail (DirectiveValidationError msg name s)"

definition parser_error :: "string \<Rightarrow> datamodel_error \<Rightarrow> datamodel_error" where
  "parser_error name e = DirectiveValidationError (error_description e) name (error_span e)"

paragraph \<open>\<open>@default\<close>\<close>

definition default_validate ::
    "('f, 't) text_lib \<Rightarrow> (('f, 't) dml_field, unit) directive_run" where
  "default_validate lib =
     eff_bind run_object (\<lambda>field. eff_bind run_span (\<lambda>s.
       if df_arity field = DList then run_error ''default'' ''Cannot set a default value on list field.'' s
       else case df_type field of
         BaseType t \<Rightarrow>
           eff_bind (run_default_arg lib ''value'') (\<lambda>v.
           eff_bind (run_map_err (parser_error ''default'') (run_lift (as_type lib v t))) (\<lambda>val.
             run_modify (\<lambda>f. f\<lparr>df_default_value := Some val\<rparr>)))
       | EnumType _ \<Rightarrow>
           eff_bind (run_default_arg lib ''value'') (\<lambda>v.
           eff_bind (run_map_err (parser_error ''default'') (run_lift (as_constant_literal lib v))) (\<lambda>val.
             run_modify (\<lambda>f. f\<lparr>df_default_value := Some (ConstantLiteral val)\<rparr>)))
       | _ \<Rightarrow> run_error ''default'' ''Cannot set a default value on a relation field.'' s))"

definition default_serialize ::
    "('f, 't) text_lib \<Rightarrow> ('f, 't) field_ref \<Rightarrow> ('f, 't) datamodel \<Rightarrow> directive list dm_result" where
  "default_serialize lib r _ =
     Inr (case df_default_value (snd r) of
             Some v \<Rightarrow> [directive_new ''default'' [argument_new '''' (value_to_expression lib v)]]
           | None \<Rightarrow> [])"

definition default_directive :: "('f, 't) text_lib \<Rightarrow> ('f, 't) field_validator" where
  "default_directive lib = \<lparr>dv_name = ''default'', dv_duplicate_allowed = False,
     dv_apply = default_validate lib, dv_serialize = default_serialize lib\<rparr>"

paragraph \<open>\<open>@@embedded\<close>\<close>

definition embedded_serialize :: "('f, 't) dml_model \<Rightarrow> ('f, 't) datamodel \<Rightarrow> directive list dm_result" where
  "embedded_serialize m _ = Inr (if dm_is_embedded m then [directive_new ''embedded'' []] else [])"

definition embedded_directive :: "('f, 't) model_validator" where
  "embedded_directive = \<lparr>dv_name = ''embedded'', dv_duplicate_allowed = False,
     dv_apply = run_modify (\<lambda>m. m\<lparr>dm_is_embedded := True\<rparr>), dv_serialize = embedded_serialize\<rparr>"

paragraph \<open>\<open>@id\<close> and \<open>@@id\<close>\<close>

definition id_validate :: "('f, 't) text_lib \<Rightarrow> (('f, 't) dml_field, unit) directive_run" where
  "id_validate lib =
     eff_bind run_object (\<lambda>obj. eff_bind run_span (\<lambda>s.
       if df_arity obj \<noteq> DRequired then run_error ''id'' ''Fields that are marked as id must be required.'' s
       else
         eff_bind (run_ok (run_arg lib ''strategy'')) (\<lambda>arg.
         eff_bind (case arg of
             None \<Rightarrow> eff_return IdAuto
           | Some a \<Rightarrow> run_lift (parse_literal id_strategy_from_str lib a)) (\<lambda>strategy.
           run_modify (\<lambda>f. f\<lparr>df_id_info := Some \<lparr>id_strategy = strategy, id_sequence = None\<rparr>\<rparr>)))))"

definition id_serialize :: "('f, 't) field_ref \<Rightarrow> ('f, 't) datamodel \<Rightarrow> directive list dm_result" where
  "id_serialize r _ =
     Inr (case df_id_info (snd r) of
             Some info \<Rightarrow>
               [directive_new ''id''
                  (if id_strategy info \<noteq> IdAuto
                   then [argument_new_constant ''strategy'' (id_strategy_to_string (id_strategy info))] else [])]
           | None \<Rightarrow> [])"

definition id_directive :: "('f, 't) text_lib \<Rightarrow> ('f, 't) field_validator" where
  "id_directive lib = \<lparr>dv_name = ''id'', dv_duplicate_allowed = False,
     dv_apply = id_validate lib, dv_serialize = id_serialize\<rparr>"

text \<open>The list of field names in \<open>@@id\<close>, \<open>@@unique\<close> and \<open>@@index\<close>: a name that is no constant panics.\<close>

definition run_field_names :: "('f, 't) text_lib \<Rightarrow> string \<Rightarrow> ('o, string list) directive_run" where
  "run_field_names lib name =
     eff_bind (run_default_arg lib ''fields'') (\<lambda>v.
     eff_bind (run_map_err (parser_error name) (run_lift (as_array lib v))) (\<lambda>fields.
       eff_unwrap (map_opt (\<lambda>f. result_ok (as_constant_literal lib f)) fields)))"

definition undefined_fields :: "('f, 't) dml_model \<Rightarrow> string list \<Rightarrow> string list" where
  "undefined_fields m names = filter (\<lambda>n. dml_find_field m n = None) names"

definition model_id_validate :: "('f, 't) text_lib \<Rightarrow> (('f, 't) dml_model, unit) directive_run" where
  "model_id_validate lib =
     eff_bind (run_field_names lib ''id'') (\<lambda>fields.
     eff_bind (run_modify (\<lambda>m. m\<lparr>dm_id_fields := fields\<rparr>)) (\<lambda>_.
     eff_bind run_object (\<lambda>obj. eff_bind run_span (\<lambda>s.
       if undefined_fields obj (dm_id_fields obj) \<noteq> []
       then run_fail (ModelValidationError
         (''The multi field id declaration refers to the unknown fields ''
            @ join '', '' (undefined_fields obj (dm_id_fields obj)) @ ''.'') (dm_name obj) s)
       else eff_return ()))))"

definition constants :: "string list \<Rightarrow> expression list" where
  "constants names = map (\<lambda>n. ConstantValue n span_empty) names"

definition model_id_serialize :: "('f, 't) dml_model \<Rightarrow> ('f, 't) datamodel \<Rightarrow> directive list dm_result" where
  "model_id_serialize m _ =
     Inr (if dm_id_fields m \<noteq> []
           then [directive_new ''id'' [argument_new_array '''' (constants (dm_id_fields m))]] else [])"

definition model_id_directive :: "('f, 't) text_lib \<Rightarrow> ('f, 't) model_validator" where
  "model_id_directive lib = \<lparr>dv_name = ''id'', dv_duplicate_allowed = False,
     dv_apply = model_id_validate lib, dv_serialize = model_id_serialize\<rparr>"

paragraph \<open>\<open>@map\<close> and \<open>@@map\<close>\<close>

definition map_validate ::
    "(string option \<Rightarrow> 'o \<Rightarrow> 'o) \<Rightarrow> ('f, 't) text_lib \<Rightarrow> ('o, unit) directive_run" where
  "map_validate set_database_name lib =
     eff_bind (run_default_arg lib ''name'') (\<lambda>v.
     eff_bind (run_map_err (\<lambda>e. DirectiveValidationError (error_description e) ''map'' (error_span e))
         (run_lift (as_str lib v))) (\<lambda>name.
       run_modify (set_database_name (Some name))))"

definition map_serialize ::
    "('r \<Rightarrow> string option) \<Rightarrow> 'r \<Rightarrow> ('f, 't) datamodel \<Rightarrow> directive list dm_result" where
  "map_serialize database_name r _ =
     Inr (case database_name r of
             Some n \<Rightarrow> [directive_new ''map'' [argument_new_string '''' n]] | None \<Rightarrow> [])"

definition field_map_directive :: "('f, 't) text_lib \<Rightarrow> ('f, 't) field_validator" where
  "field_map_directive lib = \<lparr>dv_name = ''map'', dv_duplicate_allowed = False,
     dv_apply = map_validate (\<lambda>n f. f\<lparr>df_database_name := n\<rparr>) lib,
     dv_serialize = map_serialize (\<lambda>r. df_database_name (snd r))\<rparr>"

definition model_map_directive :: "('f, 't) text_lib \<Rightarrow> ('f, 't) model_validator" where
  "model_map_directive lib = \<lparr>dv_name = ''map'', dv_duplicate_allowed = False,
     dv_apply = map_validate (\<lambda>n m. m\<lparr>dm_database_name := n\<rparr>) lib,
     dv_serialize = map_serialize dm_database_name\<rparr>"

paragraph \<open>\<open>@relation\<close>\<close>

text \<open>\<open>DefaultNames::relation_name\<close>.\<close>

definition default_relation_name :: "string \<Rightarrow> string \<Rightarrow> string" where
  "default_relation_name from to = (if from < to then from @ ''To'' @ to else to @ ''To'' @ from)"

definition modify_relation :: "(relation_info \<Rightarrow> relation_info) \<Rightarrow> ('f, 't) dml_field \<Rightarrow> ('f, 't) dml_field" where
  "modify_relation g f = (case df_type f of RelationType rel \<Rightarrow> f\<lparr>df_type := RelationType (g rel)\<rparr> | _ \<Rightarrow> f)"

definition relation_name_argument :: "('f, 't) text_lib \<Rightarrow> (('f, 't) dml_field, unit) directive_run" where
  "relation_name_argument lib =
     eff_bind (run_ok (run_default_arg lib ''name'')) (\<lambda>arg.
       case arg of
         None \<Rightarrow> eff_return ()
       | Some name_arg \<Rightarrow>
           eff_bind (run_lift (as_str lib name_arg)) (\<lambda>name.
             if name = [] then run_error ''relation'' ''A relation cannot have an empty name.'' (vv_span name_arg)
             else run_modify (modify_relation (\<lambda>rel. rel\<lparr>rel_name := name\<rparr>))))"

definition relation_references_argument :: "('f, 't) text_lib \<Rightarrow> (('f, 't) dml_field, unit) directive_run" where
  "relation_references_argument lib =
     eff_bind (run_ok (run_arg lib ''references'')) (\<lambda>arg.
       case arg of
         None \<Rightarrow> eff_return ()
       | Some related_fields \<Rightarrow>
           eff_bind (run_lift (and_then (as_array lib related_fields) (to_literal_vec lib))) (\<lambda>fields.
             run_modify (modify_relation (\<lambda>rel. rel\<lparr>rel_to_fields := fields\<rparr>))))"

definition relation_on_delete_argument :: "('f, 't) text_lib \<Rightarrow> (('f, 't) dml_field, unit) directive_run" where
  "relation_on_delete_argument lib =
     eff_bind (run_ok (run_arg lib ''onDelete'')) (\<lambda>arg.
       case arg of
         None \<Rightarrow> eff_return ()
       | Some on_delete \<Rightarrow>
           eff_bind (run_lift (parse_literal on_delete_from_str lib on_delete)) (\<lambda>strategy.
             run_modify (modify_relation (\<lambda>rel. rel\<lparr>rel_on_delete := strategy\<rparr>))))"

definition relation_validate :: "('f, 't) text_lib \<Rightarrow> (('f, 't) dml_field, unit) directive_run" where
  "relation_validate lib =
     eff_bind run_object (\<lambda>field. eff_bind run_span (\<lambda>s.
       case df_type field of
         RelationType _ \<Rightarrow>
           eff_bind (relation_name_argument lib) (\<lambda>_.
           eff_bind (relation_references_argument lib) (\<lambda>_. relation_on_delete_argument lib))
       | _ \<Rightarrow> run_error ''relation'' ''Invalid field type, not a relation.'' s))"

definition relation_arguments ::
    "('f, 't) dml_model \<Rightarrow> ('f, 't) dml_model \<Rightarrow> relation_info \<Rightarrow> argument list" where
  "relation_arguments parent_model related_model rel =
     (if rel_name rel \<noteq> [] \<and> rel_name rel \<noteq> default_relation_name (rel_to rel) (dm_name parent_model)
      then [argument_new_string '''' (rel_name rel)] else [])
     @ (if rel_to_fields rel \<noteq> [] \<and> sort (rel_to_fields rel) \<noteq> sort (id_field_names related_model)
            \<and> dm_name parent_model < dm_name related_model
        then [argument_new_array ''references'' (constants (rel_to_fields rel))] else [])
     @ (if rel_on_delete rel \<noteq> OnDeleteNone
        then [argument_new_constant ''onDelete'' (on_delete_to_string (rel_on_delete rel))] else [])"

definition relation_serialize :: "('f, 't) field_ref \<Rightarrow> ('f, 't) datamodel \<Rightarrow> directive list dm_result" where
  "relation_serialize r datamodel =
     (case df_type (snd r) of
        RelationType rel \<Rightarrow>
          and_then (unwrap (dml_find_model datamodel (rel_to rel))) (\<lambda>related_model.
            Inr (if relation_arguments (fst r) related_model rel \<noteq> []
                 then [directive_new ''relation'' (relation_arguments (fst r) related_model rel)] else []))
      | _ \<Rightarrow> Inr [])"

definition relation_directive :: "('f, 't) text_lib \<Rightarrow> ('f, 't) field_validator" where
  "relation_directive lib = \<lparr>dv_name = ''relation'', dv_duplicate_allowed = False,
     dv_apply = relation_validate lib, dv_serialize = relation_serialize\<rparr>"

paragraph \<open>\<open>@scalarList\<close>\<close>

definition scalar_list_validate :: "('f, 't) text_lib \<Rightarrow> (('f, 't) dml_field, unit) directive_run" where
  "scalar_list_validate lib =
     eff_bind (run_arg lib ''strategy'') (\<lambda>v.
     eff_bind (run_map_err (parser_error ''scalarList'') (run_lift (parse_literal scalar_list_strategy_from_str lib v)))
       (\<lambda>strategy. run_modify (\<lambda>f. f\<lparr>df_scalar_list_strategy := Some strategy\<rparr>)))"

definition scalar_list_serialize :: "('f, 't) field_ref \<Rightarrow> ('f, 't) datamodel \<Rightarrow> directive list dm_result" where
  "scalar_list_serialize r _ =
     Inr (case df_scalar_list_strategy (snd r) of
             Some strategy \<Rightarrow> [directive_new ''scalarList''
               [argument_new_constant ''strategy'' (scalar_list_strategy_to_string strategy)]]
           | None \<Rightarrow> [])"

definition scalar_list_directive :: "('f, 't) text_lib \<Rightarrow> ('f, 't) field_validator" where
  "scalar_list_directive lib = \<lparr>dv_name = ''scalarList'', dv_duplicate_allowed = False,
     dv_apply = scalar_list_validate lib, dv_serialize = scalar_list_serialize\<rparr>"

paragraph \<open>\<open>@sequence\<close>\<close>

definition sequence_validate :: "('f, 't) text_lib \<Rightarrow> (('f, 't) dml_field, unit) directive_run" where
  "sequence_validate lib =
     eff_bind (run_arg lib ''name'') (\<lambda>n.
     eff_bind (run_map_err (parser_error ''sequence'') (run_lift (as_str lib n))) (\<lambda>name.
     eff_bind (run_arg lib ''allocationSize'') (\<lambda>a.
     eff_bind (run_map_err (parser_error ''sequence'') (run_lift (as_int lib a))) (\<lambda>allocation_size.
     eff_bind (run_arg lib ''initialValue'') (\<lambda>i.
     eff_bind (run_map_err (parser_error ''sequence'') (run_lift (as_int lib i))) (\<lambda>initial_value.
     eff_bind run_object (\<lambda>obj. eff_bind run_span (\<lambda>s.
       case df_id_info obj of
         Some info \<Rightarrow> run_modify (\<lambda>f. f\<lparr>df_id_info := Some (info\<lparr>id_sequence := Some
             \<lparr>dseq_name = name, dseq_initial_value = initial_value, dseq_allocation_size = allocation_size\<rparr>\<rparr>)\<rparr>)
       | None \<Rightarrow>
           run_error ''sequence'' ''An @sequence directive can only exist on a primary id field.'' s))))))))"

definition sequence_serialize ::
    "('f, 't) text_lib \<Rightarrow> ('f, 't) field_ref \<Rightarrow> ('f, 't) datamodel \<Rightarrow> directive list dm_result" where
  "sequence_serialize lib r _ =
     Inr (case df_id_info (snd r) of
             Some info \<Rightarrow>
               (case id_sequence info of
                  Some sq \<Rightarrow>
                    [directive_new ''sequence''
                       [argument_new_string ''name'' (dseq_name sq),
                        argument_new ''allocationSize'' (value_to_expression lib (IntVal (dseq_allocation_size sq))),
                        argument_new ''initialValue'' (value_to_expression lib (IntVal (dseq_initial_value sq)))]]
                | None \<Rightarrow> [])
           | None \<Rightarrow> [])"

definition sequence_directive :: "('f, 't) text_lib \<Rightarrow> ('f, 't) field_validator" where
  "sequence_directive lib = \<lparr>dv_name = ''sequence'', dv_duplicate_allowed = False,
     dv_apply = sequence_validate lib, dv_serialize = sequence_serialize lib\<rparr>"

paragraph \<open>\<open>@unique\<close>, \<open>@@unique\<close> and \<open>@@index\<close>\<close>

definition unique_serialize :: "('f, 't) field_ref \<Rightarrow> ('f, 't) datamodel \<Rightarrow> directive list dm_result" where
  "unique_serialize r _ = Inr (if df_is_unique (snd r) then [directive_new ''unique'' []] else [])"

definition unique_directive :: "('f, 't) field_validator" where
  "unique_directive = \<lparr>dv_name = ''unique'', dv_duplicate_allowed = False,
     dv_apply = run_modify (\<lambda>f. f\<lparr>df_is_unique := True\<rparr>), dv_serialize = unique_serialize\<rparr>"

definition validate_index ::
    "('f, 't) text_lib \<Rightarrow> string \<Rightarrow> dml_index_type \<Rightarrow> (('f, 't) dml_model, index_definition) directive_run" where
  "validate_index lib directive index_type =
     eff_bind (run_optional_arg lib ''name'') (\<lambda>name_arg.
     eff_bind (case name_arg of
         None \<Rightarrow> eff_return None
       | Some v \<Rightarrow> run_lift (and_then (as_str lib v) (\<lambda>n. Inr (Some n)))) (\<lambda>name.
     eff_bind (run_field_names lib directive) (\<lambda>fields.
     eff_bind run_object (\<lambda>obj. eff_bind run_span (\<lambda>s.
       if undefined_fields obj fields \<noteq> []
       then run_fail (ModelValidationError
         (''The '' @ (if index_type = UniqueIndex then ''unique '' else [])
            @ ''index definition refers to the unknown fields '' @ join '', '' (undefined_fields obj fields) @ ''.'')
         (dm_name obj) s)
       else eff_return \<lparr>idef_name = name, idef_fields = fields, idef_tpe = index_type\<rparr>)))))"

definition serialize_index_definitions ::
    "string \<Rightarrow> dml_index_type \<Rightarrow> ('f, 't) dml_model \<Rightarrow> ('f, 't) datamodel \<Rightarrow> directive list dm_result" where
  "serialize_index_definitions directive index_type m _ =
     Inr (map (\<lambda>i. directive_new directive
         (argument_new_array '''' (constants (idef_fields i))
           # (case idef_name i of Some n \<Rightarrow> [argument_new_string ''name'' n] | None \<Rightarrow> [])))
       (filter (\<lambda>i. idef_tpe i = index_type) (dm_indexes m)))"

definition model_unique_directive :: "('f, 't) text_lib \<Rightarrow> ('f, 't) model_validator" where
  "model_unique_directive lib = \<lparr>dv_name = ''unique'', dv_duplicate_allowed = True,
     dv_apply = eff_bind (validate_index lib ''unique'' UniqueIndex) (\<lambda>i. run_modify (dml_add_index i)),
     dv_serialize = serialize_index_definitions ''unique'' UniqueIndex\<rparr>"

definition model_index_directive :: "('f, 't) text_lib \<Rightarrow> ('f, 't) model_validator" where
  "model_index_directive lib = \<lparr>dv_name = ''index'', dv_duplicate_allowed = True,
     dv_apply = eff_bind (validate_index lib ''index'' NormalIndex) (\<lambda>i. run_modify (dml_add_index i)),
     dv_serialize = serialize_index_definitions ''index'' NormalIndex\<rparr>"

paragraph \<open>\<open>@updatedAt\<close>\<close>

definition updated_at_validate :: "(('f, 't) dml_field, unit) directive_run" where
  "updated_at_validate =
     eff_bind run_object (\<lambda>obj. eff_bind run_span (\<lambda>s.
       if df_type obj \<noteq> BaseType PDateTime
       then run_error ''updatedAt'' ''Fields that are marked with @updatedAt must be of type DateTime.'' s
       else if df_arity obj = DList
       then run_error ''updatedAt'' ''Fields that are marked with @updatedAt can not be lists.'' s
       else run_modify (\<lambda>f. f\<lparr>df_is_updated_at := True\<rparr>)))"

definition updated_at_serialize :: "('f, 't) field_ref \<Rightarrow> ('f, 't) datamodel \<Rightarrow> directive list dm_result" where
  "updated_at_serialize r _ = Inr (if df_is_updated_at (snd r) then [directive_new ''updatedAt'' []] else [])"

definition updated_at_directive :: "('f, 't) field_validator" where
  "updated_at_directive = \<lparr>dv_name = ''updatedAt'', dv_duplicate_allowed = False,
     dv_apply = updated_at_validate, dv_serialize = updated_at_serialize\<rparr>"

subsection \<open>Lists of directives\<close>

text \<open>The \<open>BTreeMap\<close> of known directives is the list of its entries in the order of their names.\<close>

type_synonym ('f, 't, 'o, 'r) directive_list = "(string \<times> ('f, 't, 'o, 'r) directive_validator) list"

definition directive_add ::
    "('f, 't, 'o, 'r) directive_validator \<Rightarrow> ('f, 't, 'o, 'r) directive_list \<Rightarrow> ('f, 't, 'o, 'r) directive_list option" where
  "directive_add v known =
     (if map_of known (dv_name v) \<noteq> None then None else Some (insort_key fst (dv_name v, v) known))"

fun directive_add_all ::
    "('f, 't, 'o, 'r) directive_validator list \<Rightarrow> ('f, 't, 'o, 'r) directive_list \<Rightarrow> ('f, 't, 'o, 'r) directive_list option" where
  "directive_add_all [] known = Some known"
| "directive_add_all (v # vs) known = Option.bind (directive_add v known) (directive_add_all vs)"

text \<open>\<open>DirectiveScope\<close>: the directive of a source under the name of the source.\<close>

definition directive_scope ::
    "string \<Rightarrow> ('f, 't, 'o, 'r) directive_validator \<Rightarrow> ('f, 't, 'o, 'r) directive_validator" where
  "directive_scope scope inner =
     \<lparr>dv_name = scope @ ''.'' @ dv_name inner, dv_duplicate_allowed = False,
      dv_apply = dv_apply inner, dv_serialize = dv_serialize inner\<rparr>"

definition directive_add_all_scoped ::
    "('f, 't, 'o, 'r) directive_validator list \<Rightarrow> string \<Rightarrow> ('f, 't, 'o, 'r) directive_list
       \<Rightarrow> ('f, 't, 'o, 'r) directive_list option" where
  "directive_add_all_scoped vs scope = directive_add_all (map (directive_scope scope) vs)"

definition directive_count :: "string \<Rightarrow> directive list \<Rightarrow> nat" where
  "directive_count n ds = length (filter (\<lambda>d. dname d = n) ds)"

definition directive_failure :: "directive \<Rightarrow> datamodel_error \<Rightarrow> datamodel_error" where
  "directive_failure d e =
     (case e of
        ArgumentNotFound argument_name s \<Rightarrow> DirectiveArgumentNotFound argument_name (dname d) s
      | _ \<Rightarrow> e)"

definition apply_directive ::
    "('f, 't, 'o, 'r) directive_list \<Rightarrow> directive list \<Rightarrow> directive \<Rightarrow> error_collection \<times> 'o
       \<Rightarrow> (error_collection \<times> 'o) option" where
  "apply_directive known ds d st =
     (case map_of known (dname d) of
        None \<Rightarrow> Some (fst st @ [DirectiveNotKnownError (dname d) (ident_span (dir_name d))], snd st)
      | Some v \<Rightarrow>
          (let args = arguments_new (dir_arguments d) (dir_span d);
               errors = fst st
                 @ (if directive_count (dname d) ds > 1 \<and> \<not> dv_duplicate_allowed v
                    then [DuplicateDirectiveError (dname d) (ident_span (dir_name d))] else [])
                 @ errors_of (check_for_duplicate_arguments args)
           in case dv_apply v (args, snd st) of
                None \<Rightarrow> None
              | Some (Inl e, (_, obj)) \<Rightarrow> Some (errors @ [directive_failure d e], obj)
              | Some (Inr _, (args', obj)) \<Rightarrow> Some (errors @ errors_of (check_for_unused_arguments args'), obj)))"

fun apply_directives ::
    "('f, 't, 'o, 'r) directive_list \<Rightarrow> directive list \<Rightarrow> directive list \<Rightarrow> error_collection \<times> 'o
       \<Rightarrow> (error_collection \<times> 'o) option" where
  "apply_directives known ds [] st = Some st"
| "apply_directives known ds (d # rest) st =
     Option.bind (apply_directive known ds d st) (apply_directives known ds rest)"

definition validate_and_apply ::
    "('f, 't, 'o, 'r) directive_list \<Rightarrow> directive list \<Rightarrow> 'o \<Rightarrow> ((error_collection + unit) \<times> 'o) option" where
  "validate_and_apply known ds obj =
     map_option (\<lambda>(errors, obj'). (errors_ok errors, obj')) (apply_directives known ds ds ([], obj))"

fun serialize_all ::
    "('f, 't, 'o, 'r) directive_list \<Rightarrow> 'r \<Rightarrow> ('f, 't) datamodel \<Rightarrow> (error_collection \<times> directive list) option" where
  "serialize_all [] r datamodel = Some ([], [])"
| "serialize_all ((_, v) # vs) r datamodel =
     (case dv_serialize v r datamodel of
        Inl Panics \<Rightarrow> None
      | Inl (Err e) \<Rightarrow> map_option (\<lambda>(errors, ds). (e # errors, ds)) (serialize_all vs r datamodel)
      | Inr ds \<Rightarrow> map_option (\<lambda>(errors, ds'). (errors, ds @ ds')) (serialize_all vs r datamodel))"

definition directives_serialize ::
    "('f, 't, 'o, 'r) directive_list \<Rightarrow> 'r \<Rightarrow> ('f, 't) datamodel \<Rightarrow> (error_collection + directive list) option" where
  "directives_serialize known r datamodel =
     map_option (\<lambda>(errors, ds). and_then (errors_ok errors) (\<lambda>_. Inr ds)) (serialize_all known r datamodel)"

definition new_builtin_field_directives ::
    "('f, 't) text_lib \<Rightarrow> ('f, 't, ('f, 't) dml_field, ('f, 't) field_ref) directive_list option" where
  "new_builtin_field_directives lib =
     directive_add_all
       [field_map_directive lib, id_directive lib, scalar_list_directive lib, sequence_directive lib,
        unique_directive, default_directive lib, relation_directive lib, updated_at_directive] []"

definition new_builtin_model_directives ::
    "('f, 't) text_lib \<Rightarrow> ('f, 't, ('f, 't) dml_model, ('f, 't) dml_model) directive_list option" where
  "new_builtin_model_directives lib =
     directive_add_all
       [model_map_directive lib, embedded_directive, model_unique_directive lib, model_index_directive lib,
        model_id_directive lib] []"

definition new_builtin_enum_directives :: "('f, 't, dml_enum, dml_enum) directive_list option" where
  "new_builtin_enum_directives = Some []"

subsection \<open>All directives of a schema\<close>

record ('f, 't) directive_box =
  box_field :: "('f, 't, ('f, 't) dml_field, ('f, 't) field_ref) directive_list"
  box_model :: "('f, 't, ('f, 't) dml_model, ('f, 't) dml_model) directive_list"
  box_enum :: "('f, 't, dml_enum, dml_enum) directive_list"

text \<open>What a source contributes: the trait \<open>Source\<close>.\<close>

record ('f, 't) source_directives =
  sd_name :: string
  sd_field :: "('f, 't) field_validator list"
  sd_model :: "('f, 't) model_validator list"
  sd_enum :: "('f, 't) enum_validator list"

definition directive_box_new :: "('f, 't) text_lib \<Rightarrow> ('f, 't) directive_box option" where
  "directive_box_new lib =
     Option.bind (new_builtin_field_directives lib) (\<lambda>field.
     Option.bind (new_builtin_model_directives lib) (\<lambda>model.
     map_option (\<lambda>enm. \<lparr>box_field = field, box_model = model, box_enum = enm\<rparr>) new_builtin_enum_directives))"

fun directive_box_add_sources ::
    "('f, 't) source_directives list \<Rightarrow> ('f, 't) directive_box \<Rightarrow> ('f, 't) directive_box option" where
  "directive_box_add_sources [] b = Some b"
| "directive_box_add_sources (s # ss) b =
     Option.bind (directive_add_all_scoped (sd_enum s) (sd_name s) (box_enum b)) (\<lambda>enm.
     Option.bind (directive_add_all_scoped (sd_field s) (sd_name s) (box_field b)) (\<lambda>field.
     Option.bind (directive_add_all_scoped (sd_model s) (sd_name s) (box_model b)) (\<lambda>model.
       directive_box_add_sources ss \<lparr>box_field = field, box_model = model, box_enum = enm\<rparr>)))"

definition directive_box_with_sources ::
    "('f, 't) text_lib \<Rightarrow> ('f, 't) source_directives list \<Rightarrow> ('f, 't) directive_box option" where
  "directive_box_with_sources lib srcs = Option.bind (directive_box_new lib) (directive_box_add_sources srcs)"

text \<open>The built-in directives have different names, so no call of \<open>add\<close> panics.\<close>

lemma builtin_field_directives:
  "new_builtin_field_directives lib = Some
     [(''default'', default_directive lib), (''id'', id_directive lib), (''map'', field_map_directive lib),
      (''relation'', relation_directive lib), (''scalarList'', scalar_list_directive lib),
      (''sequence'', sequence_directive lib), (''unique'', unique_directive), (''updatedAt'', updated_at_directive)]"
  by (simp add: new_builtin_field_directives_def directive_add_def field_map_directive_def id_directive_def
      scalar_list_directive_def sequence_directive_def unique_directive_def default_directive_def
      relation_directive_def updated_at_directive_def less_eq_char_def)

lemma builtin_model_directives:
  "new_builtin_model_directives lib = Some
     [(''embedded'', embedded_directive), (''id'', model_id_directive lib), (''index'', model_index_directive lib),
      (''map'', model_map_directive lib), (''unique'', model_unique_directive lib)]"
  by (simp add: new_builtin_model_directives_def directive_add_def model_map_directive_def embedded_directive_def
      model_unique_directive_def model_index_directive_def model_id_directive_def less_eq_char_def)

end
