(* ===== verification/Precheck.thy ===== *)
theory Precheck
  imports Dml
begin

section \<open>Checks before validation\<close>

text \<open>
  \<open>libs/datamodel/src/validator/precheck.rs\<close>: duplicate names and reserved names. The names of enums,
  models and custom types share one checker, sources and generators have one each.
\<close>

record 'a duplicate_checker =
  checker_seen :: "'a list"
  checker_errors :: error_collection

definition duplicate_checker_new :: "'a duplicate_checker" where
  "duplicate_checker_new = \<lparr>checker_seen = [], checker_errors = []\<rparr>"

definition check_if_duplicate_exists ::
    "('a \<Rightarrow> string) \<Rightarrow> 'a \<Rightarrow> ('a \<Rightarrow> datamodel_error) \<Rightarrow> 'a duplicate_checker \<Rightarrow> 'a duplicate_checker" where
  "check_if_duplicate_exists name named error_fn c =
     (case find (\<lambda>x. name x = name named) (checker_seen c) of
        Some existing \<Rightarrow> c\<lparr>checker_errors := checker_errors c @ [error_fn existing]\<rparr>
      | None \<Rightarrow> c\<lparr>checker_seen := checker_seen c @ [named]\<rparr>)"

text \<open>A loop that checks the elements of a list, each with its own error.\<close>

definition check_duplicates ::
    "('a \<Rightarrow> string) \<Rightarrow> ('a \<Rightarrow> 'a \<Rightarrow> datamodel_error) \<Rightarrow> 'a list \<Rightarrow> 'a duplicate_checker" where
  "check_duplicates name err xs =
     fold (\<lambda>x. check_if_duplicate_exists name x (err x)) xs duplicate_checker_new"

definition assert_is_not_a_reserved_scalar_type :: "ident \<Rightarrow> error_collection" where
  "assert_is_not_a_reserved_scalar_type identifier =
     (case prisma_type_from_str (ident_name identifier) (ident_span identifier) of
        Inr _ \<Rightarrow> [ReservedScalarTypeError (ident_name identifier) (ident_span identifier)]
      | Inl _ \<Rightarrow> [])"

definition precheck_enum :: "ast_enum \<Rightarrow> error_collection" where
  "precheck_enum e =
     checker_errors (check_duplicates value_name
       (\<lambda>v _. DuplicateEnumValueError (ename e) (value_name v) (value_span v)) (enum_values e))"

definition precheck_model :: "ast_model \<Rightarrow> error_collection" where
  "precheck_model m =
     checker_errors (check_duplicates fname
       (\<lambda>f _. DuplicateFieldError (mname m) (fname f) (ident_span (field_name f))) (model_fields m))"

definition precheck_generator_config :: "generator_config \<Rightarrow> error_collection" where
  "precheck_generator_config c =
     checker_errors (check_duplicates aname
       (\<lambda>a _. DuplicateConfigKeyError
          (''generator configuration '' @ quoted (ident_name (generator_name c))) (aname a) (ident_span (arg_name a)))
       (generator_properties c))"

definition precheck_source_config :: "source_config \<Rightarrow> error_collection" where
  "precheck_source_config c =
     checker_errors (check_duplicates aname
       (\<lambda>a _. DuplicateConfigKeyError
          (''datasource configuration '' @ quoted (ident_name (source_name c))) (aname a) (ident_span (arg_name a)))
       (source_properties c))"

record precheck_state =
  pre_errors :: error_collection
  pre_types :: "top duplicate_checker"
  pre_sources :: "top duplicate_checker"
  pre_generators :: "top duplicate_checker"

definition duplicate_top_error :: "top \<Rightarrow> top \<Rightarrow> datamodel_error" where
  "duplicate_top_error t existing =
     DuplicateTopError (top_name t) (top_get_type t) (top_get_type existing) (ident_span (top_ident t))"

definition check_top :: "top \<Rightarrow> top duplicate_checker \<Rightarrow> top duplicate_checker" where
  "check_top t = check_if_duplicate_exists top_name t (duplicate_top_error t)"

fun precheck_top :: "top \<Rightarrow> precheck_state \<Rightarrow> precheck_state" where
  "precheck_top (TopEnum e) s =
     s\<lparr>pre_errors := pre_errors s @ assert_is_not_a_reserved_scalar_type (enum_name e) @ precheck_enum e,
       pre_types := check_top (TopEnum e) (pre_types s)\<rparr>"
| "precheck_top (TopModel m) s =
     s\<lparr>pre_errors := pre_errors s @ assert_is_not_a_reserved_scalar_type (model_name m) @ precheck_model m,
       pre_types := check_top (TopModel m) (pre_types s)\<rparr>"
| "precheck_top (TopType f) s =
     s\<lparr>pre_errors := pre_errors s @ assert_is_not_a_reserved_scalar_type (field_name f),
       pre_types := check_top (TopType f) (pre_types s)\<rparr>"
| "precheck_top (TopSource c) s =
     s\<lparr>pre_errors := pre_errors s @ assert_is_not_a_reserved_scalar_type (source_name c) @ precheck_source_config c,
       pre_sources := check_top (TopSource c) (pre_sources s)\<rparr>"
| "precheck_top (TopGenerator c) s =
     s\<lparr>pre_errors :=
         pre_errors s @ assert_is_not_a_reserved_scalar_type (generator_name c) @ precheck_generator_config c,
       pre_generators := check_top (TopGenerator c) (pre_generators s)\<rparr>"

definition precheck :: "schema_ast \<Rightarrow> error_collection + unit" where
  "precheck s =
     (let r = fold precheck_top (tops s)
        \<lparr>pre_errors = [], pre_types = duplicate_checker_new, pre_sources = duplicate_checker_new,
         pre_generators = duplicate_checker_new\<rparr>
      in errors_ok (pre_errors r @ checker_errors (pre_types r) @ checker_errors (pre_sources r)
           @ checker_errors (pre_generators r)))"

subsection \<open>Which schemas pass\<close>

text \<open>A checker that saw some names reports an error exactly for the names seen before.\<close>

lemma check_duplicates_from:
  fixes name :: "'a \<Rightarrow> string"
  assumes "checker_errors c = []" "distinct (map name (checker_seen c))"
  shows "checker_errors (fold (\<lambda>x. check_if_duplicate_exists name x (err x)) xs c) = [] \<longleftrightarrow>
    distinct (map name (checker_seen c @ xs))"
proof -
  have keep: "checker_errors c' \<noteq> [] \<Longrightarrow>
      checker_errors (fold (\<lambda>x. check_if_duplicate_exists name x (err x)) ys c') \<noteq> []" for c' ys
    by (induction ys arbitrary: c') (auto simp: check_if_duplicate_exists_def split: option.split)
  show ?thesis using assms
  proof (induction xs arbitrary: c)
    case (Cons x xs)
    show ?case
    proof (cases "find (\<lambda>y. name y = name x) (checker_seen c)")
      case None
      then have "name x \<notin> name ` set (checker_seen c)" by (auto simp: find_None_iff)
      with None Cons show ?thesis by (auto simp: check_if_duplicate_exists_def)
    next
      case (Some y)
      then have "name x \<in> name ` set (checker_seen c)" using find_key_Some [of name "name x"] by blast
      then have "\<not> distinct (map name (checker_seen c @ x # xs))" by auto
      moreover have "checker_errors (check_if_duplicate_exists name x (err x) c) \<noteq> []"
        using Some by (simp add: check_if_duplicate_exists_def)
      ultimately show ?thesis using keep by simp
    qed
  qed simp
qed

lemma check_duplicates_ok: "checker_errors (check_duplicates name err xs) = [] \<longleftrightarrow> distinct (map name xs)"
  using check_duplicates_from [of duplicate_checker_new name err xs]
  by (simp add: check_duplicates_def duplicate_checker_new_def)

definition reserved_name :: "string \<Rightarrow> bool" where
  "reserved_name n \<longleftrightarrow> n \<in> {''Int'', ''Float'', ''Decimal'', ''Boolean'', ''String'', ''DateTime''}"

lemma not_reserved: "assert_is_not_a_reserved_scalar_type i = [] \<longleftrightarrow> \<not> reserved_name (ident_name i)"
  by (simp add: assert_is_not_a_reserved_scalar_type_def prisma_type_from_str_def reserved_name_def)

fun entry_ok :: "top \<Rightarrow> bool" where
  "entry_ok (TopEnum e) = distinct (map value_name (enum_values e))"
| "entry_ok (TopModel m) = distinct (map fname (model_fields m))"
| "entry_ok (TopSource c) = distinct (map aname (source_properties c))"
| "entry_ok (TopGenerator c) = distinct (map aname (generator_properties c))"
| "entry_ok (TopType _) = True"

fun is_source :: "top \<Rightarrow> bool" where
  "is_source (TopSource _) = True"
| "is_source _ = False"

fun is_generator :: "top \<Rightarrow> bool" where
  "is_generator (TopGenerator _) = True"
| "is_generator _ = False"

definition is_named_type :: "top \<Rightarrow> bool" where
  "is_named_type t \<longleftrightarrow> \<not> is_source t \<and> \<not> is_generator t"

lemma precheck_fold:
  "let r = fold precheck_top ts s in
     (pre_errors r = [] \<longleftrightarrow> pre_errors s = [] \<and> (\<forall>t\<in>set ts. \<not> reserved_name (top_name t) \<and> entry_ok t)) \<and>
     pre_types r = fold check_top (filter is_named_type ts) (pre_types s) \<and>
     pre_sources r = fold check_top (filter is_source ts) (pre_sources s) \<and>
     pre_generators r = fold check_top (filter is_generator ts) (pre_generators s)"
proof (induction ts arbitrary: s)
  case (Cons t ts)
  have "pre_errors (precheck_top t s) = [] \<longleftrightarrow> pre_errors s = [] \<and> \<not> reserved_name (top_name t) \<and> entry_ok t"
    by (cases t) (auto simp: not_reserved precheck_enum_def precheck_model_def precheck_source_config_def
        precheck_generator_config_def check_duplicates_ok)
  moreover have "pre_types (precheck_top t s) = (if is_named_type t then check_top t (pre_types s) else pre_types s)"
    "pre_sources (precheck_top t s) = (if is_source t then check_top t (pre_sources s) else pre_sources s)"
    "pre_generators (precheck_top t s) = (if is_generator t then check_top t (pre_generators s) else pre_generators s)"
    by (cases t; simp add: is_named_type_def)+
  ultimately show ?case using Cons.IH [of "precheck_top t s"] by (auto simp: Let_def)
qed simp

lemma check_top_ok:
  "checker_errors (fold check_top ts duplicate_checker_new) = [] \<longleftrightarrow> distinct (map top_name ts)"
  using check_duplicates_from [of duplicate_checker_new top_name duplicate_top_error ts]
  by (simp add: check_top_def [abs_def] duplicate_checker_new_def)

text \<open>C31: The check before validation passes exactly the schemas in which no entry has the name of a
  built-in type, enums, models and custom types have different names, so do sources, so do generators,
  and the values of an enum, the fields of a model and the keys of a configuration block are
  different.\<close>

theorem precheck_passes_iff:
  "precheck s = Inr () \<longleftrightarrow>
     list_all (\<lambda>t. \<not> reserved_name (top_name t) \<and> entry_ok t) (tops s) \<and>
     distinct (map top_name (filter is_named_type (tops s))) \<and>
     distinct (map top_name (filter is_source (tops s))) \<and>
     distinct (map top_name (filter is_generator (tops s)))"
  using precheck_fold [of "tops s" "\<lparr>pre_errors = [], pre_types = duplicate_checker_new,
      pre_sources = duplicate_checker_new, pre_generators = duplicate_checker_new\<rparr>"]
  by (auto simp: precheck_def Let_def check_top_ok list_all_iff)

end
