(* ===== verification/Lift.thy ===== *)
theory Lift
  imports Directives Precheck
begin

section \<open>From the AST to the datamodel\<close>

text \<open>
  \<open>libs/datamodel/src/validator/lift.rs\<close>, \<open>validate.rs\<close> and \<open>common.rs\<close>: the lifting of enums, models and
  fields with their directives and the validation of models. A result is \<open>None\<close> when the code panics.
\<close>

type_synonym 'a lift_result = "(error_collection + 'a) option"

subsection \<open>Lifting\<close>

fun lift_field_arity :: "field_arity \<Rightarrow> dml_arity" where
  "lift_field_arity Required = DRequired"
| "lift_field_arity Optional = DOptional"
| "lift_field_arity ListArity = DList"

lemma find_custom_type_name: "find_custom_type s n = Some t \<Longrightarrow> t \<in> set (types s) \<and> fname t = n"
  by (auto simp: find_custom_type_def dest: find_Some_mem)

lemma checked_types_grow:
  assumes "find_custom_type s n = Some t" "n \<notin> set checked"
  shows "card (fname ` set (types s) - set (checked @ [fname t])) < card (fname ` set (types s) - set checked)"
proof (rule psubset_card_mono)
  have "t \<in> set (types s)" "fname t = n" using find_custom_type_name [OF assms(1)] by auto
  with assms(2) show "fname ` set (types s) - set (checked @ [fname t]) \<subset> fname ` set (types s) - set checked" by auto
qed simp

text \<open>
  \<open>lift_field_type\<close> with \<open>resolve_custom_type\<close>: custom types are resolved recursively. The recursion ends
  because every step adds the name of a custom type to \<open>checked_types\<close>.
\<close>

function lift_field_type ::
    "schema_ast \<Rightarrow> ast_field \<Rightarrow> string list \<Rightarrow> datamodel_error + dml_field_type \<times> directive list" where
  "lift_field_type s f checked_types =
     (let type_name = ident_name (field_type f)
      in case prisma_type_from_str type_name (ident_span (field_type f)) of
           Inr t \<Rightarrow> Inr (BaseType t, [])
         | Inl _ \<Rightarrow>
             if find_model s type_name \<noteq> None then Inr (RelationType (relation_info_new type_name), [])
             else if find_enum s type_name \<noteq> None then Inr (EnumType type_name, [])
             else if type_name \<in> set checked_types then
               Inl (ValidationError
                 (''Recursive type definitions are not allowed. Recursive path was: ''
                    @ join '' -> '' checked_types @ '' -> '' @ type_name) (ident_span (field_type f)))
             else case find_custom_type s type_name of
               None \<Rightarrow> Inl (TypeNotFoundError type_name (ident_span (field_type f)))
             | Some custom_type \<Rightarrow>
                 and_then (lift_field_type s custom_type (checked_types @ [fname custom_type])) (\<lambda>(ft, attrs).
                   if is_relation_type ft
                   then Inl (ValidationError ''Only scalar types can be used for defining custom types.''
                     (ident_span (field_type custom_type)))
                   else Inr (ft, attrs @ field_directives custom_type)))"
  by pat_completeness auto

termination
  by (relation "measure (\<lambda>(s, f, checked). card (fname ` set (types s) - set checked))")
    (simp_all only: wf_measure in_measure prod.case checked_types_grow not_False_eq_True)

declare lift_field_type.simps [simp del]

text \<open>The default value of a field in the syntax \<open>= value\<close>: an error of its evaluation ends the field.\<close>

definition lift_default_value ::
    "('f, 't) text_lib \<Rightarrow> dml_field_type \<Rightarrow> expression option \<Rightarrow> ('f, 't) dml_field
       \<Rightarrow> (error_collection \<times> ('f, 't) dml_field) lift_result" where
  "lift_default_value lib ft default_value field =
     (case default_value of
        None \<Rightarrow> Some (Inr ([], field))
      | Some e \<Rightarrow>
          (case value_new lib e of
             Inl Panics \<Rightarrow> None
           | Inl (Err err) \<Rightarrow> Some (Inl [err])
           | Inr v \<Rightarrow>
               (case ft of
                  BaseType t \<Rightarrow>
                    (case as_type lib v t of
                       Inl Panics \<Rightarrow> None
                     | Inl (Err err) \<Rightarrow> Some (Inr ([err], field))
                     | Inr val \<Rightarrow> Some (Inr ([], field\<lparr>df_default_value := Some val\<rparr>)))
                | _ \<Rightarrow> Some (Inr ([ValidationError ''Found default value for a non-scalar type.'' (vv_span v)], field)))))"

definition lift_field ::
    "('f, 't) text_lib \<Rightarrow> ('f, 't) directive_box \<Rightarrow> schema_ast \<Rightarrow> ast_field \<Rightarrow> ('f, 't) dml_field lift_result" where
  "lift_field lib box s f =
     (case lift_field_type s f [] of
        Inl e \<Rightarrow> Some (Inl [e])
      | Inr (ft, extra_attributes) \<Rightarrow>
          (let field = (dml_field_new (fname f) ft)\<lparr>
                 df_documentation := map_option comment_text (field_documentation f),
                 df_arity := lift_field_arity (field_arity f)\<rparr>
           in case lift_default_value lib ft (field_default_value f) field of
                None \<Rightarrow> None
              | Some (Inl es) \<Rightarrow> Some (Inl es)
              | Some (Inr (errors, field1)) \<Rightarrow>
                  map_option (\<lambda>(r, field2).
                      let all_errors = errors @ errors_of r
                      in if has_errors all_errors then Inl all_errors else Inr field2)
                    (validate_and_apply (box_field box) (extra_attributes @ field_directives f) field1)))"

definition lift_enum :: "('f, 't) directive_box \<Rightarrow> ast_enum \<Rightarrow> dml_enum lift_result" where
  "lift_enum box e =
     (let en = (dml_enum_new (ename e) (map value_name (enum_values e)))\<lparr>
            de_documentation := map_option comment_text (enum_documentation e)\<rparr>
      in map_option (\<lambda>(r, en'). if has_errors (errors_of r) then Inl (errors_of r) else Inr en')
           (validate_and_apply (box_enum box) (enum_directives e) en))"

fun lift_fields ::
    "('f, 't) text_lib \<Rightarrow> ('f, 't) directive_box \<Rightarrow> schema_ast \<Rightarrow> ast_field list
       \<Rightarrow> error_collection \<times> ('f, 't) dml_model \<Rightarrow> (error_collection \<times> ('f, 't) dml_model) option" where
  "lift_fields lib box s [] st = Some st"
| "lift_fields lib box s (f # fs) st =
     Option.bind (lift_field lib box s f) (\<lambda>r.
       lift_fields lib box s fs
         (case r of Inr field \<Rightarrow> (fst st, dml_add_field field (snd st)) | Inl es \<Rightarrow> (fst st @ es, snd st)))"

definition lift_model ::
    "('f, 't) text_lib \<Rightarrow> ('f, 't) directive_box \<Rightarrow> schema_ast \<Rightarrow> ast_model \<Rightarrow> ('f, 't) dml_model lift_result" where
  "lift_model lib box s m =
     Option.bind (lift_fields lib box s (model_fields m)
         ([], (dml_model_new (mname m))\<lparr>dm_documentation := map_option comment_text (model_documentation m)\<rparr>))
       (\<lambda>(errors, model).
         map_option (\<lambda>(r, model').
             let all_errors = errors @ errors_of r
             in if has_errors all_errors then Inl all_errors else Inr model')
           (validate_and_apply (box_model box) (model_directives m) model))"

fun lift_top ::
    "('f, 't) text_lib \<Rightarrow> ('f, 't) directive_box \<Rightarrow> schema_ast \<Rightarrow> top
       \<Rightarrow> error_collection \<times> ('f, 't) datamodel \<Rightarrow> (error_collection \<times> ('f, 't) datamodel) option" where
  "lift_top lib box s (TopEnum e) st =
     map_option (\<lambda>r. case r of Inr en \<Rightarrow> (fst st, add_enum en (snd st)) | Inl es \<Rightarrow> (fst st @ es, snd st))
       (lift_enum box e)"
| "lift_top lib box s (TopModel m) st =
     map_option (\<lambda>r. case r of Inr md \<Rightarrow> (fst st, add_model md (snd st)) | Inl es \<Rightarrow> (fst st @ es, snd st))
       (lift_model lib box s m)"
| "lift_top lib box s _ st = Some st"

fun lift_tops ::
    "('f, 't) text_lib \<Rightarrow> ('f, 't) directive_box \<Rightarrow> schema_ast \<Rightarrow> top list
       \<Rightarrow> error_collection \<times> ('f, 't) datamodel \<Rightarrow> (error_collection \<times> ('f, 't) datamodel) option" where
  "lift_tops lib box s [] st = Some st"
| "lift_tops lib box s (t # ts) st = Option.bind (lift_top lib box s t st) (lift_tops lib box s ts)"

definition lift_schema ::
    "('f, 't) text_lib \<Rightarrow> ('f, 't) directive_box \<Rightarrow> schema_ast \<Rightarrow> ('f, 't) datamodel lift_result" where
  "lift_schema lib box s =
     map_option (\<lambda>(errors, schema). if has_errors errors then Inl errors else Inr schema)
       (lift_tops lib box s (tops s) ([], datamodel_new))"

subsection \<open>Validation of models\<close>

definition validate_model_has_id :: "ast_model \<Rightarrow> ('f, 't) dml_model \<Rightarrow> datamodel_error + unit" where
  "validate_model_has_id ast_model model =
     (if is_relation_model model then Inr ()
      else
        let c = length (singular_id_fields model)
        in if c > 1
           then Inl (ModelValidationError
             ''At most one field must be marked as the id field with the `@id` directive.''
             (dm_name model) (model_span ast_model))
           else if (c = 0) = (dm_id_fields model = [])
           then Inl (ModelValidationError
             ''Each model must have exactly one id criteria. Either mark a single field with `@id` or add a multi field id criterion with `@@id([])` to the model.''
             (dm_name model) (model_span ast_model))
           else Inr ())"

definition id_field_valid :: "('f, 't) dml_field \<Rightarrow> bool" where
  "id_field_valid f =
     (case (df_default_value f, df_type f, df_arity f) of
        (Some (ExpressionVal name return_type args), BaseType PString, DRequired) \<Rightarrow>
          (name = ''cuid'' \<or> name = ''uuid'') \<and> return_type = PString \<and> args = []
      | (None, BaseType PInt, DRequired) \<Rightarrow> True
      | _ \<Rightarrow> False)"

text \<open>An error at a field of the schema; a field the AST does not have panics.\<close>

definition field_error :: "schema_ast \<Rightarrow> string \<Rightarrow> string \<Rightarrow> string \<Rightarrow> datamodel_error option" where
  "field_error s msg model_nm field_nm =
     map_option (\<lambda>f. ModelValidationError msg model_nm (field_span f)) (find_field s model_nm field_nm)"

definition first_error :: "datamodel_error option option \<Rightarrow> (datamodel_error + unit) option" where
  "first_error r =
     (case r of None \<Rightarrow> Some (Inr ()) | Some None \<Rightarrow> None | Some (Some e) \<Rightarrow> Some (Inl e))"

definition validate_id_fields_valid :: "schema_ast \<Rightarrow> ('f, 't) dml_model \<Rightarrow> (datamodel_error + unit) option" where
  "validate_id_fields_valid s model =
     first_error (map_option (\<lambda>f. field_error s
         ''Invalid ID field. ID field must be one of: Int @id, String @id @default(cuid()), String @id @default(uuid()).''
         (dm_name model) (df_name f))
       (find (\<lambda>f. \<not> id_field_valid f) (singular_id_fields model)))"

text \<open>The check of one field of an embedded model: \<open>None\<close> when a lookup is unwrapped without a result.\<close>

definition embedded_back_relation :: "('f, 't) datamodel \<Rightarrow> ('f, 't) dml_model \<Rightarrow> ('f, 't) dml_field \<Rightarrow> bool option" where
  "embedded_back_relation datamodel model field =
     (if df_is_generated field then Some False
      else case df_type field of
        RelationType rel \<Rightarrow>
          Option.bind (dml_find_model datamodel (rel_to rel)) (\<lambda>related.
            map_option (\<lambda>related_field. rel_to_fields rel = [] \<and> \<not> df_is_generated related_field)
              (model_related_field related (dm_name model) (rel_name rel) (df_name field)))
      | _ \<Rightarrow> Some False)"

fun first_embedded_back_relation ::
    "('f, 't) datamodel \<Rightarrow> ('f, 't) dml_model \<Rightarrow> ('f, 't) dml_field list \<Rightarrow> ('f, 't) dml_field option option" where
  "first_embedded_back_relation datamodel model [] = Some None"
| "first_embedded_back_relation datamodel model (f # fs) =
     Option.bind (embedded_back_relation datamodel model f) (\<lambda>b.
       if b then Some (Some f) else first_embedded_back_relation datamodel model fs)"

definition validate_embedded_types_have_no_back_relation ::
    "schema_ast \<Rightarrow> ('f, 't) datamodel \<Rightarrow> ('f, 't) dml_model \<Rightarrow> (datamodel_error + unit) option" where
  "validate_embedded_types_have_no_back_relation s datamodel model =
     (if dm_is_embedded model
      then Option.bind (first_embedded_back_relation datamodel model (dm_fields model)) (\<lambda>r.
        first_error (map_option (\<lambda>f. field_error s ''Embedded models cannot have back relation fields.''
          (dm_name model) (df_name f)) r))
      else Some (Inr ()))"

fun field_relation :: "('f, 't) dml_field \<Rightarrow> relation_info option" where
  "field_relation f = (case df_type f of RelationType rel \<Rightarrow> Some rel | _ \<Rightarrow> None)"

definition ambiguous_third ::
    "('f, 't) dml_model \<Rightarrow> ('f, 't) dml_field \<Rightarrow> ('f, 't) dml_field \<Rightarrow> relation_info \<Rightarrow> relation_info \<Rightarrow> bool" where
  "ambiguous_third model field_a field_b rel_a rel_b \<longleftrightarrow>
     list_ex (\<lambda>field_c. field_a \<noteq> field_c \<and> field_b \<noteq> field_c \<and>
        (case field_relation field_c of
           Some rel_c \<Rightarrow> rel_to rel_c = dm_name model \<and> rel_name rel_a = rel_name rel_b \<and> rel_name rel_a = rel_name rel_c
         | None \<Rightarrow> False)) (dm_fields model)"

text \<open>The message for two fields of a model, if their relations are ambiguous.\<close>

definition ambiguous_pair ::
    "('f, 't) dml_model \<Rightarrow> ('f, 't) dml_field \<Rightarrow> ('f, 't) dml_field \<Rightarrow> string option" where
  "ambiguous_pair model field_a field_b =
     (if field_a = field_b then None
      else case (field_relation field_a, field_relation field_b) of
        (Some rel_a, Some rel_b) \<Rightarrow>
          if rel_to rel_a \<noteq> dm_name model \<and> rel_to rel_b \<noteq> dm_name model then
            (if rel_to rel_a = rel_to rel_b \<and> rel_name rel_a = rel_name rel_b
             then Some ''Ambiguous relation detected.'' else None)
          else if rel_to rel_a = dm_name model \<and> rel_to rel_b = dm_name model then
            (if ambiguous_third model field_a field_b rel_a rel_b \<or> rel_name rel_a = [] \<and> rel_name rel_b = []
             then Some ''Ambiguous self relation detected.'' else None)
          else None
      | _ \<Rightarrow> None)"

definition validate_relations_not_ambiguous ::
    "schema_ast \<Rightarrow> ('f, 't) dml_model \<Rightarrow> (datamodel_error + unit) option" where
  "validate_relations_not_ambiguous s model =
     (let pairs = concat (map (\<lambda>a. map (\<lambda>b. (a, b)) (dm_fields model)) (dm_fields model))
      in first_error (map_option (\<lambda>(a, b). Option.bind (ambiguous_pair model a b) (\<lambda>msg.
             field_error s msg (dm_name model) (df_name a)))
           (find (\<lambda>(a, b). ambiguous_pair model a b \<noteq> None) pairs)))"

definition validate_model :: "schema_ast \<Rightarrow> ('f, 't) datamodel \<Rightarrow> ('f, 't) dml_model \<Rightarrow> error_collection option" where
  "validate_model s datamodel model =
     Option.bind (find_model s (dm_name model)) (\<lambda>am.
     Option.bind (validate_id_fields_valid s model) (\<lambda>ids.
     Option.bind (validate_relations_not_ambiguous s model) (\<lambda>rels.
     map_option (\<lambda>emb.
         concat (map (\<lambda>r. case r of Inl e \<Rightarrow> [e] | Inr _ \<Rightarrow> []) [validate_model_has_id am model, ids, rels, emb]))
       (validate_embedded_types_have_no_back_relation s datamodel model))))"

definition validator_validate :: "schema_ast \<Rightarrow> ('f, 't) datamodel \<Rightarrow> unit lift_result" where
  "validator_validate s datamodel =
     map_option errors_ok (concat_map_opt (validate_model s datamodel) (dml_models datamodel))"

end
