(* ===== verification/Standardise.thy ===== *)
theory Standardise
  imports Lift
begin

section \<open>Standardising a datamodel\<close>

text \<open>
  \<open>libs/datamodel/src/validator/standardise.rs\<close> and \<open>validation_pipeline.rs\<close>: missing back relations are
  added, references are set to the id of the related model, unnamed relations are named, and the
  pipeline from the AST to a checked datamodel. The plural of a name (\<open>prisma_inflector\<close>) is an argument.
\<close>

subsection \<open>Names\<close>

text \<open>
  \<open>NameNormalizer::camel_case\<close> on the identifiers of the schema language, whose first character is an
  ASCII letter.
\<close>

definition lower_char :: "char \<Rightarrow> char" where
  "lower_char c = (if CHR ''A'' \<le> c \<and> c \<le> CHR ''Z'' then char_of (of_char c + 32 :: nat) else c)"

definition camel_case :: "string \<Rightarrow> string" where
  "camel_case s = (case s of [] \<Rightarrow> [] | c # cs \<Rightarrow> lower_char c # cs)"

definition tie :: "('f, 't) dml_model \<Rightarrow> ('f, 't) dml_field \<Rightarrow> ('f, 't) dml_model \<Rightarrow> ('f, 't) dml_field \<Rightarrow> bool" where
  "tie a_model a_field b_model b_field \<longleftrightarrow>
     dm_name a_model < dm_name b_model \<or> dm_name a_model = dm_name b_model \<and> df_name a_field < df_name b_field"

subsection \<open>Back relations\<close>

record add_missing_back_relation_field =
  mbr_model :: string
  mbr_field :: string
  mbr_arity :: dml_arity
  mbr_relation_info :: relation_info
  mbr_related_model :: string
  mbr_related_field :: string

definition missing_back_relation ::
    "(string \<Rightarrow> string) \<Rightarrow> ('f, 't) datamodel \<Rightarrow> ('f, 't) dml_model \<Rightarrow> ('f, 't) dml_field
       \<Rightarrow> add_missing_back_relation_field list option" where
  "missing_back_relation pluralize schema model field =
     (case df_type field of
        RelationType rel \<Rightarrow>
          map_option (\<lambda>related_model.
              if model_related_field related_model (dm_name model) (rel_name rel) (df_name field) \<noteq> None then []
              else
                let (arity, field_nm) =
                  (if is_singular (df_arity field) then (DList, camel_case (pluralize (dm_name model)))
                   else (DOptional, camel_case (dm_name model)))
                in [\<lparr>mbr_model = rel_to rel, mbr_field = field_nm, mbr_arity = arity,
                     mbr_relation_info = \<lparr>rel_to = dm_name model, rel_to_fields = [], rel_name = rel_name rel,
                       rel_on_delete = OnDeleteNone\<rparr>,
                     mbr_related_model = dm_name model, mbr_related_field = df_name field\<rparr>])
            (dml_find_model schema (rel_to rel))
      | _ \<Rightarrow> Some [])"

definition find_missing_back_relation_fields ::
    "(string \<Rightarrow> string) \<Rightarrow> ('f, 't) datamodel \<Rightarrow> ('f, 't) dml_model \<Rightarrow> add_missing_back_relation_field list option" where
  "find_missing_back_relation_fields pluralize schema model =
     concat_map_opt (missing_back_relation pluralize schema model) (dm_fields model)"

definition back_relation_field :: "add_missing_back_relation_field \<Rightarrow> ('f, 't) dml_field" where
  "back_relation_field mb =
     (dml_field_new_generated (mbr_field mb) (RelationType (mbr_relation_info mb)))\<lparr>df_arity := mbr_arity mb\<rparr>"

definition add_back_relation ::
    "schema_ast \<Rightarrow> add_missing_back_relation_field \<Rightarrow> error_collection \<times> ('f, 't) datamodel
       \<Rightarrow> (error_collection \<times> ('f, 't) datamodel) option" where
  "add_back_relation s mb st =
     Option.bind (dml_find_model (snd st) (mbr_model mb)) (\<lambda>model.
       if dml_find_field model (mbr_field mb) \<noteq> None then
         Option.bind (dml_find_model (snd st) (mbr_related_model mb)) (\<lambda>source_model.
         Option.bind (dml_find_field source_model (mbr_related_field mb)) (\<lambda>source_field.
         map_option (\<lambda>e. (fst st @ [e], snd st))
           (field_error s
              ''Automatic related field generation would cause a naming conflict. Please add an explicit opposite relation field.''
              (dm_name source_model) (df_name source_field))))
       else
         Some (fst st, dml_find_model_mut (mbr_model mb) (dml_add_field (back_relation_field mb)) (snd st)))"

fun add_back_relations ::
    "schema_ast \<Rightarrow> add_missing_back_relation_field list \<Rightarrow> error_collection \<times> ('f, 't) datamodel
       \<Rightarrow> (error_collection \<times> ('f, 't) datamodel) option" where
  "add_back_relations s [] st = Some st"
| "add_back_relations s (mb # mbs) st = Option.bind (add_back_relation s mb st) (add_back_relations s mbs)"

definition add_missing_back_relations ::
    "(string \<Rightarrow> string) \<Rightarrow> schema_ast \<Rightarrow> ('f, 't) datamodel \<Rightarrow> (error_collection \<times> ('f, 't) datamodel) option" where
  "add_missing_back_relations pluralize s schema =
     Option.bind (concat_map_opt (find_missing_back_relation_fields pluralize schema) (dml_models schema)) (\<lambda>missing.
       add_back_relations s missing ([], schema))"

subsection \<open>References\<close>

definition embed_here ::
    "('f, 't) dml_model \<Rightarrow> ('f, 't) dml_field \<Rightarrow> ('f, 't) dml_model \<Rightarrow> ('f, 't) dml_field \<Rightarrow> bool" where
  "embed_here model field related_model related_field =
     (case (df_arity field, df_arity related_field) of
        (_, DList) \<Rightarrow> True
      | (DList, _) \<Rightarrow> False
      | _ \<Rightarrow>
          if dm_name model < dm_name related_model then True
          else if dm_name model > dm_name related_model then False
          else df_name field < df_name related_field)"

definition set_to_fields ::
    "('f, 't) datamodel \<Rightarrow> ('f, 't) dml_model \<Rightarrow> ('f, 't) dml_field \<Rightarrow> ('f, 't) dml_field option" where
  "set_to_fields schema model field =
     (case df_type field of
        RelationType rel \<Rightarrow>
          Option.bind (dml_find_model schema (rel_to rel)) (\<lambda>related_model.
          Option.bind (model_related_field related_model (dm_name model) (rel_name rel) (df_name field)) (\<lambda>related_field.
          map_option (\<lambda>related_rel.
              if rel_to_fields rel \<noteq> [] \<or> rel_to_fields related_rel \<noteq> [] then field
              else if embed_here model field related_model related_field
              then field\<lparr>df_type := RelationType (rel\<lparr>rel_to_fields := id_field_names related_model\<rparr>)\<rparr>
              else field)
            (field_relation related_field)))
      | _ \<Rightarrow> Some field)"

definition set_relation_to_field_to_id_if_missing :: "('f, 't) datamodel \<Rightarrow> ('f, 't) datamodel option" where
  "set_relation_to_field_to_id_if_missing schema =
     map_option (\<lambda>ms. schema\<lparr>dml_models := ms\<rparr>)
       (map_opt (\<lambda>m. map_option (\<lambda>fs. m\<lparr>dm_fields := fs\<rparr>) (map_opt (set_to_fields schema m) (dm_fields m)))
         (dml_models schema))"

subsection \<open>Names of relations\<close>

definition unnamed_relation ::
    "('f, 't) datamodel \<Rightarrow> ('f, 't) dml_model \<Rightarrow> ('f, 't) dml_field \<Rightarrow> (string \<times> string \<times> relation_info) list option" where
  "unnamed_relation datamodel model field =
     (case df_type field of
        RelationType rel \<Rightarrow>
          Option.bind (dml_find_model datamodel (rel_to rel)) (\<lambda>related_model.
          Option.bind (model_related_field related_model (dm_name model) (rel_name rel) (df_name field)) (\<lambda>related_field.
          map_option (\<lambda>related_rel.
              if rel_name rel = [] \<and> rel_to_fields rel \<noteq> []
                 \<and> (rel_to_fields related_rel = [] \<or> tie model field related_model related_field)
              then [(dm_name model, df_name field, rel)] else [])
            (field_relation related_field)))
      | _ \<Rightarrow> Some [])"

definition find_unnamed_relations :: "('f, 't) datamodel \<Rightarrow> (string \<times> string \<times> relation_info) list option" where
  "find_unnamed_relations datamodel =
     concat_map_opt (\<lambda>m. concat_map_opt (unnamed_relation datamodel m) (dm_fields m)) (dml_models datamodel)"

text \<open>The predicate of \<open>related_field\<close> and \<open>related_field_mut\<close>.\<close>

definition is_related_field :: "string \<Rightarrow> string \<Rightarrow> string \<Rightarrow> string \<Rightarrow> ('f, 't) dml_field \<Rightarrow> bool" where
  "is_related_field self_name to name exclude_field f =
     (case df_type f of
        RelationType info \<Rightarrow> rel_to info = to \<and> rel_name info = name \<and> (self_name \<noteq> to \<or> df_name f \<noteq> exclude_field)
      | _ \<Rightarrow> False)"

definition rename_field ::
    "string \<Rightarrow> (('f, 't) dml_field \<Rightarrow> bool) \<Rightarrow> string \<Rightarrow> ('f, 't) datamodel \<Rightarrow> ('f, 't) datamodel option" where
  "rename_field model_nm p name datamodel =
     Option.bind (dml_find_model datamodel model_nm) (\<lambda>m.
     Option.bind (find p (dm_fields m)) (\<lambda>f.
     map_option (\<lambda>_. dml_find_model_mut model_nm
         (\<lambda>md. md\<lparr>dm_fields := update_first p (modify_relation (\<lambda>rel. rel\<lparr>rel_name := name\<rparr>)) (dm_fields md)\<rparr>)
         datamodel)
       (field_relation f)))"

definition name_unnamed_relation ::
    "string \<times> string \<times> relation_info \<Rightarrow> ('f, 't) datamodel \<Rightarrow> ('f, 't) datamodel option" where
  "name_unnamed_relation r datamodel =
     (case r of (model_nm, field_nm, info) \<Rightarrow>
        Option.bind
          (rename_field model_nm (\<lambda>f. df_name f = field_nm) (default_relation_name model_nm (rel_to info)) datamodel)
          (rename_field (rel_to info) (is_related_field (rel_to info) model_nm (rel_name info) field_nm)
             (default_relation_name model_nm (rel_to info))))"

fun name_relations :: "(string \<times> string \<times> relation_info) list \<Rightarrow> ('f, 't) datamodel \<Rightarrow> ('f, 't) datamodel option" where
  "name_relations [] datamodel = Some datamodel"
| "name_relations (r # rs) datamodel = Option.bind (name_unnamed_relation r datamodel) (name_relations rs)"

definition name_unnamed_relations :: "('f, 't) datamodel \<Rightarrow> ('f, 't) datamodel option" where
  "name_unnamed_relations datamodel =
     Option.bind (find_unnamed_relations datamodel) (\<lambda>rs. name_relations rs datamodel)"

subsection \<open>The pipeline\<close>

definition standardise ::
    "(string \<Rightarrow> string) \<Rightarrow> schema_ast \<Rightarrow> ('f, 't) datamodel \<Rightarrow> ('f, 't) datamodel lift_result" where
  "standardise pluralize s schema =
     Option.bind (add_missing_back_relations pluralize s schema) (\<lambda>(errors, schema1).
       if has_errors errors then Some (Inl errors)
       else
         Option.bind (set_relation_to_field_to_id_if_missing schema1) (\<lambda>schema2.
         map_option Inr (name_unnamed_relations schema2)))"

definition pipeline_validate ::
    "('f, 't) text_lib \<Rightarrow> (string \<Rightarrow> string) \<Rightarrow> ('f, 't) directive_box \<Rightarrow> schema_ast \<Rightarrow> ('f, 't) datamodel lift_result" where
  "pipeline_validate lib pluralize box s =
     (let errors = errors_of (precheck s)
      in Option.bind (lift_schema lib box s) (\<lambda>r.
           case r of
             Inl es \<Rightarrow> Some (Inl (errors @ es))
           | Inr schema \<Rightarrow>
               Option.bind (validator_validate s schema) (\<lambda>v.
               map_option (\<lambda>st.
                   let all_errors = errors @ errors_of v @ errors_of st
                   in case st of Inr schema' \<Rightarrow> if has_errors all_errors then Inl all_errors else Inr schema'
                               | Inl _ \<Rightarrow> Inl all_errors)
                 (standardise pluralize s schema))))"

definition lift_ast_to_datamodel ::
    "('f, 't) text_lib \<Rightarrow> (string \<Rightarrow> string) \<Rightarrow> schema_ast \<Rightarrow> ('f, 't) datamodel lift_result" where
  "lift_ast_to_datamodel lib pluralize s =
     Option.bind (directive_box_with_sources lib []) (\<lambda>box. pipeline_validate lib pluralize box s)"

end
