(* ===== verification/Accepted.thy ===== *)
theory Accepted
  imports Standardise
begin

section \<open>What lifting guarantees\<close>

text \<open>
  Facts about schemas the lifter accepts: which directives they have, and what holds of the fields and
  models it returns. \<open>ensures P c\<close> says that a successful run of \<open>c\<close> keeps \<open>P\<close> of the object it works on.
\<close>

subsection \<open>Runs of directives\<close>

named_theorems ensures_intros \<open>rules for successful runs of directives\<close>

definition ensures :: "('o \<Rightarrow> bool) \<Rightarrow> ('o, 'a) directive_run \<Rightarrow> bool" where
  "ensures P c \<longleftrightarrow> (\<forall>st x st'. c st = Some (Inr x, st') \<longrightarrow> P (snd st) \<longrightarrow> P (snd st'))"

lemma ensures_bind [ensures_intros]:
  "ensures P c \<Longrightarrow> (\<And>x. ensures P (k x)) \<Longrightarrow> ensures P (eff_bind c k)"
  by (fastforce simp: ensures_def eff_simps)

lemma ensures_return [ensures_intros]: "ensures P (eff_return x)"
  by (simp add: ensures_def eff_simps)

lemma ensures_unwrap [ensures_intros]: "ensures P (eff_unwrap m)"
  by (simp add: ensures_def eff_simps)

lemma ensures_lift [ensures_intros]: "ensures P (run_lift r)"
  by (simp add: ensures_def run_lift_def eff_simps)

lemma ensures_fail [ensures_intros]: "ensures P (run_fail e)" "ensures P (run_error n m s)"
  by (simp_all add: ensures_def run_fail_def run_error_def)

lemma ensures_span [ensures_intros]: "ensures P run_span"
  by (simp add: ensures_def run_span_def)

lemma ensures_object: "(\<And>x. P x \<Longrightarrow> ensures P (k x)) \<Longrightarrow> ensures P (eff_bind run_object k)"
  by (fastforce simp: ensures_def eff_simps run_object_def)

lemma ensures_modify: "(\<And>x. P x \<Longrightarrow> P (g x)) \<Longrightarrow> ensures P (run_modify g)"
  by (auto simp: ensures_def run_modify_def)

lemma run_lift_Inr [eff_simps]: "run_lift r st = Some (Inr x, st') \<longleftrightarrow> r = Inr x \<and> st = st'"
  by (simp add: run_lift_def eff_simps)

lemma run_lift_object: "run_lift r st = Some (y, st') \<Longrightarrow> st' = st"
  by (auto simp: run_lift_def eff_try_abort_def split: sum.splits abort.splits)

lemma run_arg_object:
  "run_arg lib n st = Some (y, st') \<Longrightarrow> snd st' = snd st"
  "run_optional_arg lib n st = Some (z, st') \<Longrightarrow> snd st' = snd st"
  "run_default_arg lib n st = Some (w, st') \<Longrightarrow> snd st' = snd st"
  by (auto simp: run_arg_def run_optional_arg_def run_default_arg_def
      split: prod.splits option.splits dest!: run_lift_object)

lemma ensures_args [ensures_intros]:
  "ensures P (run_arg lib n)" "ensures P (run_optional_arg lib n)" "ensures P (run_default_arg lib n)"
  by (auto simp: ensures_def dest!: run_arg_object)

lemma ensures_ok [ensures_intros]: "ensures P (run_ok (run_arg lib n))" "ensures P (run_ok (run_default_arg lib n))"
  by (auto simp: ensures_def run_ok_def dest!: run_arg_object)

lemma ensures_map_err [ensures_intros]: "ensures P c \<Longrightarrow> ensures P (run_map_err f c)"
  by (auto simp: ensures_def run_map_err_def)

lemma run_map_err_Inr [eff_simps]: "run_map_err f c st = Some (Inr x, st') \<longleftrightarrow> c st = Some (Inr x, st')"
  by (cases st') (auto simp: run_map_err_def)

lemma ensures_case_option [ensures_intros]:
  "ensures P c \<Longrightarrow> (\<And>x. ensures P (d x)) \<Longrightarrow> ensures P (case m of None \<Rightarrow> c | Some x \<Rightarrow> d x)"
  by (cases m) simp_all

lemma ensures_if [ensures_intros]: "(b \<Longrightarrow> ensures P c) \<Longrightarrow> (\<not> b \<Longrightarrow> ensures P d) \<Longrightarrow> ensures P (if b then c else d)"
  by simp

lemma ensures_field_names [ensures_intros]: "ensures P (run_field_names lib n)"
  unfolding run_field_names_def by (intro ensures_intros)

text \<open>A value is bound to its type: the result of a conversion.\<close>

lemma ensures_bind_lift:
  "(\<And>x. r = Inr x \<Longrightarrow> ensures P (k x)) \<Longrightarrow> ensures P (eff_bind (run_map_err f (run_lift r)) k)"
  by (auto simp: ensures_def eff_simps)

lemma value_type_as_type: "as_type lib m t = Inr v \<Longrightarrow> value_get_type v = Some t"
  by (auto simp: as_type_def mismatch_def and_then_Inr_iff split: maybe_expression.splits prisma_type.splits
      option.splits if_splits)

subsection \<open>Accepted lists of directives\<close>

definition accepted_directive :: "('f, 't, 'o, 'r) directive_list \<Rightarrow> directive list \<Rightarrow> directive \<Rightarrow> bool" where
  "accepted_directive known ds d \<longleftrightarrow>
     (\<exists>v. map_of known (dname d) = Some v \<and> (directive_count (dname d) ds > 1 \<longrightarrow> dv_duplicate_allowed v))
     \<and> distinct (map aname (dir_arguments d))"

lemma duplicate_argument_errors_Nil:
  "duplicate_argument_errors N as = [] \<longleftrightarrow> distinct (map aname as) \<and> N \<inter> aname ` set as = {}"
  by (induction as arbitrary: N) auto

lemma apply_directive_ok:
  assumes "apply_directive known ds d (es, obj) = Some ([], obj')"
  shows "es = []" "accepted_directive known ds d"
    "\<exists>v x args. map_of known (dname d) = Some v \<and>
       dv_apply v (arguments_new (dir_arguments d) (dir_span d), obj) = Some (Inr x, (args, obj'))"
  using assms
  by (auto simp: apply_directive_def accepted_directive_def check_for_duplicate_arguments_def Let_def
      arguments_new_def duplicate_argument_errors_Nil
      split: option.splits prod.splits sum.splits if_splits)

lemma apply_directives_errors:
  assumes "apply_directives known ds rest (es, obj) = Some ([], obj')"
  shows "es = []"
  using assms
proof (induction rest arbitrary: es obj)
  case (Cons d rest)
  from Cons.prems obtain es1 obj1 where d: "apply_directive known ds d (es, obj) = Some (es1, obj1)"
    "apply_directives known ds rest (es1, obj1) = Some ([], obj')"
    by (auto simp: bind_eq_Some_conv)
  from Cons.IH [OF d(2)] d(1) show ?case by (simp add: apply_directive_ok(1))
qed simp

lemma apply_directives_ok:
  assumes "apply_directives known ds rest (es, obj) = Some ([], obj')"
  shows "list_all (accepted_directive known ds) rest"
    "P obj \<Longrightarrow> (\<And>n v. map_of known n = Some v \<Longrightarrow> ensures P (dv_apply v)) \<Longrightarrow> P obj'"
proof -
  have "list_all (accepted_directive known ds) rest \<and>
    (P obj \<longrightarrow> (\<forall>n v. map_of known n = Some v \<longrightarrow> ensures P (dv_apply v)) \<longrightarrow> P obj')"
    using assms
  proof (induction rest arbitrary: es obj)
    case (Cons d rest)
    from Cons.prems obtain es1 obj1 where d: "apply_directive known ds d (es, obj) = Some (es1, obj1)"
      "apply_directives known ds rest (es1, obj1) = Some ([], obj')"
      by (auto simp: bind_eq_Some_conv)
    have "es1 = []" using apply_directives_errors [OF d(2)] .
    with apply_directive_ok [of known ds d es obj obj1] d(1)
    have "accepted_directive known ds d" and "\<exists>v x args. map_of known (dname d) = Some v \<and>
       dv_apply v (arguments_new (dir_arguments d) (dir_span d), obj) = Some (Inr x, (args, obj1))" by auto
    with Cons.IH [OF d(2)] show ?case by (fastforce simp: ensures_def)
  qed simp
  then show "list_all (accepted_directive known ds) rest"
    "P obj \<Longrightarrow> (\<And>n v. map_of known n = Some v \<Longrightarrow> ensures P (dv_apply v)) \<Longrightarrow> P obj'" by blast+
qed

lemma validate_and_apply_ok:
  assumes "validate_and_apply known ds obj = Some (r, obj')" "errors_of r = []"
  shows "list_all (accepted_directive known ds) ds"
    "P obj \<Longrightarrow> (\<And>n v. map_of known n = Some v \<Longrightarrow> ensures P (dv_apply v)) \<Longrightarrow> P obj'"
proof -
  from assms have r: "apply_directives known ds ds ([], obj) = Some ([], obj')"
    by (auto simp: validate_and_apply_def)
  show "list_all (accepted_directive known ds) ds" using apply_directives_ok(1) [OF r] .
  show "P obj \<Longrightarrow> (\<And>n v. map_of known n = Some v \<Longrightarrow> ensures P (dv_apply v)) \<Longrightarrow> P obj'"
    using apply_directives_ok(2) [OF r] .
qed

subsection \<open>Fields\<close>

text \<open>The type of a field without what \<open>@relation\<close> may change.\<close>

fun type_kind :: "dml_field_type \<Rightarrow> dml_field_type" where
  "type_kind (RelationType rel) = RelationType (relation_info_new (rel_to rel))"
| "type_kind t = t"

text \<open>
  A default value has the type of its field, an id field is required, and a field that is set to the
  time of an update holds one date.
\<close>

fun default_typed :: "dml_field_type \<Rightarrow> ('f, 't) prisma_value option \<Rightarrow> bool" where
  "default_typed _ None = True"
| "default_typed (BaseType t) (Some v) = (value_get_type v = Some t)"
| "default_typed (EnumType _) (Some v) = (\<exists>c. v = ConstantLiteral c)"
| "default_typed _ (Some v) = False"

definition field_typed :: "('f, 't) dml_field \<Rightarrow> bool" where
  "field_typed f \<longleftrightarrow>
     default_typed (df_type f) (df_default_value f) \<and>
     (df_id_info f \<noteq> None \<longrightarrow> df_arity f = DRequired) \<and>
     (df_is_updated_at f \<longrightarrow> df_type f = BaseType PDateTime \<and> df_arity f \<noteq> DList)"

definition field_like :: "string \<Rightarrow> dml_arity \<Rightarrow> dml_field_type \<Rightarrow> ('f, 't) dml_field \<Rightarrow> bool" where
  "field_like n a ft f \<longleftrightarrow> df_name f = n \<and> df_arity f = a \<and> type_kind (df_type f) = type_kind ft \<and>
     \<not> df_is_generated f \<and> field_typed f"

lemma type_kind_base [simp]:
  "type_kind t = BaseType b \<longleftrightarrow> t = BaseType b" "type_kind t = EnumType e \<longleftrightarrow> t = EnumType e"
  "BaseType b = type_kind t \<longleftrightarrow> t = BaseType b" "EnumType e = type_kind t \<longleftrightarrow> t = EnumType e"
  by (cases t; auto)+

lemma type_kind_relation: "type_kind t = type_kind (RelationType rel) \<Longrightarrow> \<exists>rel'. t = RelationType rel' \<and> rel_to rel' = rel_to rel"
  by (cases t) (auto simp: relation_info_new_def)

lemma modify_relation_like:
  assumes "field_like n a ft f" "\<And>rel. rel_to (g rel) = rel_to rel"
  shows "field_like n a ft (modify_relation g f)"
proof (cases "df_type f")
  case (RelationType rel)
  then have "df_default_value f = None"
    using assms(1) by (cases "df_default_value f") (auto simp: field_like_def field_typed_def)
  with assms RelationType show ?thesis by (auto simp: field_like_def modify_relation_def field_typed_def)
qed (use assms(1) in \<open>simp_all add: modify_relation_def\<close>)

lemma default_validate_ensures: "ensures (field_like n a ft) (default_validate lib)"
  unfolding default_validate_def
proof (rule ensures_object, goal_cases)
  case (1 field)
  have b: "ensures (field_like n a ft) (run_modify (\<lambda>f. f\<lparr>df_default_value := Some v\<rparr>))"
    if "df_type field = BaseType t" "as_type lib x t = Inr v" for t v x
    using 1 that by (intro ensures_modify) (auto simp: field_like_def field_typed_def dest: value_type_as_type)
  have e: "ensures (field_like n a ft) (run_modify (\<lambda>f. f\<lparr>df_default_value := Some (ConstantLiteral v)\<rparr>))"
    if "df_type field = EnumType e" for e v
    using 1 that by (intro ensures_modify) (auto simp: field_like_def field_typed_def)
  show ?case
  proof (cases "df_type field")
    case (EnumType t)
    with e [OF this] show ?thesis
      by (auto intro!: ensures_bind_lift ensures_bind [OF ensures_span] ensures_bind [OF ensures_args(3)] ensures_fail)
  next
    case (BaseType t)
    with b [OF this] show ?thesis
      by (auto intro!: ensures_bind_lift ensures_bind [OF ensures_span] ensures_bind [OF ensures_args(3)] ensures_fail)
  qed (auto intro!: ensures_bind [OF ensures_span] ensures_fail)
qed

lemma id_validate_ensures: "ensures (field_like n a ft) (id_validate lib)"
  unfolding id_validate_def
  by (rule ensures_object)
    (auto intro!: ensures_intros ensures_modify simp: field_like_def field_typed_def)

lemma relation_validate_ensures: "ensures (field_like n a ft) (relation_validate lib)"
proof -
  have m: "ensures (field_like n a ft) (run_modify (modify_relation g))" if "\<And>rel. rel_to (g rel) = rel_to rel" for g
    using that by (intro ensures_modify modify_relation_like)
  have "ensures (field_like n a ft) (relation_name_argument lib)"
    "ensures (field_like n a ft) (relation_references_argument lib)"
    "ensures (field_like n a ft) (relation_on_delete_argument lib)"
    unfolding relation_name_argument_def relation_references_argument_def relation_on_delete_argument_def
    by (intro ensures_intros m; simp)+
  then show ?thesis unfolding relation_validate_def
    by (intro ensures_object) (auto intro!: ensures_intros split: dml_field_type.split)
qed

lemma sequence_validate_ensures: "ensures (field_like n a ft) (sequence_validate lib)"
proof -
  have "ensures (field_like n a ft)
      (case df_id_info obj of
         Some info \<Rightarrow> run_modify (\<lambda>f. f\<lparr>df_id_info := Some (info\<lparr>id_sequence := Some q\<rparr>)\<rparr>)
       | None \<Rightarrow> run_error ''sequence'' msg s)" if "field_like n a ft obj" for obj q msg s
    using that by (auto intro!: ensures_modify ensures_fail simp: field_like_def field_typed_def split: option.split)
  then show ?thesis unfolding sequence_validate_def
    by (intro ensures_bind ensures_args ensures_map_err ensures_lift ensures_object ensures_span)
qed

lemma scalar_list_validate_ensures: "ensures (field_like n a ft) (scalar_list_validate lib)"
  unfolding scalar_list_validate_def
  by (intro ensures_intros ensures_modify) (auto simp: field_like_def field_typed_def)

lemma updated_at_validate_ensures: "ensures (field_like n a ft) updated_at_validate"
  unfolding updated_at_validate_def
  by (rule ensures_object) (auto intro!: ensures_intros ensures_modify simp: field_like_def field_typed_def)

lemma field_directive_ensures:
  assumes "new_builtin_field_directives lib = Some known" "map_of known k = Some v"
  shows "ensures (field_like n a ft) (dv_apply v)"
proof -
  have "ensures (field_like n a ft) (map_validate (\<lambda>n f. f\<lparr>df_database_name := n\<rparr>) lib)"
    unfolding map_validate_def
    by (intro ensures_intros ensures_modify) (auto simp: field_like_def field_typed_def)
  moreover have "ensures (field_like n a ft) (run_modify (\<lambda>f. f\<lparr>df_is_unique := True\<rparr>))"
    by (intro ensures_modify) (auto simp: field_like_def field_typed_def)
  ultimately show ?thesis using assms
    by (auto simp: builtin_field_directives default_directive_def id_directive_def field_map_directive_def
        relation_directive_def scalar_list_directive_def sequence_directive_def unique_directive_def
        updated_at_directive_def default_validate_ensures id_validate_ensures relation_validate_ensures
        sequence_validate_ensures scalar_list_validate_ensures updated_at_validate_ensures split: if_splits)
qed

subsection \<open>Accepted fields and models\<close>

definition builtin_box :: "('f, 't) text_lib \<Rightarrow> ('f, 't) directive_box" where
  "builtin_box lib = \<lparr>box_field = the (new_builtin_field_directives lib),
     box_model = the (new_builtin_model_directives lib), box_enum = []\<rparr>"

lemma directive_box_builtin: "directive_box_with_sources lib [] = Some (builtin_box lib)"
  by (simp add: directive_box_with_sources_def directive_box_new_def builtin_box_def builtin_field_directives
      builtin_model_directives new_builtin_enum_directives_def)

lemma box_field_ensures: "map_of (box_field (builtin_box lib)) k = Some v \<Longrightarrow> ensures (field_like n a ft) (dv_apply v)"
  using field_directive_ensures [of lib "box_field (builtin_box lib)" k v n a ft]
  by (simp add: builtin_box_def builtin_field_directives)

text \<open>The directives a field is lifted with: those of its custom types come first.\<close>

definition accepted_field :: "('f, 't) text_lib \<Rightarrow> schema_ast \<Rightarrow> ast_field \<Rightarrow> ('f, 't) dml_field \<Rightarrow> bool" where
  "accepted_field lib s f field \<longleftrightarrow>
     (\<exists>ft extra. lift_field_type s f [] = Inr (ft, extra) \<and>
        field_like (fname f) (lift_field_arity (field_arity f)) ft field \<and>
        list_all (accepted_directive (box_field (builtin_box lib)) (extra @ field_directives f))
          (extra @ field_directives f))"

lemma lift_default_value_ok:
  assumes "lift_default_value lib ft e field = Some (Inr ([], field'))" "field_like n a ft field" "df_type field = ft"
  shows "field_like n a ft field'"
  using assms
  by (auto simp: lift_default_value_def field_like_def field_typed_def dest: value_type_as_type
      split: option.splits sum.splits abort.splits dml_field_type.splits)

lemma lift_field_ok:
  fixes lib :: "('a, 'b) text_lib"
  assumes "lift_field lib (builtin_box lib) s f = Some (Inr field)"
  shows "accepted_field lib s f field"
proof -
  define box where "box = builtin_box lib"
  from assms obtain ft extra where ft: "lift_field_type s f [] = Inr (ft, extra)"
    by (auto simp: lift_field_def split: sum.splits)
  define f0 :: "('a, 'b) dml_field" where "f0 = (dml_field_new (fname f) ft)\<lparr>
      df_documentation := map_option comment_text (field_documentation f),
      df_arity := lift_field_arity (field_arity f)\<rparr>"
  from assms ft obtain errors f1 r where d: "lift_default_value lib ft (field_default_value f) f0 = Some (Inr (errors, f1))"
    "validate_and_apply (box_field box) (extra @ field_directives f) f1 = Some (r, field)"
    "errors = []" "errors_of r = []"
    by (auto simp: lift_field_def Let_def f0_def box_def split: sum.splits option.splits if_splits)
  have "field_like (fname f) (lift_field_arity (field_arity f)) ft f0"
    by (simp add: f0_def field_like_def field_typed_def dml_field_new_def)
  then have "field_like (fname f) (lift_field_arity (field_arity f)) ft f1"
    using lift_default_value_ok [of lib ft "field_default_value f" f0 f1] d by (simp add: f0_def dml_field_new_def)
  then have "field_like (fname f) (lift_field_arity (field_arity f)) ft field"
    using validate_and_apply_ok(2) [OF d(2,4)] box_field_ensures unfolding box_def by blast
  then show ?thesis using ft validate_and_apply_ok(1) [OF d(2,4)] by (auto simp: accepted_field_def box_def)
qed

lemma lift_field_type_relation:
  "lift_field_type s f c = Inr (ft, extra) \<Longrightarrow> type_kind ft = type_kind (RelationType rel) \<Longrightarrow>
     ft = RelationType (relation_info_new (ident_name (field_type f))) \<and>
     find_model s (ident_name (field_type f)) \<noteq> None \<and> extra = []"
  by (subst (asm) lift_field_type.simps)
    (fastforce simp: Let_def and_then_Inr_iff split: sum.splits if_splits option.splits dest!: type_kind_relation)

text \<open>What holds of the directives of a model.\<close>

definition model_like :: "string \<Rightarrow> ('f, 't) dml_field list \<Rightarrow> ('f, 't) dml_model \<Rightarrow> bool" where
  "model_like n fs m \<longleftrightarrow> dm_name m = n \<and> dm_fields m = fs \<and> \<not> dm_is_generated m \<and>
     undefined_fields m (dm_id_fields m) = [] \<and> list_all (\<lambda>i. undefined_fields m (idef_fields i) = []) (dm_indexes m)"

lemma undefined_fields_cong: "dm_fields m = dm_fields m' \<Longrightarrow> undefined_fields m = undefined_fields m'"
  by (simp add: undefined_fields_def dml_find_field_def fun_eq_iff)

lemma run_object_Inr [eff_simps]: "run_object st = Some (Inr x, st') \<longleftrightarrow> x = snd st \<and> st' = st"
  by (auto simp: run_object_def)

lemma run_span_Inr [eff_simps]: "run_span st = Some (Inr x, st') \<longleftrightarrow> x = args_span (fst st) \<and> st' = st"
  by (auto simp: run_span_def)

lemma run_modify_Inr [eff_simps]: "run_modify g st = Some (Inr x, st') \<longleftrightarrow> st' = (fst st, g (snd st))"
  by (auto simp: run_modify_def)

lemma run_fail_Inr [eff_simps]: "run_fail e st \<noteq> Some (Inr x, st')"
  by (simp add: run_fail_def)

lemma ensures_object_eq: "ensures P c \<Longrightarrow> c st = Some (Inr x, st') \<Longrightarrow> P (snd st) \<Longrightarrow> P (snd st')"
  unfolding ensures_def by blast

lemma run_field_names_object: "run_field_names lib n st = Some (Inr x, st') \<Longrightarrow> snd st' = snd st"
  using ensures_object_eq [OF ensures_field_names, of lib n st x st' "\<lambda>obj. obj = snd st"] by simp

lemma model_id_validate_ensures: "ensures (model_like n fs) (model_id_validate lib)"
proof -
  have "model_like n fs (snd st')" if "model_id_validate lib st = Some (Inr x, st')" "model_like n fs (snd st)" for st x st'
  proof -
    from that(1) obtain fields st1 where f: "run_field_names lib ''id'' st = Some (Inr fields, st1)"
      and st': "snd st' = (snd st1)\<lparr>dm_id_fields := fields\<rparr>" "undefined_fields (snd st') (dm_id_fields (snd st')) = []"
      unfolding model_id_validate_def by (auto simp: eff_simps split: if_splits)
    have "undefined_fields (snd st') = undefined_fields (snd st)"
      by (rule undefined_fields_cong) (simp add: st'(1) run_field_names_object [OF f])
    with that(2) st' run_field_names_object [OF f] show ?thesis by (simp add: model_like_def)
  qed
  then show ?thesis by (simp add: ensures_def)
qed

lemma validate_index_Inr:
  assumes "validate_index lib d t st = Some (Inr i, st')"
  shows "snd st' = snd st \<and> undefined_fields (snd st) (idef_fields i) = []"
proof -
  from assms obtain v st1 name fields st2 where r: "run_optional_arg lib ''name'' st = Some (Inr v, st1)"
    "run_field_names lib d st1 = Some (Inr fields, st2)" "undefined_fields (snd st2) fields = []"
    "st' = st2" "idef_fields i = fields"
    unfolding validate_index_def by (auto simp: eff_simps split: if_splits option.splits)
  then show ?thesis using run_arg_object(2) [OF r(1)] run_field_names_object [OF r(2)] by simp
qed

lemma model_index_ensures:
  "ensures (model_like n fs) (eff_bind (validate_index lib d t) (\<lambda>i. run_modify (dml_add_index i)))"
proof -
  have "model_like n fs (dml_add_index i m)" if "model_like n fs m" "undefined_fields m (idef_fields i) = []" for i m
  proof -
    have "undefined_fields (dml_add_index i m) = undefined_fields m"
      by (rule undefined_fields_cong) (simp add: dml_add_index_def)
    with that show ?thesis by (simp add: model_like_def dml_add_index_def)
  qed
  then show ?thesis by (fastforce simp: ensures_def eff_simps dest: validate_index_Inr)
qed

lemma model_directive_ensures:
  assumes "map_of (box_model (builtin_box lib)) k = Some v"
  shows "ensures (model_like n fs) (dv_apply v)"
proof -
  have u: "undefined_fields (m\<lparr>dm_database_name := x\<rparr>) = undefined_fields m"
    "undefined_fields (m\<lparr>dm_is_embedded := b\<rparr>) = undefined_fields m" for m :: "('f, 't) dml_model" and x b
    by (rule undefined_fields_cong, simp)+
  have "ensures (model_like n fs) (map_validate (\<lambda>n m. m\<lparr>dm_database_name := n\<rparr>) lib)"
    unfolding map_validate_def by (intro ensures_intros ensures_modify) (simp add: model_like_def u)
  moreover have "ensures (model_like n fs) (run_modify (\<lambda>m. m\<lparr>dm_is_embedded := True\<rparr>))"
    by (intro ensures_modify) (simp add: model_like_def u)
  ultimately show ?thesis using assms
    by (auto simp: builtin_box_def builtin_model_directives embedded_directive_def model_id_directive_def
        model_index_directive_def model_unique_directive_def model_map_directive_def model_index_ensures
        model_id_validate_ensures split: if_splits)
qed

lemma lift_field_error: "lift_field lib box s f \<noteq> Some (Inl [])"
proof -
  have "lift_default_value lib ft e field \<noteq> Some (Inl [])" for ft e field
    by (auto simp: lift_default_value_def split: option.splits sum.splits abort.splits dml_field_type.splits)
  then show ?thesis
    by (auto simp: lift_field_def Let_def split: sum.splits option.splits if_splits)
qed

lemma lift_fields_ok:
  assumes "lift_fields lib box s fs (es, m) = Some ([], m')"
  shows "es = []" "\<exists>fields. list_all2 (\<lambda>f field. lift_field lib box s f = Some (Inr field)) fs fields \<and>
    m' = m\<lparr>dm_fields := dm_fields m @ fields\<rparr>"
proof -
  have "es = [] \<and> (\<exists>fields. list_all2 (\<lambda>f field. lift_field lib box s f = Some (Inr field)) fs fields \<and>
    m' = m\<lparr>dm_fields := dm_fields m @ fields\<rparr>)"
    using assms
  proof (induction fs arbitrary: es m)
    case (Cons f fs)
    from Cons.prems obtain r where r: "lift_field lib box s f = Some r"
      and rest: "lift_fields lib box s fs
         (case r of Inr field \<Rightarrow> (es, dml_add_field field m) | Inl es' \<Rightarrow> (es @ es', m)) = Some ([], m')"
      by (auto simp: bind_eq_Some_conv cong: sum.case_cong)
    show ?case
    proof (cases r)
      case (Inl es')
      with rest Cons.IH [of "es @ es'" m] have "es' = []" by simp
      with Inl r show ?thesis by (simp add: lift_field_error)
    next
      case (Inr field)
      with rest Cons.IH [of es "dml_add_field field m"] obtain fields
        where "es = []" "list_all2 (\<lambda>f field. lift_field lib box s f = Some (Inr field)) fs fields"
          "m' = (dml_add_field field m)\<lparr>dm_fields := dm_fields (dml_add_field field m) @ fields\<rparr>" by auto
      with Inr r show ?thesis by (intro conjI exI [of _ "field # fields"]) (auto simp: dml_add_field_def)
    qed
  qed simp
  then show "es = []" "\<exists>fields. list_all2 (\<lambda>f field. lift_field lib box s f = Some (Inr field)) fs fields \<and>
    m' = m\<lparr>dm_fields := dm_fields m @ fields\<rparr>" by auto
qed

definition accepted_model :: "('f, 't) text_lib \<Rightarrow> schema_ast \<Rightarrow> ast_model \<Rightarrow> ('f, 't) dml_model \<Rightarrow> bool" where
  "accepted_model lib s m model \<longleftrightarrow>
     list_all2 (accepted_field lib s) (model_fields m) (dm_fields model) \<and>
     model_like (mname m) (dm_fields model) model \<and>
     list_all (accepted_directive (box_model (builtin_box lib)) (model_directives m)) (model_directives m)"

lemma lift_model_ok:
  assumes "lift_model lib (builtin_box lib) s m = Some (Inr model)"
  shows "accepted_model lib s m model"
proof -
  define m0 where "m0 = (dml_model_new (mname m) :: ('a, 'b) dml_model)\<lparr>
      dm_documentation := map_option comment_text (model_documentation m)\<rparr>"
  from assms obtain errors m1 r where l: "lift_fields lib (builtin_box lib) s (model_fields m) ([], m0) = Some (errors, m1)"
    and v: "validate_and_apply (box_model (builtin_box lib)) (model_directives m) m1 = Some (r, model)"
      "errors_of r = []" and e: "errors = []"
    by (auto simp: lift_model_def m0_def bind_eq_Some_conv Let_def split: if_splits)
  obtain fields where fields: "list_all2 (\<lambda>f field. lift_field lib (builtin_box lib) s f = Some (Inr field)) (model_fields m) fields"
    "m1 = m0\<lparr>dm_fields := dm_fields m0 @ fields\<rparr>"
    using lift_fields_ok(2) l unfolding e by blast
  have "model_like (mname m) fields m1"
    by (simp add: fields(2) m0_def dml_model_new_def model_like_def undefined_fields_def)
  then have like: "model_like (mname m) fields model"
    using validate_and_apply_ok(2) [OF v] model_directive_ensures by blast
  have "list_all2 (accepted_field lib s) (model_fields m) fields"
    using fields(1) by (rule list_all2_mono) (rule lift_field_ok)
  with like validate_and_apply_ok(1) [OF v] show ?thesis by (simp add: accepted_model_def model_like_def)
qed

definition accepted_enum :: "ast_enum \<Rightarrow> dml_enum \<Rightarrow> bool" where
  "accepted_enum e en \<longleftrightarrow> de_name en = ename e \<and> de_values en = map value_name (enum_values e) \<and> enum_directives e = []"

lemma lift_enum_ok:
  assumes "lift_enum (builtin_box lib) e = Some (Inr en)"
  shows "accepted_enum e en"
proof -
  from assms obtain r where v: "validate_and_apply (box_enum (builtin_box lib)) (enum_directives e)
      ((dml_enum_new (ename e) (map value_name (enum_values e)))\<lparr>
         de_documentation := map_option comment_text (enum_documentation e)\<rparr>) = Some (r, en)" "errors_of r = []"
    by (auto simp: lift_enum_def Let_def split: if_splits)
  have "enum_directives e = []"
    using validate_and_apply_ok(1) [OF v]
    by (cases "enum_directives e") (auto simp: accepted_directive_def builtin_box_def)
  with v show ?thesis by (auto simp: accepted_enum_def validate_and_apply_def dml_enum_new_def)
qed

lemma lift_enum_error: "lift_enum box e \<noteq> Some (Inl [])"
  by (auto simp: lift_enum_def Let_def)

lemma lift_model_error: "lift_model lib box s m \<noteq> Some (Inl [])"
  by (auto simp: lift_model_def Let_def bind_eq_Some_conv split: if_splits)

text \<open>Lifting keeps the order of models and enums.\<close>

lemma lift_tops_ok:
  assumes "lift_tops lib (builtin_box lib) s ts (es, d) = Some ([], d')"
  shows "es = []"
    "\<exists>ms en. list_all2 (accepted_model lib s) (List.map_filter as_model ts) ms \<and>
       list_all2 accepted_enum (List.map_filter as_enum ts) en \<and>
       d' = d\<lparr>dml_models := dml_models d @ ms, dml_enums := dml_enums d @ en\<rparr>"
proof -
  have "es = [] \<and> (\<exists>ms en. list_all2 (accepted_model lib s) (List.map_filter as_model ts) ms \<and>
       list_all2 accepted_enum (List.map_filter as_enum ts) en \<and>
       d' = d\<lparr>dml_models := dml_models d @ ms, dml_enums := dml_enums d @ en\<rparr>)"
    using assms
  proof (induction ts arbitrary: es d)
    case (Cons t ts)
    from Cons.prems obtain st where t: "lift_top lib (builtin_box lib) s t (es, d) = Some st"
      and rest: "lift_tops lib (builtin_box lib) s ts st = Some ([], d')"
      by (auto simp: bind_eq_Some_conv)
    obtain es1 d1 where st: "st = (es1, d1)" by (cases st)
    from Cons.IH rest st obtain ms en where ih: "es1 = []"
      "list_all2 (accepted_model lib s) (List.map_filter as_model ts) ms"
      "list_all2 accepted_enum (List.map_filter as_enum ts) en"
      "d' = d1\<lparr>dml_models := dml_models d1 @ ms, dml_enums := dml_enums d1 @ en\<rparr>" by blast
    show ?case
    proof (cases t)
      case (TopEnum e)
      with t st ih(1) obtain e' where "lift_enum (builtin_box lib) e = Some (Inr e')" "es = []" "d1 = add_enum e' d"
        using lift_enum_error [of "builtin_box lib" e] by (cases "the (lift_enum (builtin_box lib) e)") auto
      with ih TopEnum lift_enum_ok show ?thesis
        by (intro conjI exI [of _ ms] exI [of _ "e' # en"]) (auto simp: List.map_filter_simps add_enum_def)
    next
      case (TopModel m)
      with t st ih(1) obtain m' where "lift_model lib (builtin_box lib) s m = Some (Inr m')" "es = []" "d1 = add_model m' d"
        using lift_model_error [of lib "builtin_box lib" s m] by (cases "the (lift_model lib (builtin_box lib) s m)") auto
      with ih TopModel lift_model_ok show ?thesis
        by (intro conjI exI [of _ "m' # ms"] exI [of _ en]) (auto simp: List.map_filter_simps add_model_def)
    qed (use t st ih in \<open>auto simp: List.map_filter_simps\<close>)
  qed (auto simp: List.map_filter_simps)
  then show "es = []"
    "\<exists>ms en. list_all2 (accepted_model lib s) (List.map_filter as_model ts) ms \<and>
       list_all2 accepted_enum (List.map_filter as_enum ts) en \<and>
       d' = d\<lparr>dml_models := dml_models d @ ms, dml_enums := dml_enums d @ en\<rparr>" by auto
qed

lemma lift_schema_ok:
  assumes "lift_schema lib (builtin_box lib) s = Some (Inr d)"
  shows "list_all2 (accepted_model lib s) (models s) (dml_models d)" "list_all2 accepted_enum (enums s) (dml_enums d)"
  using assms lift_tops_ok(2) [of lib s "tops s" "[]" datamodel_new d]
  by (auto simp: lift_schema_def models_def enums_def datamodel_new_def split: if_splits)

end
