(* ===== verification/Relations.thy ===== *)
theory Relations
  imports Accepted
begin

section \<open>Relations of a datamodel\<close>

text \<open>
  The relation fields of a datamodel as a set of tuples: the model and the field, the related model and
  the name of the relation. In a datamodel with unique names the lookups of the code are lookups in
  this set, and the steps of the standardiser change it in a simple way.
\<close>

type_synonym relation_tuple = "string \<times> string \<times> string \<times> string"

definition unique_dml :: "('f, 't) datamodel \<Rightarrow> bool" where
  "unique_dml d \<longleftrightarrow> distinct (map dm_name (dml_models d)) \<and>
     list_all (\<lambda>m. distinct (map df_name (dm_fields m))) (dml_models d)"

definition model_relations :: "('f, 't) dml_model \<Rightarrow> relation_tuple set" where
  "model_relations m = {(dm_name m, df_name f, rel_to rel, rel_name rel) |f rel.
     f \<in> set (dm_fields m) \<and> df_type f = RelationType rel}"

definition relations :: "('f, 't) datamodel \<Rightarrow> relation_tuple set" where
  "relations d = \<Union> (model_relations ` set (dml_models d))"

definition model_names :: "('f, 't) datamodel \<Rightarrow> string set" where
  "model_names d = dm_name ` set (dml_models d)"

text \<open>Every relation field has a field on the other side.\<close>

definition paired :: "string set \<Rightarrow> relation_tuple set \<Rightarrow> bool" where
  "paired names R \<longleftrightarrow> (\<forall>a f t n. (a, f, t, n) \<in> R \<longrightarrow>
     t \<in> names \<and> (\<exists>g. (t, g, a, n) \<in> R \<and> (t \<noteq> a \<or> g \<noteq> f)))"

subsection \<open>Lookups\<close>

lemma find_model_unique:
  assumes "unique_dml d"
  shows "dml_find_model d a = Some m \<longleftrightarrow> m \<in> set (dml_models d) \<and> dm_name m = a"
proof
  show "dml_find_model d a = Some m \<Longrightarrow> m \<in> set (dml_models d) \<and> dm_name m = a"
    by (auto simp: dml_find_model_def dest: find_Some_mem)
  show "m \<in> set (dml_models d) \<and> dm_name m = a \<Longrightarrow> dml_find_model d a = Some m"
    using find_distinct_key [of dm_name "dml_models d" m] assms by (auto simp: dml_find_model_def unique_dml_def)
qed

lemma find_model_names: "dml_find_model d a \<noteq> None \<longleftrightarrow> a \<in> model_names d"
  by (auto simp: dml_find_model_def model_names_def find_None_iff)

lemma relation_of_field:
  "m \<in> set (dml_models d) \<Longrightarrow> f \<in> set (dm_fields m) \<Longrightarrow> df_type f = RelationType rel \<Longrightarrow>
     (dm_name m, df_name f, rel_to rel, rel_name rel) \<in> relations d"
  by (auto simp: relations_def model_relations_def)

lemma relationE:
  assumes "(a, f, t, n) \<in> relations d"
  obtains m fd rel where "m \<in> set (dml_models d)" "dm_name m = a" "fd \<in> set (dm_fields m)" "df_name fd = f"
    "df_type fd = RelationType rel" "rel_to rel = t" "rel_name rel = n"
  using assms by (auto simp: relations_def model_relations_def)

lemma model_related_field_Some:
  assumes "model_related_field m t n ex = Some g"
  shows "g \<in> set (dm_fields m)" "\<exists>rel. df_type g = RelationType rel \<and> rel_to rel = t \<and> rel_name rel = n"
    "dm_name m \<noteq> t \<or> df_name g \<noteq> ex"
  using find_Some_mem [OF assms [unfolded model_related_field_def]] by (auto split: dml_field_type.splits)

lemma model_related_field_None:
  "model_related_field m t n ex = None \<longleftrightarrow>
     (\<forall>g. (dm_name m, g, t, n) \<in> model_relations m \<longrightarrow> dm_name m = t \<and> g = ex)"
  by (auto simp: model_related_field_def find_None_iff model_relations_def split: dml_field_type.splits)

lemma relations_model:
  assumes "unique_dml d" "m \<in> set (dml_models d)"
  shows "(dm_name m, g, t, n) \<in> relations d \<longleftrightarrow> (dm_name m, g, t, n) \<in> model_relations m"
proof -
  have "m' = m" if "m' \<in> set (dml_models d)" "dm_name m' = dm_name m" for m'
    using find_model_unique [OF assms(1), of "dm_name m"] that assms(2) by (metis option.inject)
  then show ?thesis using assms(2) by (fastforce simp: relations_def model_relations_def)
qed

text \<open>A lookup of the related field fails exactly when there is no other side.\<close>

lemma related_field_iff:
  assumes "unique_dml d" "dml_find_model d t = Some m"
  shows "model_related_field m a n f \<noteq> None \<longleftrightarrow> (\<exists>g. (t, g, a, n) \<in> relations d \<and> (t \<noteq> a \<or> g \<noteq> f))"
proof -
  have m: "m \<in> set (dml_models d)" "dm_name m = t" using assms find_model_unique by blast+
  show ?thesis
    using relations_model [OF assms(1) m(1)] model_related_field_None [of m a n f] m(2) by auto
qed

lemma paired_lookup:
  assumes "unique_dml d" "paired (model_names d) (relations d)"
    "m \<in> set (dml_models d)" "f \<in> set (dm_fields m)" "df_type f = RelationType rel"
  shows "\<exists>m' g. dml_find_model d (rel_to rel) = Some m' \<and>
    model_related_field m' (dm_name m) (rel_name rel) (df_name f) = Some g"
proof -
  have r: "(dm_name m, df_name f, rel_to rel, rel_name rel) \<in> relations d" using assms(3-5) by (rule relation_of_field)
  with assms(2) have "rel_to rel \<in> model_names d" by (auto simp: paired_def)
  then obtain m' where m': "dml_find_model d (rel_to rel) = Some m'" using find_model_names by blast
  with related_field_iff [OF assms(1) m'] r assms(2) show ?thesis by (auto simp: paired_def)
qed

subsection \<open>Changing one model\<close>

lemma set_update_first_key:
  assumes "distinct (map k xs)" "m \<in> set xs" "k m = a"
  shows "set (update_first (\<lambda>x. k x = a) g xs) = insert (g m) (set xs - {m})"
  using assms
proof (induction xs)
  case (Cons x xs)
  show ?case
  proof (cases "k x = a")
    case True
    then have "x = m" using Cons.prems by (auto simp: image_iff)
    moreover have "m \<notin> set xs" using Cons.prems True \<open>x = m\<close> by (auto simp: image_iff)
    ultimately show ?thesis using True by auto
  next
    case False
    with Cons show ?thesis by auto
  qed
qed simp

lemma find_model_mut_relations:
  assumes "unique_dml d" "dml_find_model d a = Some m" "\<And>x. dm_name (g x) = dm_name x"
  shows "relations (dml_find_model_mut a g d) = (relations d - model_relations m) \<union> model_relations (g m)"
    "map dm_name (dml_models (dml_find_model_mut a g d)) = map dm_name (dml_models d)"
    "distinct (map df_name (dm_fields (g m))) \<Longrightarrow> unique_dml (dml_find_model_mut a g d)"
proof -
  have m: "m \<in> set (dml_models d)" "dm_name m = a" using assms find_model_unique by blast+
  have s: "set (dml_models (dml_find_model_mut a g d)) = insert (g m) (set (dml_models d) - {m})"
    using set_update_first_key [of dm_name "dml_models d" m a g] assms(1) m by (simp add: dml_find_model_mut_def unique_dml_def)
  show n: "map dm_name (dml_models (dml_find_model_mut a g d)) = map dm_name (dml_models d)"
    by (simp add: dml_find_model_mut_def map_update_first assms(3))
  have "model_relations m' \<inter> model_relations m = {}" if "m' \<in> set (dml_models d) - {m}" for m'
  proof -
    have "dm_name m' \<noteq> a" using that m find_model_unique [OF assms(1), of a] by (metis DiffD1 DiffD2 insertI1 option.inject)
    with m(2) show ?thesis by (auto simp: model_relations_def)
  qed
  then show "relations (dml_find_model_mut a g d) = (relations d - model_relations m) \<union> model_relations (g m)"
    using m(1) unfolding relations_def s by blast
  show "unique_dml (dml_find_model_mut a g d)" if "distinct (map df_name (dm_fields (g m)))"
    using assms(1) that n s by (auto simp: unique_dml_def list_all_iff)
qed

subsection \<open>Refining a model\<close>

text \<open>
  The standardiser refines models: it changes the references and names of relations and adds generated
  fields that are not required.
\<close>

definition field_refines :: "('f, 't) dml_field \<Rightarrow> ('f, 't) dml_field \<Rightarrow> bool" where
  "field_refines f f' \<longleftrightarrow> (\<exists>ft. f' = f\<lparr>df_type := ft\<rparr> \<and> type_kind ft = type_kind (df_type f))"

definition generated_field :: "('f, 't) dml_field \<Rightarrow> bool" where
  "generated_field f \<longleftrightarrow> is_relation_type (df_type f) \<and> df_arity f \<noteq> DRequired \<and> df_id_info f = None \<and>
     df_is_generated f \<and> field_typed f"

definition model_refines :: "('f, 't) dml_model \<Rightarrow> ('f, 't) dml_model \<Rightarrow> bool" where
  "model_refines m m' \<longleftrightarrow>
     (\<exists>fs gs. m' = m\<lparr>dm_fields := fs @ gs\<rparr> \<and> list_all2 field_refines (dm_fields m) fs \<and> list_all generated_field gs)"

lemma field_refines_refl [simp]: "field_refines f f"
  by (auto simp: field_refines_def intro!: exI [of _ "df_type f"])

lemma field_refines_trans: "field_refines f g \<Longrightarrow> field_refines g h \<Longrightarrow> field_refines f h"
  by (auto simp: field_refines_def)

lemma type_kind_is_relation: "type_kind t = type_kind t' \<Longrightarrow> is_relation_type t = is_relation_type t'"
  by (cases t; cases t') auto

lemma field_refines_typed:
  assumes "field_refines f f'"
  shows "field_typed f' \<longleftrightarrow> field_typed f"
proof -
  obtain ft where f': "f' = f\<lparr>df_type := ft\<rparr>" "type_kind ft = type_kind (df_type f)"
    using assms by (auto simp: field_refines_def)
  have "default_typed ft v = default_typed (df_type f) v" for v :: "('a, 'b) prisma_value option"
    using f'(2) by (cases ft; cases "df_type f"; cases v) auto
  moreover have "ft = BaseType PDateTime \<longleftrightarrow> df_type f = BaseType PDateTime"
    using f'(2) by (cases ft; cases "df_type f") auto
  ultimately show ?thesis by (simp add: field_typed_def f'(1))
qed

lemma generated_refines: "generated_field f \<Longrightarrow> field_refines f f' \<Longrightarrow> generated_field f'"
  using field_refines_typed [of f f'] by (auto simp: generated_field_def field_refines_def dest: type_kind_is_relation)

lemma model_refines_refl [simp]: "model_refines m m"
  unfolding model_refines_def by (rule exI [of _ "dm_fields m"], rule exI [of _ "[]"]) (simp add: list.rel_refl)

lemma model_refines_fields:
  "list_all2 field_refines (dm_fields m) fs \<Longrightarrow> model_refines m (m\<lparr>dm_fields := fs\<rparr>)"
  unfolding model_refines_def by (rule exI [of _ fs], rule exI [of _ "[]"]) simp

lemma model_refines_trans:
  assumes "model_refines m m'" "model_refines m' m''"
  shows "model_refines m m''"
proof -
  obtain fs gs where a: "m' = m\<lparr>dm_fields := fs @ gs\<rparr>" "list_all2 field_refines (dm_fields m) fs" "list_all generated_field gs"
    using assms(1) by (auto simp: model_refines_def)
  obtain fs' hs where b: "m'' = m'\<lparr>dm_fields := fs' @ hs\<rparr>" "list_all2 field_refines (fs @ gs) fs'" "list_all generated_field hs"
    using assms(2) a(1) by (auto simp: model_refines_def)
  obtain us vs where c: "fs' = us @ vs" "list_all2 field_refines fs us" "list_all2 field_refines gs vs"
    using b(2) by (auto simp: list_all2_append1)
  have "list_all2 field_refines (dm_fields m) us"
    using list_all2_trans [of field_refines field_refines field_refines, OF field_refines_trans a(2) c(2)] .
  moreover have "list_all generated_field (vs @ hs)"
  proof -
    have "list_all generated_field vs" using c(3) a(3) by (induction rule: list_all2_induct) (auto dest: generated_refines)
    then show ?thesis using b(3) by simp
  qed
  ultimately show ?thesis unfolding model_refines_def using a(1) b(1) c(1)
    by (intro exI [of _ us] exI [of _ "vs @ hs"]) simp
qed

lemma model_refines_same:
  assumes "model_refines m m'"
  shows "dm_name m' = dm_name m" "dm_id_fields m' = dm_id_fields m" "dm_indexes m' = dm_indexes m"
    "is_relation_model m' = is_relation_model m" "length (singular_id_fields m') = length (singular_id_fields m)"
    "list_all field_typed (dm_fields m) \<Longrightarrow> list_all field_typed (dm_fields m')"
    "undefined_fields m names = [] \<Longrightarrow> undefined_fields m' names = []"
proof -
  obtain fs gs where a: "m' = m\<lparr>dm_fields := fs @ gs\<rparr>" "list_all2 field_refines (dm_fields m) fs" "list_all generated_field gs"
    using assms by (auto simp: model_refines_def)
  show "dm_name m' = dm_name m" "dm_id_fields m' = dm_id_fields m" "dm_indexes m' = dm_indexes m"
    by (simp_all add: a(1))
  have len: "length (filter p fs) = length (filter p (dm_fields m))"
    if "\<And>f f'. field_refines f f' \<Longrightarrow> p f' = p f" for p
    using a(2) that by (induction rule: list_all2_induct) auto
  have "length (filter (\<lambda>f. is_relation_type (df_type f) \<and> df_arity f = DRequired) fs) =
      length (filter (\<lambda>f. is_relation_type (df_type f) \<and> df_arity f = DRequired) (dm_fields m))"
    by (rule len) (auto simp: field_refines_def dest: type_kind_is_relation)
  moreover have "filter (\<lambda>f. is_relation_type (df_type f) \<and> df_arity f = DRequired) gs = []"
    using a(3) by (auto simp: filter_empty_conv list_all_iff generated_field_def)
  ultimately show "is_relation_model m' = is_relation_model m" by (simp add: is_relation_model_def a(1))
  have "length (filter (\<lambda>f. df_id_info f \<noteq> None) fs) = length (filter (\<lambda>f. df_id_info f \<noteq> None) (dm_fields m))"
    by (rule len) (auto simp: field_refines_def)
  moreover have "filter (\<lambda>f. df_id_info f \<noteq> None) gs = []"
    using a(3) by (auto simp: filter_empty_conv list_all_iff generated_field_def)
  ultimately show "length (singular_id_fields m') = length (singular_id_fields m)"
    by (simp add: singular_id_fields_def a(1))
  show "list_all field_typed (dm_fields m')" if "list_all field_typed (dm_fields m)"
  proof -
    have "list_all field_typed fs"
      using a(2) that by (induction rule: list_all2_induct) (auto simp: field_refines_typed)
    then show ?thesis using a(3) by (auto simp: a(1) list_all_iff generated_field_def)
  qed
  have "df_name ` set fs = df_name ` set (dm_fields m)"
    using a(2) by (induction rule: list_all2_induct) (auto simp: field_refines_def)
  then show "undefined_fields m names = [] \<Longrightarrow> undefined_fields m' names = []"
    by (auto simp: undefined_fields_def filter_empty_conv dml_find_field_def find_key_None_iff a(1))
qed

end
