(* ===== verification/Standardised.thy ===== *)
theory Standardised
  imports Relations
begin

section \<open>What the standardiser does to relations\<close>

text \<open>
  The relations of a datamodel through the phases of \<open>standardise.rs\<close>. If validation leaves at most one
  unnamed relation from a model to another, adding back relations gives each of them at most one other
  side, and naming a relation renames both of its sides. Models keep their names, ids and indexes.
\<close>

subsection \<open>Pairs of unnamed relations\<close>

text \<open>At most one unnamed relation leads from a model to another one, at most two lead from a model to itself.\<close>

definition single_unnamed :: "relation_tuple set \<Rightarrow> bool" where
  "single_unnamed R \<longleftrightarrow>
     (\<forall>a t f f'. a \<noteq> t \<longrightarrow> (a, f, t, []) \<in> R \<longrightarrow> (a, f', t, []) \<in> R \<longrightarrow> f = f') \<and>
     (\<forall>a f g h. (a, f, a, []) \<in> R \<longrightarrow> (a, g, a, []) \<in> R \<longrightarrow> (a, h, a, []) \<in> R \<longrightarrow> f = g \<or> g = h \<or> f = h)"

definition rename_pair :: "string \<Rightarrow> string \<Rightarrow> string \<Rightarrow> string \<Rightarrow> string \<Rightarrow> relation_tuple set \<Rightarrow> relation_tuple set" where
  "rename_pair a f t g n R = (R - {(a, f, t, []), (t, g, a, [])}) \<union> {(a, f, t, n), (t, g, a, n)}"

lemma single_unnamed_other:
  assumes "single_unnamed R" "a \<noteq> t" "(a, f, t, []) \<in> R" "(a, f', t, []) \<in> R"
  shows "f = f'"
  using assms unfolding single_unnamed_def by blast

lemma single_unnamed_self:
  assumes "single_unnamed R" "(a, f, a, []) \<in> R" "(a, g, a, []) \<in> R" "(a, h, a, []) \<in> R"
  shows "f = g \<or> g = h \<or> f = h"
  using assms unfolding single_unnamed_def by blast

lemma unnamed_pair:
  assumes "single_unnamed R" "(a, f, t, []) \<in> R" "(t, g, a, []) \<in> R" "t \<noteq> a \<or> g \<noteq> f"
    "(t, h, a, []) \<in> R" "t \<noteq> a \<or> h \<noteq> f"
  shows "h = g"
  using assms single_unnamed_other [of R t a g h] single_unnamed_self [of R a f g h] by metis

lemma rename_pair_paired:
  assumes "paired names R" "single_unnamed R" "(a, f, t, []) \<in> R" "(t, g, a, []) \<in> R" "t \<noteq> a \<or> g \<noteq> f"
  shows "paired names (rename_pair a f t g n R)"
  unfolding paired_def
proof (intro allI impI)
  fix b h u m
  assume x: "(b, h, u, m) \<in> rename_pair a f t g n R"
  have names: "a \<in> names" "t \<in> names" using assms(1,3,4) unfolding paired_def by blast+
  show "u \<in> names \<and> (\<exists>k. (u, k, b, m) \<in> rename_pair a f t g n R \<and> (u \<noteq> b \<or> k \<noteq> h))"
  proof (cases "(b, h, u, m) = (a, f, t, n) \<or> (b, h, u, m) = (t, g, a, n)")
    case True
    then show ?thesis using names assms(5) by (auto simp: rename_pair_def)
  next
    case False
    with x have old: "(b, h, u, m) \<in> R" "(b, h, u, m) \<noteq> (a, f, t, [])" "(b, h, u, m) \<noteq> (t, g, a, [])"
      by (auto simp: rename_pair_def)
    then obtain k where k: "u \<in> names" "(u, k, b, m) \<in> R" "u \<noteq> b \<or> k \<noteq> h"
      using assms(1) unfolding paired_def by blast
    have "(u, k, b, m) \<noteq> (a, f, t, [])"
      using old k(3) unnamed_pair [OF assms(2-5), of h] by auto
    moreover have "(u, k, b, m) \<noteq> (t, g, a, [])"
      using old k(3) assms(5) unnamed_pair [OF assms(2,4,3), of h] by auto
    ultimately show ?thesis using k by (auto simp: rename_pair_def)
  qed
qed

lemma rename_pair_unnamed: "n \<noteq> [] \<Longrightarrow> (b, h, u, []) \<in> rename_pair a f t g n R \<longleftrightarrow>
    (b, h, u, []) \<in> R \<and> (b, h, u) \<noteq> (a, f, t) \<and> (b, h, u) \<noteq> (t, g, a)"
  by (auto simp: rename_pair_def)

lemma single_unnamed_mono:
  assumes "\<And>a f t. (a, f, t, []) \<in> R' \<Longrightarrow> (a, f, t, []) \<in> R" "single_unnamed R"
  shows "single_unnamed R'"
  unfolding single_unnamed_def using assms(1) single_unnamed_other [OF assms(2)] single_unnamed_self [OF assms(2)] by metis

lemma rename_pair_single: "single_unnamed R \<Longrightarrow> n \<noteq> [] \<Longrightarrow> single_unnamed (rename_pair a f t g n R)"
  by (rule single_unnamed_mono [of _ R]) (simp_all add: rename_pair_unnamed)

text \<open>An entry of the list of unnamed relations whose relation got a name has no unnamed other side left.\<close>

definition pending :: "relation_tuple set \<Rightarrow> string \<times> string \<times> string \<Rightarrow> bool" where
  "pending R x = (case x of (a, f, t) \<Rightarrow>
     (a, f, t, []) \<in> R \<or> (\<forall>g. (t, g, a, []) \<in> R \<longrightarrow> t = a \<and> g = f))"

lemma rename_pair_pending:
  assumes "single_unnamed R" "(a, f, t, []) \<in> R" "(t, g, a, []) \<in> R" "t \<noteq> a \<or> g \<noteq> f" "n \<noteq> []" "pending R x"
  shows "pending (rename_pair a f t g n R) x"
proof -
  obtain b h u where x: "x = (b, h, u)" by (cases x)
  consider "(b, h, u) = (a, f, t)" | "(b, h, u) = (t, g, a)" | "(b, h, u) \<noteq> (a, f, t)" "(b, h, u) \<noteq> (t, g, a)" by blast
  then show ?thesis
  proof cases
    case 1
    then show ?thesis using unnamed_pair [OF assms(1-4)] assms(5) by (auto simp: pending_def x rename_pair_unnamed)
  next
    case 2
    then show ?thesis using unnamed_pair [OF assms(1,3,2)] assms(4,5)
      by (auto simp: pending_def x rename_pair_unnamed)
  next
    case 3
    then show ?thesis using assms(5,6) by (auto simp: pending_def x rename_pair_unnamed)
  qed
qed

subsection \<open>Naming relations\<close>

text \<open>What every phase of the standardiser keeps: names, and models up to refinement.\<close>

definition dml_refines :: "('f, 't) datamodel \<Rightarrow> ('f, 't) datamodel \<Rightarrow> bool" where
  "dml_refines d d' \<longleftrightarrow> list_all2 model_refines (dml_models d) (dml_models d') \<and> dml_enums d' = dml_enums d"

lemma dml_refines_refl [simp]: "dml_refines d d"
  by (simp add: dml_refines_def list.rel_refl)

lemma dml_refines_trans: "dml_refines d d' \<Longrightarrow> dml_refines d' d'' \<Longrightarrow> dml_refines d d''"
  by (auto simp: dml_refines_def intro: list_all2_trans [of model_refines model_refines model_refines, OF model_refines_trans])

lemma dml_refines_names: "dml_refines d d' \<Longrightarrow> map dm_name (dml_models d') = map dm_name (dml_models d)"
proof -
  have "list_all2 model_refines ms ms' \<Longrightarrow> map dm_name ms' = map dm_name ms"
    for ms ms' :: "('a, 'b) dml_model list"
    by (induction rule: list_all2_induct) (auto dest: model_refines_same(1))
  then show "dml_refines d d' \<Longrightarrow> map dm_name (dml_models d') = map dm_name (dml_models d)"
    by (simp add: dml_refines_def)
qed

lemma list_all2_update_first:
  assumes "\<And>x. R x x" "find p xs = Some y" "R y (g y)"
  shows "list_all2 R xs (update_first p g xs)"
  using assms(2) by (induction xs) (auto simp: assms(1,3) list.rel_refl split: if_splits)

lemma find_model_mut_refines:
  assumes "dml_find_model d a = Some m" "model_refines m (g m)"
  shows "dml_refines d (dml_find_model_mut a g d)"
  using assms unfolding dml_refines_def dml_find_model_mut_def dml_find_model_def
  by (simp add: list_all2_update_first)

lemma field_relation_Some: "field_relation f = Some rel \<longleftrightarrow> df_type f = RelationType rel"
  by (cases "df_type f") auto

lemma update_first_fields:
  assumes "distinct (map k xs)" "find p xs = Some y"
  shows "set (update_first p g xs) = insert (g y) (set xs - {y})"
  using assms
proof (induction xs)
  case (Cons x xs)
  then show ?case by (cases "p x") (auto dest: find_Some_mem)
qed simp

definition field_relations :: "string \<Rightarrow> ('f, 't) dml_field \<Rightarrow> relation_tuple set" where
  "field_relations a f = (case df_type f of RelationType rel \<Rightarrow> {(a, df_name f, rel_to rel, rel_name rel)} | _ \<Rightarrow> {})"

lemma model_relations_fields:
  fixes m :: "('a, 'b) dml_model"
  shows "model_relations m = \<Union> (field_relations (dm_name m) ` set (dm_fields m))"
proof -
  have "field_relations (dm_name m) f = {(dm_name m, df_name f, rel_to rel, rel_name rel) |rel. df_type f = RelationType rel}"
    for f :: "('a, 'b) dml_field"
    by (cases "df_type f") (auto simp: field_relations_def)
  then show ?thesis unfolding model_relations_def by blast
qed

lemma model_relations_rename:
  assumes "distinct (map df_name (dm_fields m))" "find p (dm_fields m) = Some f" "df_type f = RelationType rel"
  shows "model_relations (m\<lparr>dm_fields := update_first p (modify_relation (\<lambda>r. r\<lparr>rel_name := n\<rparr>)) (dm_fields m)\<rparr>) =
    insert (dm_name m, df_name f, rel_to rel, n) (model_relations m - {(dm_name m, df_name f, rel_to rel, rel_name rel)})"
proof -
  have f: "f \<in> set (dm_fields m)" using find_Some_mem [OF assms(2)] by simp
  have u: "f' = f" if "f' \<in> set (dm_fields m)" "df_name f' = df_name f" for f'
    using that f assms(1) by (simp add: distinct_map inj_on_def)
  have r: "modify_relation (\<lambda>r. r\<lparr>rel_name := n\<rparr>) f = f\<lparr>df_type := RelationType (rel\<lparr>rel_name := n\<rparr>)\<rparr>"
    by (simp add: modify_relation_def assms(3))
  have split: "model_relations m = insert (dm_name m, df_name f, rel_to rel, rel_name rel)
      (\<Union> (field_relations (dm_name m) ` (set (dm_fields m) - {f})))"
  proof -
    have "set (dm_fields m) = insert f (set (dm_fields m) - {f})" using f by blast
    then have "model_relations m = field_relations (dm_name m) f \<union> \<Union> (field_relations (dm_name m) ` (set (dm_fields m) - {f}))"
      unfolding model_relations_fields by (metis Union_insert image_insert)
    then show ?thesis by (simp add: field_relations_def assms(3))
  qed
  have fresh: "(dm_name m, df_name f, x, y) \<notin> \<Union> (field_relations (dm_name m) ` (set (dm_fields m) - {f}))" for x y
    using u by (auto simp: field_relations_def split: dml_field_type.splits)
  have "model_relations (m\<lparr>dm_fields := update_first p (modify_relation (\<lambda>r. r\<lparr>rel_name := n\<rparr>)) (dm_fields m)\<rparr>) =
      field_relations (dm_name m) (f\<lparr>df_type := RelationType (rel\<lparr>rel_name := n\<rparr>)\<rparr>) \<union>
      \<Union> (field_relations (dm_name m) ` (set (dm_fields m) - {f}))"
    by (simp add: model_relations_fields update_first_fields [OF assms(1,2)] r)
  also have "\<dots> = insert (dm_name m, df_name f, rel_to rel, n) (\<Union> (field_relations (dm_name m) ` (set (dm_fields m) - {f})))"
    by (simp add: field_relations_def)
  finally show ?thesis using fresh [of "rel_to rel" "rel_name rel"] unfolding split by simp
qed

lemma modify_relation_refines:
  assumes "\<And>r. rel_to (g r) = rel_to r"
  shows "field_refines x (modify_relation g x)" "df_name (modify_relation g x) = df_name x"
proof -
  have "field_refines x (modify_relation g x) \<and> df_name (modify_relation g x) = df_name x"
  proof (cases "df_type x")
    case (RelationType rel)
    have "field_refines x (x\<lparr>df_type := RelationType (g rel)\<rparr>)"
      unfolding field_refines_def by (rule exI [of _ "RelationType (g rel)"]) (simp add: RelationType assms)
    with RelationType show ?thesis by (simp add: modify_relation_def)
  qed (simp_all add: modify_relation_def)
  then show "field_refines x (modify_relation g x)" "df_name (modify_relation g x) = df_name x" by simp_all
qed

lemma exchange_part: "M \<subseteq> R \<Longrightarrow> x \<in> M \<Longrightarrow> (R - M) \<union> insert y (M - {x}) = insert y (R - {x})"
  by blast

lemma rename_field_Some:
  assumes "unique_dml d" "rename_field a p n d = Some d'"
  obtains m f rel where "dml_find_model d a = Some m" "find p (dm_fields m) = Some f" "df_type f = RelationType rel"
    "relations d' = insert (a, df_name f, rel_to rel, n) (relations d - {(a, df_name f, rel_to rel, rel_name rel)})"
    "unique_dml d'" "dml_refines d d'"
proof -
  define g where "g = (\<lambda>md :: ('a, 'b) dml_model.
      md\<lparr>dm_fields := update_first p (modify_relation (\<lambda>rel. rel\<lparr>rel_name := n\<rparr>)) (dm_fields md)\<rparr>)"
  obtain m f rel where f: "dml_find_model d a = Some m" "find p (dm_fields m) = Some f" "df_type f = RelationType rel"
    "d' = dml_find_model_mut a g d"
    using assms(2) unfolding rename_field_def bind_eq_Some_conv map_option_eq_Some field_relation_Some g_def by blast
  have m: "m \<in> set (dml_models d)" "dm_name m = a" using assms(1) f(1) find_model_unique by blast+
  have dist: "distinct (map df_name (dm_fields m))" using assms(1) m(1) by (auto simp: unique_dml_def list_all_iff)
  note modify = modify_relation_refines [of "\<lambda>rel. rel\<lparr>rel_name := n\<rparr>", simplified]
  have g: "dm_name (g x) = dm_name x" for x by (simp add: g_def)
  have gm: "model_relations (g m) = insert (a, df_name f, rel_to rel, n) (model_relations m - {(a, df_name f, rel_to rel, rel_name rel)})"
    using model_relations_rename [OF dist f(2,3), of n] m(2) by (simp add: g_def)
  have sub: "model_relations m \<subseteq> relations d" using m(1) by (auto simp: relations_def)
  have out: "(a, df_name f, rel_to rel, rel_name rel) \<in> model_relations m"
    using find_Some_mem [OF f(2)] f(3) m(2) by (auto simp: model_relations_def)
  have "relations d' = (relations d - model_relations m) \<union> model_relations (g m)"
    using find_model_mut_relations(1) [OF assms(1) f(1) g] f(4) by simp
  then have rel: "relations d' = insert (a, df_name f, rel_to rel, n) (relations d - {(a, df_name f, rel_to rel, rel_name rel)})"
    unfolding gm exchange_part [OF sub out] .
  have "unique_dml d'"
    unfolding f(4) by (rule find_model_mut_relations(3) [OF assms(1) f(1) g]) (simp add: g_def map_update_first modify dist)
  moreover have "dml_refines d d'"
    unfolding f(4)
  proof (rule find_model_mut_refines [OF f(1)])
    show "model_refines m (g m)" unfolding g_def
      by (rule model_refines_fields, rule list_all2_update_first [where y = f]) (simp_all add: f(2) modify)
  qed
  ultimately show thesis by (rule that [OF f(1-3) rel])
qed

lemma relation_unique:
  assumes "unique_dml d" "(a, f, t, n) \<in> relations d" "(a, f, t', n') \<in> relations d"
  shows "t = t'" "n = n'"
proof -
  obtain m fd rel where x: "m \<in> set (dml_models d)" "dm_name m = a" "fd \<in> set (dm_fields m)" "df_name fd = f"
    "df_type fd = RelationType rel" "rel_to rel = t" "rel_name rel = n" using assms(2) by (rule relationE)
  obtain m' fd' rel' where y: "m' \<in> set (dml_models d)" "dm_name m' = a" "fd' \<in> set (dm_fields m')" "df_name fd' = f"
    "df_type fd' = RelationType rel'" "rel_to rel' = t'" "rel_name rel' = n'" using assms(3) by (rule relationE)
  have "m' = m" using x(1,2) y(1,2) find_model_unique [OF assms(1), of a] by (metis option.inject)
  moreover have "distinct (map df_name (dm_fields m))" using assms(1) x(1) by (auto simp: unique_dml_def list_all_iff)
  ultimately have "fd' = fd" using x(3,4) y(3,4) by (simp add: distinct_map inj_on_def)
  with x y show "t = t'" "n = n'" by auto
qed

lemma default_relation_name_nonempty [simp]: "default_relation_name a t \<noteq> []"
  by (simp add: default_relation_name_def)

lemma found_relation:
  assumes "unique_dml d" "dml_find_model d a = Some m" "find p (dm_fields m) = Some f" "df_type f = RelationType rel"
  shows "(a, df_name f, rel_to rel, rel_name rel) \<in> relations d" "p f"
  using assms find_model_unique [OF assms(1), of a m] find_Some_mem [OF assms(3)] relation_of_field [of m d f rel] by auto

lemma name_unnamed_relation_Some:
  assumes "unique_dml d" "name_unnamed_relation (a, f, info) d = Some d'" "rel_name info = []"
    "pending (relations d) (a, f, rel_to info)"
  obtains g where "(a, f, rel_to info, []) \<in> relations d" "(rel_to info, g, a, []) \<in> relations d"
    "rel_to info \<noteq> a \<or> g \<noteq> f"
    "relations d' = rename_pair a f (rel_to info) g (default_relation_name a (rel_to info)) (relations d)"
    "unique_dml d'" "dml_refines d d'"
proof -
  define t n where "t = rel_to info" and "n = default_relation_name a t"
  have n: "n \<noteq> []" by (simp add: n_def)
  obtain d1 where d1: "rename_field a (\<lambda>f'. df_name f' = f) n d = Some d1"
    and d2: "rename_field t (is_related_field t a [] f) n d1 = Some d'"
    using assms(2,3) by (auto simp: name_unnamed_relation_def t_def n_def bind_eq_Some_conv)
  obtain m fd rel where x: "dml_find_model d a = Some m" "find (\<lambda>f'. df_name f' = f) (dm_fields m) = Some fd"
      "df_type fd = RelationType rel"
    and R1: "relations d1 = insert (a, df_name fd, rel_to rel, n) (relations d - {(a, df_name fd, rel_to rel, rel_name rel)})"
    and u1: "unique_dml d1" "dml_refines d d1"
    using assms(1) d1 by (rule rename_field_Some)
  obtain m' g rel' where y: "dml_find_model d1 t = Some m'" "find (is_related_field t a [] f) (dm_fields m') = Some g"
      "df_type g = RelationType rel'"
    and R2: "relations d' = insert (t, df_name g, rel_to rel', n) (relations d1 - {(t, df_name g, rel_to rel', rel_name rel')})"
    and u2: "unique_dml d'" "dml_refines d1 d'"
    using u1(1) d2 by (rule rename_field_Some)
  have fd: "(a, f, rel_to rel, rel_name rel) \<in> relations d" "df_name fd = f"
    using found_relation [OF assms(1) x] by auto
  have g: "(t, df_name g, rel_to rel', rel_name rel') \<in> relations d1" "rel_to rel' = a" "rel_name rel' = []"
      "t \<noteq> a \<or> df_name g \<noteq> f"
    using found_relation [OF u1(1) y] y(3) by (auto simp: is_related_field_def)
  have gd: "(t, df_name g, a, []) \<in> relations d" using g(1) n unfolding R1 g(2,3) by auto
  with assms(4) g(4) have fu: "(a, f, t, []) \<in> relations d" by (auto simp: pending_def t_def)
  then have rel: "rel_to rel = t" "rel_name rel = []" using relation_unique [OF assms(1) fd(1)] by auto
  have "relations d' = rename_pair a f t (df_name g) n (relations d)"
    using n g(4) unfolding R2 R1 rename_pair_def rel fd(2) g(2,3) by auto
  then show thesis
    using that [of "df_name g"] fu gd g(4) u2(1) dml_refines_trans [OF u1(2) u2(2)] unfolding t_def n_def by blast
qed

text \<open>Naming all unnamed relations keeps the two sides of each relation together.\<close>

lemma name_relations_paired:
  assumes "name_relations rs d = Some d'" "unique_dml d" "paired names (relations d)" "single_unnamed (relations d)"
    "list_all (\<lambda>(a, f, info). rel_name info = [] \<and> pending (relations d) (a, f, rel_to info)) rs"
  shows "unique_dml d' \<and> paired names (relations d') \<and> dml_refines d d'"
  using assms
proof (induction rs arbitrary: d)
  case (Cons r rs)
  obtain a f info where r: "r = (a, f, info)" by (cases r)
  obtain d1 where d1: "name_unnamed_relation (a, f, info) d = Some d1" "name_relations rs d1 = Some d'"
    using Cons.prems(1) r by (auto simp: bind_eq_Some_conv)
  have p: "rel_name info = []" "pending (relations d) (a, f, rel_to info)" using Cons.prems(5) r by auto
  obtain g where g: "(a, f, rel_to info, []) \<in> relations d" "(rel_to info, g, a, []) \<in> relations d"
      "rel_to info \<noteq> a \<or> g \<noteq> f"
    and R: "relations d1 = rename_pair a f (rel_to info) g (default_relation_name a (rel_to info)) (relations d)"
    and u: "unique_dml d1" "dml_refines d d1"
    using Cons.prems(2) d1(1) p by (rule name_unnamed_relation_Some)
  have "unique_dml d' \<and> paired names (relations d') \<and> dml_refines d1 d'"
  proof (rule Cons.IH [OF d1(2) u(1)])
    show "paired names (relations d1)" unfolding R by (rule rename_pair_paired [OF Cons.prems(3,4) g])
    show "single_unnamed (relations d1)" unfolding R by (rule rename_pair_single [OF Cons.prems(4)]) simp
    show "list_all (\<lambda>(a, f, info). rel_name info = [] \<and> pending (relations d1) (a, f, rel_to info)) rs"
      using Cons.prems(5) rename_pair_pending [OF Cons.prems(4) g default_relation_name_nonempty]
      unfolding R r by (auto simp: list_all_iff)
  qed
  with u(2) show ?case by (blast intro: dml_refines_trans)
qed simp

lemma map_opt_list_all2: "map_opt f xs = Some ys \<Longrightarrow> list_all2 (\<lambda>x y. f x = Some y) xs ys"
  by (induction xs arbitrary: ys) (auto simp: bind_eq_Some_conv)

lemma concat_map_opt_set:
  "concat_map_opt f xs = Some ys \<Longrightarrow> set ys = (\<Union>x\<in>set xs. set (the (f x))) \<and> (\<forall>x\<in>set xs. f x \<noteq> None)"
  by (induction xs arbitrary: ys) (auto simp: concat_map_opt_Cons append_opt_Some_iff)

lemma unnamed_relation_Some:
  assumes "unnamed_relation d m f = Some rs" "df_type f = RelationType rel"
  obtains m' g where "dml_find_model d (rel_to rel) = Some m'"
    "model_related_field m' (dm_name m) (rel_name rel) (df_name f) = Some g"
    "\<And>r. r \<in> set rs \<Longrightarrow> r = (dm_name m, df_name f, rel) \<and> rel_name rel = []"
proof -
  obtain m' g where "dml_find_model d (rel_to rel) = Some m'"
    "model_related_field m' (dm_name m) (rel_name rel) (df_name f) = Some g"
    "\<forall>r\<in>set rs. r = (dm_name m, df_name f, rel) \<and> rel_name rel = []"
    using assms unfolding unnamed_relation_def
    by (auto simp: bind_eq_Some_conv simp del: field_relation.simps split: if_splits)
  then show thesis using that by blast
qed

lemma name_unnamed_relations_paired:
  assumes "name_unnamed_relations d = Some d'" "unique_dml d" "single_unnamed (relations d)"
  shows "unique_dml d'" "paired (model_names d') (relations d')" "dml_refines d d'"
proof -
  obtain rs where rs: "find_unnamed_relations d = Some rs" "name_relations rs d = Some d'"
    using assms(1) by (auto simp: name_unnamed_relations_def bind_eq_Some_conv)
  have inner: "set rs = (\<Union>m\<in>set (dml_models d). set (the (concat_map_opt (unnamed_relation d m) (dm_fields m))))"
    "\<And>m. m \<in> set (dml_models d) \<Longrightarrow> \<exists>qs. concat_map_opt (unnamed_relation d m) (dm_fields m) = Some qs"
    using concat_map_opt_set [OF rs(1) [unfolded find_unnamed_relations_def]] by auto
  have some: "\<exists>qs. unnamed_relation d m f = Some qs" if "m \<in> set (dml_models d)" "f \<in> set (dm_fields m)" for m f
    using inner(2) [OF that(1)] concat_map_opt_set that(2) by fastforce
  have "paired (model_names d) (relations d)"
    unfolding paired_def
  proof (intro allI impI)
    fix a f t n
    assume "(a, f, t, n) \<in> relations d"
    then obtain m fd rel where x: "m \<in> set (dml_models d)" "dm_name m = a" "fd \<in> set (dm_fields m)" "df_name fd = f"
      "df_type fd = RelationType rel" "rel_to rel = t" "rel_name rel = n" by (rule relationE)
    obtain qs where "unnamed_relation d m fd = Some qs" using some x(1,3) by blast
    then obtain m' g where "dml_find_model d t = Some m'" "model_related_field m' a n f = Some g"
      using x by (metis unnamed_relation_Some)
    then show "t \<in> model_names d \<and> (\<exists>g. (t, g, a, n) \<in> relations d \<and> (t \<noteq> a \<or> g \<noteq> f))"
      using related_field_iff [OF assms(2)] find_model_names by (metis option.distinct(1))
  qed
  moreover have "list_all (\<lambda>(a, f, info). rel_name info = [] \<and> pending (relations d) (a, f, rel_to info)) rs"
    unfolding list_all_iff
  proof
    fix r
    assume "r \<in> set rs"
    then obtain m qs where m: "m \<in> set (dml_models d)" "concat_map_opt (unnamed_relation d m) (dm_fields m) = Some qs" "r \<in> set qs"
      using inner by fastforce
    then obtain f us where f: "f \<in> set (dm_fields m)" "unnamed_relation d m f = Some us" "r \<in> set us"
      using concat_map_opt_set [OF m(2)] by fastforce
    then obtain rel where rel: "df_type f = RelationType rel"
      by (cases "df_type f") (auto simp: unnamed_relation_def)
    have "r = (dm_name m, df_name f, rel) \<and> rel_name rel = []"
      using f(2) rel by (rule unnamed_relation_Some) (use f(3) in blast)
    then show "case r of (a, f, info) \<Rightarrow> rel_name info = [] \<and> pending (relations d) (a, f, rel_to info)"
      using relation_of_field [OF m(1) f(1) rel] by (auto simp: pending_def)
  qed
  ultimately have all: "unique_dml d' \<and> paired (model_names d) (relations d') \<and> dml_refines d d'"
    using name_relations_paired [OF rs(2) assms(2) _ assms(3)] by blast
  moreover have "model_names d' = model_names d"
    using all dml_refines_names [of d d'] unfolding model_names_def by (metis list.set_map)
  ultimately show "unique_dml d'" "paired (model_names d') (relations d')" "dml_refines d d'" by simp_all
qed

subsection \<open>References\<close>

lemma field_refines_type: "type_kind ft = type_kind (df_type f) \<Longrightarrow> field_refines f (f\<lparr>df_type := ft\<rparr>)"
  unfolding field_refines_def by blast

lemma set_to_fields_Some:
  assumes "set_to_fields d m f = Some f'"
  shows "field_refines f f'" "df_name f' = df_name f" "field_relations a f' = field_relations a f"
proof -
  have "f' = f \<or> (\<exists>rel ids. df_type f = RelationType rel \<and> f' = f\<lparr>df_type := RelationType (rel\<lparr>rel_to_fields := ids\<rparr>)\<rparr>)"
    using assms unfolding set_to_fields_def
    by (cases "df_type f") (auto simp: bind_eq_Some_conv simp del: field_relation.simps split: if_splits)
  then show "field_refines f f'" "df_name f' = df_name f" "field_relations a f' = field_relations a f"
    by (auto simp: field_relations_def intro: field_refines_type)
qed

lemma set_to_fields_model:
  assumes "list_all2 (\<lambda>f f'. set_to_fields d m f = Some f') fs fs'"
  shows "list_all2 field_refines fs fs'" "map df_name fs' = map df_name fs"
    "\<Union> (field_relations a ` set fs') = \<Union> (field_relations a ` set fs)"
  using assms by (induction rule: list_all2_induct) (simp_all add: set_to_fields_Some)

lemma set_relation_to_field_keeps:
  assumes "set_relation_to_field_to_id_if_missing d = Some d'"
  shows "relations d' = relations d" "unique_dml d \<Longrightarrow> unique_dml d'" "dml_refines d d'"
proof -
  define step where "step = (\<lambda>m m'. model_refines m m' \<and> map df_name (dm_fields m') = map df_name (dm_fields m) \<and>
    model_relations m' = model_relations (m :: ('a, 'b) dml_model))"
  obtain ms where ms: "map_opt (\<lambda>m. map_option (\<lambda>fs. m\<lparr>dm_fields := fs\<rparr>) (map_opt (set_to_fields d m) (dm_fields m)))
      (dml_models d) = Some ms" "d' = d\<lparr>dml_models := ms\<rparr>"
    using assms by (auto simp: set_relation_to_field_to_id_if_missing_def)
  have "list_all2 step (dml_models d) ms"
    using map_opt_list_all2 [OF ms(1)]
  proof (rule list_all2_mono)
    fix m m'
    assume "map_option (\<lambda>fs. m\<lparr>dm_fields := fs\<rparr>) (map_opt (set_to_fields d m) (dm_fields m)) = Some m'"
    then obtain fs where fs: "map_opt (set_to_fields d m) (dm_fields m) = Some fs" "m' = m\<lparr>dm_fields := fs\<rparr>" by auto
    note k = set_to_fields_model [OF map_opt_list_all2 [OF fs(1)]]
    show "step m m'" unfolding step_def fs(2) by (simp add: model_refines_fields k(1,2) model_relations_fields k(3))
  qed
  then have "\<Union> (model_relations ` set ms) = \<Union> (model_relations ` set (dml_models d))"
    "map dm_name ms = map dm_name (dml_models d)"
    "map (\<lambda>m. map df_name (dm_fields m)) ms = map (\<lambda>m. map df_name (dm_fields m)) (dml_models d)"
    "list_all2 model_refines (dml_models d) ms"
    by (induction rule: list_all2_induct) (auto simp: step_def dest: model_refines_same(1))
  moreover have "list_all (\<lambda>m. distinct (map df_name (dm_fields m))) xs \<longleftrightarrow>
      list_all distinct (map (\<lambda>m. map df_name (dm_fields m)) xs)" for xs :: "('a, 'b) dml_model list"
    by (simp add: list.pred_map comp_def)
  ultimately show "relations d' = relations d" "unique_dml d \<Longrightarrow> unique_dml d'" "dml_refines d d'"
    by (simp_all add: relations_def unique_dml_def dml_refines_def ms(2))
qed

subsection \<open>Back relations\<close>

definition mbr_tuple :: "add_missing_back_relation_field \<Rightarrow> relation_tuple" where
  "mbr_tuple mb = (mbr_model mb, mbr_field mb, rel_to (mbr_relation_info mb), rel_name (mbr_relation_info mb))"

lemma add_back_relation_keeps:
  assumes "add_back_relation s mb (es, d) = Some ([], d')" "unique_dml d" "mbr_arity mb \<noteq> DRequired"
  shows "es = []" "unique_dml d'" "dml_refines d d'" "relations d' = insert (mbr_tuple mb) (relations d)"
proof -
  obtain m where m: "dml_find_model d (mbr_model mb) = Some m" "dml_find_field m (mbr_field mb) = None" "es = []"
    "d' = dml_find_model_mut (mbr_model mb) (dml_add_field (back_relation_field mb)) d"
    using assms(1) by (auto simp: add_back_relation_def bind_eq_Some_conv split: if_splits)
  have mem: "m \<in> set (dml_models d)" "dm_name m = mbr_model mb" using assms(2) m(1) find_model_unique by blast+
  have g: "dm_name (dml_add_field (back_relation_field mb) x) = dm_name x" for x :: "('a, 'b) dml_model"
    by (simp add: dml_add_field_def)
  have gen: "generated_field (back_relation_field mb :: ('a, 'b) dml_field)"
    using assms(3) by (simp add: generated_field_def back_relation_field_def dml_field_new_generated_def field_typed_def)
  have rels: "model_relations (dml_add_field (back_relation_field mb) m) = insert (mbr_tuple mb) (model_relations m)"
    by (simp add: model_relations_fields dml_add_field_def field_relations_def back_relation_field_def
        dml_field_new_generated_def mbr_tuple_def mem(2))
  have "model_relations m \<subseteq> relations d" using mem(1) by (auto simp: relations_def)
  then show "relations d' = insert (mbr_tuple mb) (relations d)"
    unfolding m(4) find_model_mut_relations(1) [OF assms(2) m(1) g] rels by blast
  show "es = []" by (rule m(3))
  have "distinct (map df_name (dm_fields m))" using assms(2) mem(1) by (auto simp: unique_dml_def list_all_iff)
  moreover have "mbr_field mb \<notin> df_name ` set (dm_fields m)"
    using m(2) by (simp add: dml_find_field_def find_key_None_iff)
  ultimately show "unique_dml d'" unfolding m(4)
    by (intro find_model_mut_relations(3) [OF assms(2) m(1) g])
      (simp add: dml_add_field_def back_relation_field_def dml_field_new_generated_def)
  show "dml_refines d d'" unfolding m(4)
  proof (rule find_model_mut_refines [OF m(1)])
    show "model_refines m (dml_add_field (back_relation_field mb) m)"
      unfolding model_refines_def
      by (rule exI [of _ "dm_fields m"], rule exI [of _ "[back_relation_field mb]"])
        (simp add: gen dml_add_field_def list.rel_refl)
  qed
qed

lemma add_back_relation_errors: "add_back_relation s mb (es, d) = Some (es', d') \<Longrightarrow> es' = [] \<Longrightarrow> es = []"
  by (auto simp: add_back_relation_def bind_eq_Some_conv split: if_splits)

lemma add_back_relations_errors: "add_back_relations s mbs (es, d) = Some ([], d') \<Longrightarrow> es = []"
proof (induction mbs arbitrary: es d)
  case (Cons mb mbs)
  then obtain es1 d1 where "add_back_relation s mb (es, d) = Some (es1, d1)" "add_back_relations s mbs (es1, d1) = Some ([], d')"
    by (auto simp: bind_eq_Some_conv)
  with Cons.IH add_back_relation_errors show ?case by blast
qed simp

lemma add_back_relations_keeps:
  assumes "add_back_relations s mbs (es, d) = Some ([], d')" "unique_dml d" "\<forall>mb\<in>set mbs. mbr_arity mb \<noteq> DRequired"
  shows "unique_dml d' \<and> dml_refines d d' \<and> relations d' = relations d \<union> mbr_tuple ` set mbs"
  using assms
proof (induction mbs arbitrary: es d)
  case (Cons mb mbs)
  then obtain es1 d1 where st: "add_back_relation s mb (es, d) = Some (es1, d1)" "add_back_relations s mbs (es1, d1) = Some ([], d')"
    by (auto simp: bind_eq_Some_conv)
  have "es1 = []" using st(2) by (rule add_back_relations_errors)
  with st(1) Cons.prems have k: "unique_dml d1" "dml_refines d d1" "relations d1 = insert (mbr_tuple mb) (relations d)"
    using add_back_relation_keeps [of s mb es d d1] by auto
  with Cons.IH [OF st(2) k(1)] Cons.prems(3) show ?case by (auto intro: dml_refines_trans)
qed simp

text \<open>The name of a generated field depends on the model and the arity of the field it belongs to.\<close>

definition generated_name :: "(string \<Rightarrow> string) \<Rightarrow> ('f, 't) dml_model \<Rightarrow> ('f, 't) dml_field \<Rightarrow> string" where
  "generated_name pluralize m f =
     (if is_singular (df_arity f) then camel_case (pluralize (dm_name m)) else camel_case (dm_name m))"

lemma missing_back_relation_mem:
  assumes "missing_back_relation pluralize d m f = Some mbs" "mb \<in> set mbs"
  obtains rel m' where "df_type f = RelationType rel" "dml_find_model d (rel_to rel) = Some m'"
    "model_related_field m' (dm_name m) (rel_name rel) (df_name f) = None" "mbr_arity mb \<noteq> DRequired"
    "mbr_tuple mb = (rel_to rel, generated_name pluralize m f, dm_name m, rel_name rel)"
proof -
  obtain rel where rel: "df_type f = RelationType rel"
    using assms by (cases "df_type f") (auto simp: missing_back_relation_def)
  obtain m' where m': "dml_find_model d (rel_to rel) = Some m'"
    using assms(1) rel by (auto simp: missing_back_relation_def)
  show thesis
    by (rule that [OF rel m']; use assms rel m' in
        \<open>auto simp: missing_back_relation_def Let_def mbr_tuple_def generated_name_def split: if_splits\<close>)
qed

lemma missing_back_relations_mem:
  assumes "concat_map_opt (find_missing_back_relation_fields pluralize d) (dml_models d) = Some mbs" "mb \<in> set mbs"
  obtains m f rel m' where "m \<in> set (dml_models d)" "f \<in> set (dm_fields m)" "df_type f = RelationType rel"
    "dml_find_model d (rel_to rel) = Some m'"
    "model_related_field m' (dm_name m) (rel_name rel) (df_name f) = None" "mbr_arity mb \<noteq> DRequired"
    "mbr_tuple mb = (rel_to rel, generated_name pluralize m f, dm_name m, rel_name rel)"
proof -
  obtain m us where m: "m \<in> set (dml_models d)" "find_missing_back_relation_fields pluralize d m = Some us" "mb \<in> set us"
    using concat_map_opt_set [OF assms(1)] assms(2) by fastforce
  obtain f vs where f: "f \<in> set (dm_fields m)" "missing_back_relation pluralize d m f = Some vs" "mb \<in> set vs"
    using concat_map_opt_set [OF m(2) [unfolded find_missing_back_relation_fields_def]] m(3) by fastforce
  show thesis using f(2,3) by (rule missing_back_relation_mem) (use that m(1) f(1) in blast)
qed

text \<open>Validation leaves one unnamed relation between two models, and back relations add its other side.\<close>

definition no_unnamed_twice :: "relation_tuple set \<Rightarrow> bool" where
  "no_unnamed_twice R \<longleftrightarrow> (\<forall>a f g t. (a, f, t, []) \<in> R \<longrightarrow> (a, g, t, []) \<in> R \<longrightarrow> f = g)"

lemma single_unnamed_union:
  assumes "no_unnamed_twice R" "no_unnamed_twice T"
    "\<And>t g a h. (t, g, a, []) \<in> T \<Longrightarrow> (t, h, a, []) \<in> R \<Longrightarrow> t = a"
  shows "single_unnamed (R \<union> T)"
proof -
  have R: "f = g" if "(a, f, t, []) \<in> R" "(a, g, t, []) \<in> R" for a f g t
    using assms(1) that unfolding no_unnamed_twice_def by blast
  have T: "f = g" if "(a, f, t, []) \<in> T" "(a, g, t, []) \<in> T" for a f g t
    using assms(2) that unfolding no_unnamed_twice_def by blast
  show ?thesis unfolding single_unnamed_def
  proof (intro conjI allI impI)
    fix a t f f' :: string
    assume "a \<noteq> t" "(a, f, t, []) \<in> R \<union> T" "(a, f', t, []) \<in> R \<union> T"
    then show "f = f'" using R T assms(3) by blast
  next
    fix a f g h :: string
    assume "(a, f, a, []) \<in> R \<union> T" "(a, g, a, []) \<in> R \<union> T" "(a, h, a, []) \<in> R \<union> T"
    then show "f = g \<or> g = h \<or> f = h" using R T by blast
  qed
qed

lemma add_missing_back_relations_keeps:
  assumes "add_missing_back_relations pluralize s d = Some ([], d')" "unique_dml d" "no_unnamed_twice (relations d)"
  shows "unique_dml d'" "dml_refines d d'" "single_unnamed (relations d')"
proof -
  obtain mbs where mbs: "concat_map_opt (find_missing_back_relation_fields pluralize d) (dml_models d) = Some mbs"
    "add_back_relations s mbs ([], d) = Some ([], d')"
    using assms(1) by (auto simp: add_missing_back_relations_def bind_eq_Some_conv)
  have src: "\<exists>m f. m \<in> set (dml_models d) \<and> f \<in> set (dm_fields m) \<and> dm_name m = a \<and> g = generated_name pluralize m f \<and>
      (a, df_name f, t, n) \<in> relations d \<and> (\<forall>h. (t, h, a, n) \<in> relations d \<longrightarrow> t = a \<and> h = df_name f)"
    if "(t, g, a, n) \<in> mbr_tuple ` set mbs" for t g a n
  proof -
    obtain mb where mb: "mb \<in> set mbs" "mbr_tuple mb = (t, g, a, n)" using \<open>(t, g, a, n) \<in> mbr_tuple ` set mbs\<close> by force
    obtain m f rel m' where x: "m \<in> set (dml_models d)" "f \<in> set (dm_fields m)" "df_type f = RelationType rel"
      "dml_find_model d (rel_to rel) = Some m'"
      "model_related_field m' (dm_name m) (rel_name rel) (df_name f) = None"
      "mbr_tuple mb = (rel_to rel, generated_name pluralize m f, dm_name m, rel_name rel)"
      using mbs(1) mb(1) by (rule missing_back_relations_mem)
    have "\<forall>h. (rel_to rel, h, dm_name m, rel_name rel) \<in> relations d \<longrightarrow> rel_to rel = dm_name m \<and> h = df_name f"
      using related_field_iff [OF assms(2) x(4), of "dm_name m" "rel_name rel" "df_name f"] x(5) by blast
    with x(1,2,6) mb(2) relation_of_field [OF x(1-3)] show ?thesis by auto
  qed
  have "no_unnamed_twice (mbr_tuple ` set mbs)"
    unfolding no_unnamed_twice_def
  proof (intro allI impI)
    fix t g g' a :: string
    assume T: "(t, g, a, []) \<in> mbr_tuple ` set mbs" "(t, g', a, []) \<in> mbr_tuple ` set mbs"
    obtain m f where x: "m \<in> set (dml_models d)" "f \<in> set (dm_fields m)" "dm_name m = a" "g = generated_name pluralize m f"
      "(a, df_name f, t, []) \<in> relations d" using src [OF T(1)] by blast
    obtain m' f' where y: "m' \<in> set (dml_models d)" "f' \<in> set (dm_fields m')" "dm_name m' = a" "g' = generated_name pluralize m' f'"
      "(a, df_name f', t, []) \<in> relations d" using src [OF T(2)] by blast
    have "m' = m" using x(1,3) y(1,3) find_model_unique [OF assms(2), of a] by (metis option.inject)
    moreover have "df_name f = df_name f'" using assms(3) x(5) y(5) unfolding no_unnamed_twice_def by blast
    moreover have "distinct (map df_name (dm_fields m))" using assms(2) x(1) by (auto simp: unique_dml_def list_all_iff)
    ultimately have "f' = f" using x(2) y(2) by (simp add: distinct_map inj_on_def)
    with \<open>m' = m\<close> x(4) y(4) show "g = g'" by simp
  qed
  then have "single_unnamed (relations d \<union> mbr_tuple ` set mbs)"
    using src by (intro single_unnamed_union [OF assms(3)]) blast+
  moreover have "\<forall>mb\<in>set mbs. mbr_arity mb \<noteq> DRequired" using missing_back_relations_mem [OF mbs(1)] by metis
  ultimately show "unique_dml d'" "dml_refines d d'" "single_unnamed (relations d')"
    using add_back_relations_keeps [OF mbs(2) assms(2)] by auto
qed

end
