(* ===== verification/Pipeline.thy ===== *)
theory Pipeline
  imports Standardised
begin

section \<open>The datamodel the pipeline returns\<close>

text \<open>
  \<open>validation_pipeline.rs\<close> as a whole: a schema that passes all phases gives a well-formed datamodel, with
  the models and enums of the schema in their order.
\<close>

subsection \<open>Well-formed datamodels\<close>

text \<open>
  The fields of a model are different and typed, its ids and indexes name fields it has, and unless it
  only connects two models it has exactly one id criterion.
\<close>

definition one_id :: "('f, 't) dml_model \<Rightarrow> bool" where
  "one_id m \<longleftrightarrow> is_relation_model m \<or>
     (length (singular_id_fields m) = 1 \<and> dm_id_fields m = [] \<or> singular_id_fields m = [] \<and> dm_id_fields m \<noteq> [])"

definition wf_dml_model :: "('f, 't) dml_model \<Rightarrow> bool" where
  "wf_dml_model m \<longleftrightarrow> distinct (map df_name (dm_fields m)) \<and> list_all field_typed (dm_fields m) \<and>
     undefined_fields m (dm_id_fields m) = [] \<and>
     list_all (\<lambda>i. undefined_fields m (idef_fields i) = []) (dm_indexes m) \<and> one_id m"

text \<open>
  A field of an enum type has an enum of the datamodel. A relation leads to a model of the datamodel which
  has another field of the same relation that leads back.
\<close>

definition field_resolved :: "('f, 't) datamodel \<Rightarrow> ('f, 't) dml_model \<Rightarrow> ('f, 't) dml_field \<Rightarrow> bool" where
  "field_resolved d m f =
     (case df_type f of
        RelationType rel \<Rightarrow>
          (case dml_find_model d (rel_to rel) of
             None \<Rightarrow> False
           | Some m' \<Rightarrow> model_related_field m' (dm_name m) (rel_name rel) (df_name f) \<noteq> None)
      | EnumType e \<Rightarrow> has_enum d e
      | _ \<Rightarrow> True)"

definition wf_datamodel :: "('f, 't) datamodel \<Rightarrow> bool" where
  "wf_datamodel d \<longleftrightarrow>
     distinct (map dm_name (dml_models d) @ map de_name (dml_enums d)) \<and>
     list_all wf_dml_model (dml_models d) \<and>
     list_all (\<lambda>e. distinct (de_values e)) (dml_enums d) \<and>
     list_all (\<lambda>m. list_all (field_resolved d m) (dm_fields m)) (dml_models d)"

subsection \<open>What the first phases ensure\<close>

lemma precheck_unique:
  assumes "precheck s = Inr ()"
  shows "distinct (map mname (models s) @ map ename (enums s))"
    "list_all (\<lambda>m. distinct (map fname (model_fields m))) (models s)"
    "list_all (\<lambda>e. distinct (map value_name (enum_values e))) (enums s)"
proof -
  have ok: "\<forall>t\<in>set (tops s). entry_ok t" "distinct (map top_name (filter is_named_type (tops s)))"
    using assms precheck_fold [of "tops s" "\<lparr>pre_errors = [], pre_types = duplicate_checker_new,
      pre_sources = duplicate_checker_new, pre_generators = duplicate_checker_new\<rparr>"]
    by (auto simp: precheck_def Let_def check_top_ok errors_ok_def has_errors_def split: if_splits)
  have "distinct (map mname (List.map_filter as_model ts) @ map ename (List.map_filter as_enum ts)) \<and>
      set (map mname (List.map_filter as_model ts) @ map ename (List.map_filter as_enum ts)) \<subseteq>
      set (map top_name (filter is_named_type ts))"
    if "distinct (map top_name (filter is_named_type ts))" for ts
    using that
  proof (induction ts)
    case (Cons t ts)
    then show ?case by (cases t) (auto simp: List.map_filter_simps is_named_type_def)
  qed (simp add: List.map_filter_simps)
  with ok(2) show "distinct (map mname (models s) @ map ename (enums s))" by (simp add: models_def enums_def)
  have "list_all (\<lambda>m. distinct (map fname (model_fields m))) (List.map_filter as_model ts) \<and>
      list_all (\<lambda>e. distinct (map value_name (enum_values e))) (List.map_filter as_enum ts)"
    if "\<forall>t\<in>set ts. entry_ok t" for ts
    using that
  proof (induction ts)
    case (Cons t ts)
    then show ?case by (cases t) (auto simp: List.map_filter_simps)
  qed (simp add: List.map_filter_simps)
  with ok(1) show "list_all (\<lambda>m. distinct (map fname (model_fields m))) (models s)"
    "list_all (\<lambda>e. distinct (map value_name (enum_values e))) (enums s)"
    by (simp_all add: models_def enums_def)
qed

lemma accepted_model_names:
  assumes "accepted_model lib s m model"
  shows "dm_name model = mname m" "map df_name (dm_fields model) = map fname (model_fields m)"
    "list_all field_typed (dm_fields model)" "undefined_fields model (dm_id_fields model) = []"
    "list_all (\<lambda>i. undefined_fields model (idef_fields i) = []) (dm_indexes model)"
proof -
  have fs: "list_all2 (accepted_field lib s) (model_fields m) (dm_fields model)"
    and like: "model_like (mname m) (dm_fields model) model" using assms by (auto simp: accepted_model_def)
  from fs have "map df_name (dm_fields model) = map fname (model_fields m) \<and> list_all field_typed (dm_fields model)"
    by (induction rule: list_all2_induct) (auto simp: accepted_field_def field_like_def)
  with like show "dm_name model = mname m" "map df_name (dm_fields model) = map fname (model_fields m)"
    "list_all field_typed (dm_fields model)" "undefined_fields model (dm_id_fields model) = []"
    "list_all (\<lambda>i. undefined_fields model (idef_fields i) = []) (dm_indexes model)"
    by (auto simp: model_like_def)
qed

lemma list_all2_mem2: "list_all2 R xs ys \<Longrightarrow> y \<in> set ys \<Longrightarrow> \<exists>x\<in>set xs. R x y"
  by (induction rule: list_all2_induct) auto

lemma list_all2_names: "list_all2 R xs ys \<Longrightarrow> (\<And>x y. R x y \<Longrightarrow> g y = f x) \<Longrightarrow> map g ys = map f xs"
  by (induction rule: list_all2_induct) auto

lemma lift_schema_unique:
  assumes "lift_schema lib (builtin_box lib) s = Some (Inr d)" "precheck s = Inr ()"
  shows "unique_dml d" "map dm_name (dml_models d) = map mname (models s)" "map de_name (dml_enums d) = map ename (enums s)"
    "distinct (map dm_name (dml_models d) @ map de_name (dml_enums d))" "list_all (\<lambda>e. distinct (de_values e)) (dml_enums d)"
proof -
  note l = lift_schema_ok [OF assms(1)] and p = precheck_unique [OF assms(2)]
  show n: "map dm_name (dml_models d) = map mname (models s)" "map de_name (dml_enums d) = map ename (enums s)"
    using l by (auto intro: list_all2_names accepted_model_names(1) simp: accepted_enum_def)
  with p(1) show "distinct (map dm_name (dml_models d) @ map de_name (dml_enums d))" by simp
  have f: "map (\<lambda>m. map df_name (dm_fields m)) (dml_models d) = map (\<lambda>m. map fname (model_fields m)) (models s)"
    using l(1) accepted_model_names(2) by (rule list_all2_names)
  have v: "map de_values (dml_enums d) = map (\<lambda>e. map value_name (enum_values e)) (enums s)"
    using l(2) by (rule list_all2_names) (simp add: accepted_enum_def)
  have "list_all distinct (map (\<lambda>m. map df_name (dm_fields m)) (dml_models d))" "list_all distinct (map de_values (dml_enums d))"
    unfolding f v using p(2,3) by (simp_all add: list.pred_map comp_def)
  with p(1) n(1) show "unique_dml d" "list_all (\<lambda>e. distinct (de_values e)) (dml_enums d)"
    by (simp_all add: unique_dml_def list.pred_map comp_def)
qed

lemma validate_model_Nil:
  assumes "validate_model s d m = Some []"
  shows "one_id m" "\<And>a b. a \<in> set (dm_fields m) \<Longrightarrow> b \<in> set (dm_fields m) \<Longrightarrow> ambiguous_pair m a b = None"
proof -
  obtain am ids rels emb where v: "validate_relations_not_ambiguous s m = Some rels"
    "concat (map (\<lambda>r. case r of Inl e \<Rightarrow> [e] | Inr _ \<Rightarrow> []) [validate_model_has_id am m, ids, rels, emb]) = []"
    using assms unfolding validate_model_def by (auto simp: bind_eq_Some_conv)
  then have i: "validate_model_has_id am m = Inr ()" "rels = Inr ()" by (auto split: sum.splits)
  from i(1) show "one_id m"
    by (cases "singular_id_fields m") (auto simp: validate_model_has_id_def one_id_def Let_def split: if_splits)
  show "ambiguous_pair m a b = None" if "a \<in> set (dm_fields m)" "b \<in> set (dm_fields m)" for a b
  proof -
    have "find (\<lambda>(a, b). ambiguous_pair m a b \<noteq> None)
        (concat (map (\<lambda>a. map (\<lambda>b. (a, b)) (dm_fields m)) (dm_fields m))) = None"
      using v(1) unfolding i(2) validate_relations_not_ambiguous_def Let_def
      by (auto simp: first_error_def split: option.splits)
    then show ?thesis using that unfolding find_None_iff by auto
  qed
qed

lemma validator_validate_ok:
  assumes "validator_validate s d = Some (Inr ())" "unique_dml d"
  shows "list_all one_id (dml_models d)" "no_unnamed_twice (relations d)"
proof -
  have v: "validate_model s d m = Some []" if "m \<in> set (dml_models d)" for m
  proof -
    have "concat_map_opt (validate_model s d) (dml_models d) = Some []"
      using assms(1) by (auto simp: validator_validate_def errors_ok_def has_errors_def split: if_splits)
    from concat_map_opt_set [OF this] that show ?thesis by fastforce
  qed
  then show "list_all one_id (dml_models d)" using validate_model_Nil(1) by (fastforce simp: list_all_iff)
  show "no_unnamed_twice (relations d)"
    unfolding no_unnamed_twice_def
  proof (intro allI impI)
    fix a f g t :: string
    assume fg: "(a, f, t, []) \<in> relations d" "(a, g, t, []) \<in> relations d"
    obtain m x rel where x: "m \<in> set (dml_models d)" "dm_name m = a" "x \<in> set (dm_fields m)" "df_name x = f"
      "df_type x = RelationType rel" "rel_to rel = t" "rel_name rel = []" using fg(1) by (rule relationE)
    obtain m' y rel' where y: "m' \<in> set (dml_models d)" "dm_name m' = a" "y \<in> set (dm_fields m')" "df_name y = g"
      "df_type y = RelationType rel'" "rel_to rel' = t" "rel_name rel' = []" using fg(2) by (rule relationE)
    have "m' = m" using x(1,2) y(1,2) find_model_unique [OF assms(2), of a] by (metis option.inject)
    then have "ambiguous_pair m x y = None" using validate_model_Nil(2) [OF v [OF x(1)] x(3)] y(3) by simp
    then have "x = y" using x y by (auto simp: ambiguous_pair_def split: if_splits)
    with x(4) y(4) show "f = g" by simp
  qed
qed

subsection \<open>Types of fields\<close>

lemma lift_field_type_enum:
  "lift_field_type s f c = Inr (EnumType e, extra) \<Longrightarrow> find_enum s e \<noteq> None"
proof (induction s f c arbitrary: extra rule: lift_field_type.induct)
  case (1 s f c)
  show ?case
  proof (cases "find_model s (ident_name (field_type f)) = None \<and> find_enum s (ident_name (field_type f)) = None \<and>
      ident_name (field_type f) \<notin> set c \<and> (\<exists>err. prisma_type_from_str (ident_name (field_type f)) (ident_span (field_type f)) = Inl err)")
    case True
    then obtain err where err: "prisma_type_from_str (ident_name (field_type f)) (ident_span (field_type f)) = Inl err" by blast
    from "1.prems" True err obtain t ft ex where "find_custom_type s (ident_name (field_type f)) = Some t"
      "lift_field_type s t (c @ [fname t]) = Inr (ft, ex)" "ft = EnumType e"
      by (subst (asm) lift_field_type.simps) (auto simp: Let_def and_then_Inr_iff split: option.splits if_splits)
    with "1.IH" [OF refl err] True show ?thesis by auto
  next
    case False
    with "1.prems" show ?thesis
      by (subst (asm) lift_field_type.simps) (auto simp: Let_def split: sum.splits if_splits)
  qed
qed

lemma accepted_field_enum:
  assumes "accepted_field lib s f field" "df_type field = EnumType e"
  shows "find_enum s e \<noteq> None"
proof -
  obtain ft extra where "lift_field_type s f [] = Inr (ft, extra)" "type_kind (df_type field) = type_kind ft"
    using assms(1) by (auto simp: accepted_field_def field_like_def)
  with assms(2) show ?thesis using lift_field_type_enum by fastforce
qed

lemma model_refines_enum:
  assumes "model_refines m m'" "f' \<in> set (dm_fields m')" "df_type f' = EnumType e"
  shows "\<exists>f\<in>set (dm_fields m). df_type f = EnumType e"
proof -
  obtain fs gs where a: "m' = m\<lparr>dm_fields := fs @ gs\<rparr>" "list_all2 field_refines (dm_fields m) fs" "list_all generated_field gs"
    using assms(1) by (auto simp: model_refines_def)
  have "f' \<notin> set gs" using a(3) assms(3) by (auto simp: list_all_iff generated_field_def)
  with assms(2) a(1) have "f' \<in> set fs" by simp
  then obtain f where "f \<in> set (dm_fields m)" "field_refines f f'" using list_all2_mem2 [OF a(2)] by blast
  with assms(3) show ?thesis by (auto simp: field_refines_def)
qed

subsection \<open>The whole pipeline\<close>

lemma lift_ast_to_datamodel_Some:
  assumes "lift_ast_to_datamodel lib pluralize s = Some (Inr d)"
  obtains d0 d1 d2 where "precheck s = Inr ()" "lift_schema lib (builtin_box lib) s = Some (Inr d0)"
    "validator_validate s d0 = Some (Inr ())" "add_missing_back_relations pluralize s d0 = Some ([], d1)"
    "set_relation_to_field_to_id_if_missing d1 = Some d2" "name_unnamed_relations d2 = Some d"
proof -
  have p: "pipeline_validate lib pluralize (builtin_box lib) s = Some (Inr d)"
    using assms by (simp add: lift_ast_to_datamodel_def directive_box_builtin)
  obtain r where r: "lift_schema lib (builtin_box lib) s = Some r"
    using p by (cases "lift_schema lib (builtin_box lib) s") (auto simp: pipeline_validate_def Let_def)
  obtain d0 where d0: "r = Inr d0"
    using p r by (cases r) (auto simp: pipeline_validate_def Let_def)
  obtain v where v: "validator_validate s d0 = Some v"
    using p r d0 by (cases "validator_validate s d0") (auto simp: pipeline_validate_def Let_def)
  obtain st where st: "standardise pluralize s d0 = Some st"
    using p r d0 v by (cases "standardise pluralize s d0") (auto simp: pipeline_validate_def Let_def)
  have "st = Inr d \<and> errors_of (precheck s) = [] \<and> errors_of v = []"
    using p r d0 v st by (cases st) (auto simp: pipeline_validate_def Let_def split: if_splits)
  then have l: "lift_schema lib (builtin_box lib) s = Some (Inr d0)" "validator_validate s d0 = Some v"
    "standardise pluralize s d0 = Some (Inr d)" "errors_of (precheck s) = []" "errors_of v = []"
    using r d0 v st by simp_all
  have e: "precheck s = Inr ()" "v = Inr ()"
    using l(2,4,5) by (auto simp: precheck_def validator_validate_def Let_def errors_ok_def has_errors_def split: if_splits)
  obtain d1 d2 where "add_missing_back_relations pluralize s d0 = Some ([], d1)"
    "set_relation_to_field_to_id_if_missing d1 = Some d2" "name_unnamed_relations d2 = Some d"
    using l(3) unfolding standardise_def by (auto simp: bind_eq_Some_conv has_errors_def split: if_splits)
  with l(1,2) e show thesis using that by blast
qed

lemma one_id_refines: "model_refines m m' \<Longrightarrow> one_id m' = one_id m"
  using model_refines_same(2,4,5) [of m m'] unfolding one_id_def by (metis length_0_conv)

lemma pipeline_models:
  assumes "precheck s = Inr ()" "lift_schema lib (builtin_box lib) s = Some (Inr d0)" "validator_validate s d0 = Some (Inr ())"
    "dml_refines d0 d" "unique_dml d"
  shows "list_all wf_dml_model (dml_models d)"
    "m' \<in> set (dml_models d) \<Longrightarrow> f' \<in> set (dm_fields m') \<Longrightarrow> df_type f' = EnumType e \<Longrightarrow> has_enum d e"
proof -
  have src: "\<exists>am m. am \<in> set (models s) \<and> m \<in> set (dml_models d0) \<and> accepted_model lib s am m \<and> model_refines m m'"
    if mem: "m' \<in> set (dml_models d)" for m'
  proof -
    obtain m where m: "m \<in> set (dml_models d0)" "model_refines m m'"
      using list_all2_mem2 [OF conjunct1 [OF assms(4) [unfolded dml_refines_def]] mem] by blast
    with list_all2_mem2 [OF lift_schema_ok(1) [OF assms(2)] m(1)] show ?thesis by blast
  qed
  have "one_id m" if "m \<in> set (dml_models d0)" for m
    using validator_validate_ok(1) [OF assms(3) lift_schema_unique(1) [OF assms(2,1)]] that by (simp add: list_all_iff)
  then have "wf_dml_model m'" if mem: "m' \<in> set (dml_models d)" for m'
  proof -
    obtain am m where m: "m \<in> set (dml_models d0)" "accepted_model lib s am m" "model_refines m m'"
      using src [OF mem] by blast
    note names = accepted_model_names(3-5) [OF m(2)] and same = model_refines_same [OF m(3)]
    have "distinct (map df_name (dm_fields m'))" using mem assms(5) by (simp add: unique_dml_def list_all_iff)
    moreover have "one_id m'" using m(1) one_id_refines [OF m(3)] \<open>\<And>m. m \<in> set (dml_models d0) \<Longrightarrow> one_id m\<close> by simp
    moreover have "list_all (\<lambda>i. undefined_fields m' (idef_fields i) = []) (dm_indexes m')"
      unfolding same(3) by (rule list.pred_mono_strong [OF names(3)]) (rule same(7))
    moreover have "list_all field_typed (dm_fields m')" using names(1) by (rule same(6))
    moreover have "undefined_fields m' (dm_id_fields m') = []" unfolding same(2) using names(2) by (rule same(7))
    ultimately show ?thesis unfolding wf_dml_model_def by blast
  qed
  then show "list_all wf_dml_model (dml_models d)" by (simp add: list_all_iff)
  assume m': "m' \<in> set (dml_models d)" "f' \<in> set (dm_fields m')" "df_type f' = EnumType e"
  obtain am m where m: "accepted_model lib s am m" "model_refines m m'" using src [OF m'(1)] by blast
  obtain f where f: "f \<in> set (dm_fields m)" "df_type f = EnumType e" using model_refines_enum [OF m(2) m'(2,3)] by blast
  obtain af where "accepted_field lib s af f"
    using list_all2_mem2 [OF conjunct1 [OF m(1) [unfolded accepted_model_def]] f(1)] by blast
  then have "find_enum s e \<noteq> None" using f(2) by (rule accepted_field_enum)
  then have "e \<in> set (map ename (enums s))" by (auto simp: find_enum_def find_None_iff)
  then have "e \<in> set (map de_name (dml_enums d))"
    using lift_schema_unique(3) [OF assms(2,1)] assms(4) by (simp add: dml_refines_def)
  then show "has_enum d e" by (auto simp: has_enum_def dml_find_enum_def find_None_iff)
qed

text \<open>C5: A schema the pipeline accepts gives a well-formed datamodel: models and enums have different
  names, which are those of the schema in its order; the fields of a model have different names, default
  values of the type of their field, and id fields that are required; ids and indexes name existing fields;
  every model that is not a mere connection of two models has exactly one id criterion; every enum type is
  an enum of the datamodel; and every relation field leads to a model with another field of the same
  relation that leads back, also where the schema gave neither that field nor a name.\<close>

theorem accepted_datamodel_wf:
  assumes "lift_ast_to_datamodel lib pluralize s = Some (Inr d)"
  shows "wf_datamodel d \<and> map dm_name (dml_models d) = map mname (models s) \<and>
    map de_name (dml_enums d) = map ename (enums s)"
proof -
  obtain d0 d1 d2 where p: "precheck s = Inr ()" and l: "lift_schema lib (builtin_box lib) s = Some (Inr d0)"
    and v: "validator_validate s d0 = Some (Inr ())"
    and st: "add_missing_back_relations pluralize s d0 = Some ([], d1)" "set_relation_to_field_to_id_if_missing d1 = Some d2"
      "name_unnamed_relations d2 = Some d"
    using assms by (rule lift_ast_to_datamodel_Some)
  note u = lift_schema_unique [OF l p]
  note a = add_missing_back_relations_keeps [OF st(1) u(1) validator_validate_ok(2) [OF v u(1)]]
  note b = set_relation_to_field_keeps [OF st(2)]
  have c: "unique_dml d" "paired (model_names d) (relations d)" "dml_refines d2 d"
    using name_unnamed_relations_paired [OF st(3)] a(1,3) b(1,2) by simp_all
  have ref: "dml_refines d0 d" using a(2) b(3) c(3) dml_refines_trans by blast
  have names: "map dm_name (dml_models d) = map dm_name (dml_models d0)" "dml_enums d = dml_enums d0"
    using ref dml_refines_names by (auto simp: dml_refines_def)
  have "field_resolved d m f" if "m \<in> set (dml_models d)" "f \<in> set (dm_fields m)" for m f
    using paired_lookup [OF c(1,2) that] pipeline_models(2) [OF p l v ref c(1) that]
    by (cases "df_type f") (auto simp: field_resolved_def)
  then show ?thesis
    using u(2-5) names pipeline_models(1) [OF p l v ref c(1)] by (simp add: wf_datamodel_def list_all_iff)
qed

subsection \<open>Examples\<close>

definition ex_field :: "string \<Rightarrow> string \<Rightarrow> field_arity \<Rightarrow> directive list \<Rightarrow> ast_field" where
  "ex_field n t a ds = \<lparr>field_type = ident_new t, field_name = ident_new n, field_arity = a, field_default_value = None,
     field_directives = ds, field_documentation = None, field_span = span_empty\<rparr>"

definition ex_model :: "string \<Rightarrow> directive list \<Rightarrow> ast_field list \<Rightarrow> top" where
  "ex_model n ds fs = TopModel \<lparr>model_name = ident_new n,
     model_fields = ex_field ''id'' ''Int'' Required [directive_new ''id'' []] # fs,
     model_directives = ds, model_documentation = None, model_span = span_empty\<rparr>"

definition ex_enum :: "string \<Rightarrow> string list \<Rightarrow> top" where
  "ex_enum n vs = TopEnum \<lparr>enum_name = ident_new n,
     enum_values = map (\<lambda>v. \<lparr>value_name = v, value_span = span_empty\<rparr>) vs,
     enum_directives = [], enum_documentation = None, enum_span = span_empty\<rparr>"

definition ex_plural :: "string \<Rightarrow> string" where
  "ex_plural s = s @ ''s''"

definition ex_named :: "string \<Rightarrow> directive" where
  "ex_named n = directive_new ''relation'' [argument_new [] (StringValue n span_empty)]"

text \<open>A relation without its other side and without a name, and an enum.\<close>

definition ex_schema :: schema_ast where
  "ex_schema = \<lparr>tops = [ex_enum ''Role'' [''USER'', ''ADMIN''],
     ex_model ''User'' [] [ex_field ''role'' ''Role'' Required []],
     ex_model ''Post'' [] [ex_field ''author'' ''User'' Required []]]\<rparr>"

definition accepted_as :: "schema_ast \<Rightarrow> ((string, string) datamodel \<Rightarrow> bool) \<Rightarrow> bool" where
  "accepted_as s p = (case lift_ast_to_datamodel ex_text_lib ex_plural s of Some (Inr d) \<Rightarrow> p d | _ \<Rightarrow> False)"

lemma accepted_asE:
  assumes "case r of Some (Inr d) \<Rightarrow> p d | _ \<Rightarrow> False"
  obtains d where "r = Some (Inr d)"
  using assms by (cases r; cases "the r") auto

theorem accepted_datamodel_wf_witness:
  "\<exists>d. lift_ast_to_datamodel ex_text_lib ex_plural ex_schema = Some (Inr d) \<and> wf_datamodel d \<and>
     map dm_name (dml_models d) = [''User'', ''Post''] \<and> map de_name (dml_enums d) = [''Role'']"
proof -
  have "accepted_as ex_schema (\<lambda>d. True)" by code_simp
  then obtain d where d: "lift_ast_to_datamodel ex_text_lib ex_plural ex_schema = Some (Inr d)"
    unfolding accepted_as_def by (elim accepted_asE)
  have "map mname (models ex_schema) = [''User'', ''Post'']" "map ename (enums ex_schema) = [''Role'']" by code_simp+
  with accepted_datamodel_wf [OF d] d show ?thesis by (intro exI [of _ d]) simp
qed

text \<open>Two relations between two models, one without a name and one with the name the first is going to get.\<close>

definition ex_collision :: schema_ast where
  "ex_collision = \<lparr>tops = [
     ex_model ''A'' [] [ex_field ''first'' ''B'' Required [], ex_field ''second'' ''B'' Required [ex_named ''AToB'']],
     ex_model ''B'' [] [ex_field ''firsts'' ''A'' ListArity [], ex_field ''seconds'' ''A'' ListArity [ex_named ''AToB'']]]\<rparr>"


definition ex_embedded :: schema_ast where
  "ex_embedded = \<lparr>tops = [ex_model ''A'' [directive_new ''embedded'' []] [ex_field ''b'' ''B'' Required []], ex_model ''B'' [] []]\<rparr>"


definition ex_twice :: schema_ast where
  "ex_twice = \<lparr>tops = [ex_model ''A'' [] [], ex_model ''A'' [] [ex_field ''b'' ''B'' Required []], ex_model ''B'' [] []]\<rparr>"


end
