(* ===== verification/Spec2Isabelle.thy ===== *)
theory Spec2Isabelle
  imports Diff_Empty Step_Invariants Sql_Diff_Facts Sql_Destructive Command_Facts Pipeline
begin

text \<open>
  This library models the migration engine of Prisma and the part of its datamodel library that turns a
  parsed schema into a validated datamodel.

  \<^bold>\<open>The program.\<close> A schema file is parsed to an AST (\<open>libs/datamodel/src/ast\<close>). The validation pipeline
  (\<open>libs/datamodel/src/validator\<close>) prechecks the AST, lifts it to a datamodel, validates the datamodel and
  standardises it. The migration engine (\<open>migration-engine/core\<close>) compares two ASTs, emits datamodel steps,
  and applies such steps to an AST. For a database, the SQL connector
  (\<open>migration-engine/connectors/sql-migration-connector\<close>) compares two SQL schemas, corrects the steps for
  the database at hand, checks them for loss of data, renders them to SQL, executes them and keeps a log
  of migrations in a table. The commands of the engine put these parts together.

  \<^bold>\<open>Conventions.\<close> \<open>Result\<close> is a sum with the error in \<open>Inl\<close>. A panic is \<open>None\<close>, or \<open>Inl Panics\<close> where errors
  and panics are told apart. Mutable state is passed explicitly; \<open>Effects\<close> has the calls that read and
  write a state and may fail. Machine integers keep their width (\<open>Sql_Schema\<close>, \<open>Migration_Store\<close>, \<open>Dml\<close>).
  Code outside the repository is an argument: the text forms of floating point numbers and dates and
  the environment (\<open>text_lib\<close>), JSON (\<open>codec\<close>), the database (\<open>connection\<close>, \<open>sql_environment\<close>), URLs
  (\<open>url_library\<close>). Parts of the repository that are not modelled are arguments in the same way: the
  inflector, the describers and the SQL schema calculator.

  \<^bold>\<open>Theories.\<close>

  \<^item> \<open>Prisma_Prelude\<close>, \<open>Keyed_Lists\<close>, \<open>Lenses\<close>, \<open>Merge_Runs\<close>, \<open>Effects\<close>: shared definitions, lemmas and interfaces.
    The locales \<open>part\<close>, \<open>lens\<close>, \<open>keyed_merge\<close> and \<open>part_merge\<close> are interpreted in \<open>Schema_Parts\<close> and in the
    theories on steps.
  \<^item> \<open>Ast\<close>, \<open>Expression_Codec\<close>: the AST with its lookups and updates; the printer (\<open>ast/renderer\<close>) and the
    parser (\<open>ast/parser\<close>) of expressions. Printing and parsing are inverse up to spans on printable
    expressions, and two kinds of literals outside of them do not come back.
  \<^item> \<open>Steps\<close>, \<open>Calculator\<close>, \<open>Differ\<close>: \<open>steps.rs\<close>, \<open>datamodel_calculator.rs\<close>, \<open>datamodel_differ.rs\<close> and its submodules.
    \<open>Schema_Content\<close> is their specification. \<open>Schema_Parts\<close>, \<open>Directive_Steps\<close>, \<open>Repeated_Directives\<close>, \<open>Enum_Steps\<close>,
    \<open>Model_Steps\<close>, \<open>Diff_Apply\<close> and \<open>Diff_Empty\<close> show that the inferred steps apply and lead to the content of
    the next schema, and that the differ finds nothing exactly for equal content. \<open>Step_Invariants\<close> has
    what every sequence of steps keeps and when a step succeeds.
  \<^item> \<open>Sql_Schema\<close>, \<open>Sql_Steps\<close>, \<open>Sql_Differ\<close>, \<open>Sql_Error\<close>, \<open>Sql_Inferrer\<close>, \<open>Sql_Renderer\<close>: \<open>sql-schema-describer/src/lib.rs\<close>
    and the files \<open>sql_migration.rs\<close>, \<open>sql_schema_differ.rs\<close>, \<open>error.rs\<close>, \<open>sql_database_migration_inferrer.rs\<close>,
    \<open>sql_renderer\<close> and \<open>sql_database_step_applier.rs\<close> of the SQL connector. \<open>Sql_Catalog\<close> specifies the effect of
    a step on tables and columns (locale \<open>keyed_run\<close>). \<open>Sql_Migrate\<close> and \<open>Sql_Corrected\<close> show that the executed
    steps reach the expected tables and columns on each database, and that the rollback returns.
    \<open>Sql_Rendered\<close> shows that rendering does not panic, \<open>Sql_Diff_Facts\<close> what the differ makes of a schema and
    itself, and \<open>Sql_Destructive\<close> (\<open>sql_destructive_changes_checker.rs\<close>) when the check warns.
  \<^item> \<open>Migration_Store\<close>, \<open>Sql_Store\<close>, \<open>Store_Log\<close>: \<open>migration_persistence.rs\<close> and \<open>sql_migration_persistence.rs\<close>. The
    locale \<open>migration_log\<close> is the contract of a persistence and the table of migrations implements it.
  \<^item> \<open>Migration_Applier\<close>, \<open>Applied_Migrations\<close>: \<open>migration_applier.rs\<close>. The loops return (locale \<open>counted_loop\<close>),
    execute the steps in order and record the outcome.
  \<^item> \<open>Commands\<close>, \<open>Sql_Connector\<close>, \<open>Command_Facts\<close>: \<open>core/src/commands\<close>, \<open>migration_engine.rs\<close>, the \<open>lib.rs\<close> of both
    connector crates and \<open>connection_info.rs\<close>. The lemmas show when a migration is not applied and that inferred
    steps can be applied.
  \<^item> \<open>Datamodel_Error\<close>, \<open>Dml\<close>, \<open>Precheck\<close>, \<open>Values\<close>, \<open>Directives\<close>, \<open>Lift\<close>, \<open>Standardise\<close>: \<open>error\<close>, \<open>dml\<close>, \<open>common\<close> and
    \<open>validator\<close> of \<open>libs/datamodel/src\<close>. The precheck is characterised exactly, and default values that are
    written and read again are compared. \<open>Accepted\<close> has facts on schemas the lifter accepts,
    \<open>Relations\<close> the relation fields of a datamodel as a set, and \<open>Standardised\<close> what each phase of the
    standardiser does to that set. \<open>Pipeline\<close> shows that an accepted schema gives a well-formed datamodel,
    and has three schemas on which the pipeline panics or merges two relations.

  \<^bold>\<open>Termination and fuel.\<close> Recursive functions are structural or have a measure, such as the length of the
  remaining input of the parser. The loops of the applier depend on the connector for their end, so
  they are partial and their results are stated as equations that include that the loop returns.

  \<^bold>\<open>Not modelled.\<close>

  \<^item> The query engine and its \<open>prisma-models\<close>, the introspection engine and \<open>prisma-fmt\<close> are separate programs.
  \<^item> The SQL schema calculator builds on \<open>prisma-models\<close>; its result is an argument.
  \<^item> Describers, connections, the JSON-RPC interface and the command line are input and output.
  \<^item> The parser and printer of whole schema files, the reformatter, lowering, the configuration blocks and
    DMMF are left out; the serialisation of directives is modelled.
  \<^item> The inflector uses regular expressions of another library and is an argument.
  \<^item> The pipeline is modelled for schemas without sources, which may add directives of their own. The
    relation tables of \<open>standardise.rs\<close> are left out, since the source does not call that code.
\<close>

end
